(* ===== verification/Prelude.thy ===== *)
theory Prelude
  imports Main
begin

text \<open>
  Prelude of the Notely engine development: the collections of simplification and introduction
  rules that the component theories share, the model of \<open>core::cmp::Ordering\<close> and of the stable
  \<open>slice::sort_by\<close> of the Rust standard library, a generic greedy grouping (the contract both
  chunkers of the engine implement), and a few facts on lists.
\<close>

named_theorems str_simps \<open>rewriting of the string operations of the Rust standard library\<close>
named_theorems table_simps \<open>lookup and frame rules of the SQL tables\<close>
named_theorems pipe_simps \<open>unfolding of the pipeline's primitive steps\<close>

section \<open>Lists\<close>

lemma takeWhile_dropWhile_all: "(\<forall>x \<in> set xs. P x) \<Longrightarrow> takeWhile P xs = xs \<and> dropWhile P xs = []"
  by simp

lemma dropWhile_hd_not: "dropWhile P xs \<noteq> [] \<Longrightarrow> \<not> P (hd (dropWhile P xs))"
  by (rule hd_dropWhile)

lemma dropWhile_id: "xs = [] \<or> \<not> P (hd xs) \<Longrightarrow> dropWhile P xs = xs"
  by (cases xs) auto

lemma filter_eq_self: "(\<forall>x \<in> set xs. P x) \<Longrightarrow> filter P xs = xs"
  by simp

lemma list_all2_map_self: "(\<And>a. P a (f a)) \<Longrightarrow> list_all2 P xs (map f xs)"
  by (induction xs) auto

section \<open>Results\<close>

text \<open>\<open>Result<T, E>\<close> of the source is the sum \<open>E + T\<close>: \<open>Inl\<close> the error, \<open>Inr\<close> the value.\<close>

fun is_ok :: "'e + 'a \<Rightarrow> bool" where
  "is_ok (Inl _) = False"
| "is_ok (Inr _) = True"

lemma is_ok_iff: "is_ok r \<longleftrightarrow> (\<exists>x. r = Inr x)"
  by (cases r) auto

lemma not_is_ok_iff: "\<not> is_ok r \<longleftrightarrow> (\<exists>e. r = Inl e)"
  by (cases r) auto

fun map_result :: "('a \<Rightarrow> 'b) \<Rightarrow> 'e + 'a \<Rightarrow> 'e + 'b" where
  "map_result f (Inl e) = Inl e"
| "map_result f (Inr x) = Inr (f x)"

fun map_err :: "('e \<Rightarrow> 'f) \<Rightarrow> 'e + 'a \<Rightarrow> 'f + 'a" where
  "map_err f (Inl e) = Inl (f e)"
| "map_err f (Inr x) = Inr x"

lemma map_err_eq [simp]:
  "map_err g r = Inl e \<longleftrightarrow> (\<exists>e'. r = Inl e' \<and> e = g e')" "map_err g r = Inr x \<longleftrightarrow> r = Inr x"
  by (cases r; auto)+

section \<open>Effects\<close>

text \<open>
  Fallible code with effects is a function from a state to a result and the state afterwards; the
  source's \<open>?\<close> is \<open>bindE\<close>. The effects made before an error remain: nothing is rolled back.
\<close>

type_synonym ('s, 'e, 'a) effect = "'s \<Rightarrow> ('e + 'a) \<times> 's"

definition okE :: "'a \<Rightarrow> ('s, 'e, 'a) effect" where
  "okE x s = (Inr x, s)"

definition errE :: "'e \<Rightarrow> ('s, 'e, 'a) effect" where
  "errE e s = (Inl e, s)"

definition bindE :: "('s, 'e, 'a) effect \<Rightarrow> ('a \<Rightarrow> ('s, 'e, 'b) effect) \<Rightarrow> ('s, 'e, 'b) effect" where
  "bindE m f s = (case m s of (Inl e, s') \<Rightarrow> (Inl e, s') | (Inr x, s') \<Rightarrow> f x s')"

definition map_errE :: "('e \<Rightarrow> 'f) \<Rightarrow> ('s, 'e, 'a) effect \<Rightarrow> ('s, 'f, 'a) effect" where
  "map_errE g m s = (case m s of (r, s') \<Rightarrow> (map_err g r, s'))"

text \<open>A step that cannot fail.\<close>

definition doE :: "('s \<Rightarrow> 's) \<Rightarrow> ('s, 'e, unit) effect" where
  "doE f s = (Inr (), f s)"

definition readE :: "('s \<Rightarrow> 'a) \<Rightarrow> ('s, 'e, 'a) effect" where
  "readE f s = (Inr (f s), s)"

lemmas effect_defs [pipe_simps] = okE_def errE_def bindE_def map_errE_def doE_def readE_def

lemma bindE_assoc: "bindE (bindE m f) g = bindE m (\<lambda>x. bindE (f x) g)"
  by (rule ext) (simp add: bindE_def split: prod.splits sum.splits)

text \<open>
  The outcome of an effect: \<open>outE P m Q E\<close> says that from a state with \<open>P\<close> the effect ends with a
  value and a state in \<open>Q\<close> or with an error and a state in \<open>E\<close>.
\<close>

definition outE :: "('s \<Rightarrow> bool) \<Rightarrow> ('s, 'e, 'a) effect \<Rightarrow> ('a \<Rightarrow> 's \<Rightarrow> bool) \<Rightarrow> ('e \<Rightarrow> 's \<Rightarrow> bool) \<Rightarrow> bool" where
  "outE P m Q E \<longleftrightarrow> (\<forall>s. P s \<longrightarrow> (case m s of (Inl e, s') \<Rightarrow> E e s' | (Inr x, s') \<Rightarrow> Q x s'))"

lemma outE_I:
  assumes "\<And>s s' x. P s \<Longrightarrow> m s = (Inr x, s') \<Longrightarrow> Q x s'"
    and "\<And>s s' e. P s \<Longrightarrow> m s = (Inl e, s') \<Longrightarrow> E e s'"
  shows "outE P m Q E"
  unfolding outE_def using assms by (auto split: prod.splits sum.splits)

lemma outE_ok: "outE P m Q E \<Longrightarrow> P s \<Longrightarrow> m s = (Inr x, s') \<Longrightarrow> Q x s'"
  unfolding outE_def by (drule spec [of _ s]) simp

lemma outE_err: "outE P m Q E \<Longrightarrow> P s \<Longrightarrow> m s = (Inl e, s') \<Longrightarrow> E e s'"
  unfolding outE_def by (drule spec [of _ s]) simp

lemma outE_okE: "(\<And>s. P s \<Longrightarrow> Q x s) \<Longrightarrow> outE P (okE x) Q E"
  by (simp add: outE_def okE_def)

lemma outE_errE: "(\<And>s. P s \<Longrightarrow> E e s) \<Longrightarrow> outE P (errE e) Q E"
  by (simp add: outE_def errE_def)

lemma outE_doE: "(\<And>s. P s \<Longrightarrow> Q () (f s)) \<Longrightarrow> outE P (doE f) Q E"
  by (simp add: outE_def doE_def)

lemma outE_readE: "(\<And>s. P s \<Longrightarrow> Q (f s) s) \<Longrightarrow> outE P (readE f) Q E"
  by (simp add: outE_def readE_def)

lemma outE_bind:
  assumes "outE P m R E" "\<And>x. outE (R x) (f x) Q E"
  shows "outE P (bindE m f) Q E"
proof (rule outE_I)
  fix s s' x assume "P s" "bindE m f s = (Inr x, s')"
  then show "Q x s'"
    by (auto simp: bindE_def split: prod.splits sum.splits
        dest: outE_ok [OF assms(1)] intro: outE_ok [OF assms(2)])
next
  fix s s' e assume "P s" "bindE m f s = (Inl e, s')"
  then show "E e s'"
    by (auto simp: bindE_def split: prod.splits sum.splits
        dest: outE_ok [OF assms(1)] outE_err [OF assms(1)] intro: outE_err [OF assms(2)])
qed

lemma outE_map_err:
  "outE P m Q (\<lambda>e. E (g e)) \<Longrightarrow> outE P (map_errE g m) Q E"
  unfolding outE_def map_errE_def by (auto split: prod.splits sum.splits)

lemma outE_conseq:
  assumes "outE P m Q E" "\<And>s. P' s \<Longrightarrow> P s" "\<And>x s. Q x s \<Longrightarrow> Q' x s" "\<And>e s. E e s \<Longrightarrow> E' e s"
  shows "outE P' m Q' E'"
  using assms unfolding outE_def by (fastforce split: prod.splits sum.splits)

lemma outE_conj:
  "outE P m Q E \<Longrightarrow> outE P' m Q' E'
     \<Longrightarrow> outE (\<lambda>s. P s \<and> P' s) m (\<lambda>x s. Q x s \<and> Q' x s) (\<lambda>e s. E e s \<and> E' e s)"
  unfolding outE_def by (fastforce split: prod.splits sum.splits)

section \<open>Orderings and the stable sort\<close>

datatype ordering = Less | Equal | Greater

text \<open>
  \<open>slice::sort_by\<close> is a stable sort: on a comparison that is a total preorder its result is the
  one sorted permutation that keeps equal elements in order. Insertion from the right, which puts
  an element in front of the ones it is equal to, computes it.
\<close>

fun insert_by :: "('a \<Rightarrow> 'a \<Rightarrow> ordering) \<Rightarrow> 'a \<Rightarrow> 'a list \<Rightarrow> 'a list" where
  "insert_by cmp x [] = [x]"
| "insert_by cmp x (y # ys) = (if cmp x y = Greater then y # insert_by cmp x ys else x # y # ys)"

fun sort_by :: "('a \<Rightarrow> 'a \<Rightarrow> ordering) \<Rightarrow> 'a list \<Rightarrow> 'a list" where
  "sort_by cmp [] = []"
| "sort_by cmp (x # xs) = insert_by cmp x (sort_by cmp xs)"

lemma set_insert_by [simp]: "set (insert_by cmp x ys) = insert x (set ys)"
  by (induction ys) auto

lemma set_sort_by [simp]: "set (sort_by cmp xs) = set xs"
  by (induction xs) auto

lemma length_insert_by [simp]: "length (insert_by cmp x ys) = Suc (length ys)"
  by (induction ys) auto

lemma length_sort_by [simp]: "length (sort_by cmp xs) = length xs"
  by (induction xs) auto

lemma filter_insert_by_neg: "\<not> P x \<Longrightarrow> filter P (insert_by cmp x ys) = filter P ys"
  by (induction ys) auto

text \<open>
  The law a comparison has to satisfy for \<open>sort_by\<close> to be defined by the standard library (it may
  panic otherwise), relative to the elements \<open>ok\<close> that really reach the sort.
\<close>

locale cmp_order =
  fixes cmp :: "'a \<Rightarrow> 'a \<Rightarrow> ordering" and ok :: "'a \<Rightarrow> bool"
  assumes cmp_anti: "ok x \<Longrightarrow> ok y \<Longrightarrow> cmp x y = Greater \<longleftrightarrow> cmp y x = Less"
    and cmp_trans: "ok x \<Longrightarrow> ok y \<Longrightarrow> ok z \<Longrightarrow> cmp x y \<noteq> Greater \<Longrightarrow> cmp y z \<noteq> Greater
      \<Longrightarrow> cmp x z \<noteq> Greater"
begin

lemma cmp_self: "ok x \<Longrightarrow> cmp x x = Equal"
  using cmp_anti [of x x] by (cases "cmp x x") auto

lemma cmp_total: "ok x \<Longrightarrow> ok y \<Longrightarrow> cmp x y = Greater \<Longrightarrow> cmp y x \<noteq> Greater"
  using cmp_anti [of x y] by auto

lemma insert_by_sorted:
  assumes "sorted_wrt (\<lambda>a b. cmp a b \<noteq> Greater) ys" "ok x" "\<forall>y \<in> set ys. ok y"
  shows "sorted_wrt (\<lambda>a b. cmp a b \<noteq> Greater) (insert_by cmp x ys)"
  using assms
proof (induction ys)
  case Nil
  then show ?case by simp
next
  case (Cons y ys)
  then have ok: "ok x" "ok y" "\<forall>z \<in> set ys. ok z" and le: "\<forall>z \<in> set ys. cmp y z \<noteq> Greater"
    by auto
  show ?case
  proof (cases "cmp x y = Greater")
    case True
    then show ?thesis using Cons ok cmp_total [of x y] by auto
  next
    case False
    then have "\<forall>z \<in> set ys. cmp x z \<noteq> Greater" using ok le cmp_trans [of x y] by blast
    then show ?thesis using False Cons.prems(1) by auto
  qed
qed

lemma sort_by_sorted:
  "\<forall>x \<in> set xs. ok x \<Longrightarrow> sorted_wrt (\<lambda>a b. cmp a b \<noteq> Greater) (sort_by cmp xs)"
  by (induction xs) (auto intro: insert_by_sorted)

lemma filter_insert_by_eq:
  assumes "ok x" "ok k" "\<forall>y \<in> set ys. ok y" "cmp k x = Equal"
  shows "filter (\<lambda>z. cmp k z = Equal) (insert_by cmp x ys)
    = x # filter (\<lambda>z. cmp k z = Equal) ys"
  using assms
proof (induction ys)
  case Nil
  then show ?case by simp
next
  case (Cons y ys)
  show ?case
  proof (cases "cmp x y = Greater")
    case True
    have "cmp k y \<noteq> Equal"
    proof
      assume e: "cmp k y = Equal"
      have "cmp x k \<noteq> Greater" using Cons.prems cmp_anti [of x k] by auto
      then have "cmp x y \<noteq> Greater" using Cons.prems e cmp_trans [of x k y] by auto
      then show False using True by simp
    qed
    then show ?thesis using True Cons by auto
  next
    case False
    then show ?thesis using Cons.prems by simp
  qed
qed

lemma sort_by_stable:
  assumes "\<forall>x \<in> set xs. ok x" "ok k"
  shows "filter (\<lambda>z. cmp k z = Equal) (sort_by cmp xs) = filter (\<lambda>z. cmp k z = Equal) xs"
  using assms
proof (induction xs)
  case Nil
  then show ?case by simp
next
  case (Cons x xs)
  then show ?case
    by (cases "cmp k x = Equal") (auto simp: filter_insert_by_eq filter_insert_by_neg)
qed

end

lemma insert_by_head:
  "(\<forall>y \<in> set ys. cmp x y \<noteq> Greater) \<Longrightarrow> insert_by cmp x ys = x # ys"
  by (cases ys) auto

text \<open>Sorting what is already sorted changes nothing.\<close>

lemma sort_by_idem:
  "sorted_wrt (\<lambda>a b. cmp a b \<noteq> Greater) xs \<Longrightarrow> sort_by cmp xs = xs"
  by (induction xs) (auto simp: insert_by_head)

lemma insert_by_cong_map:
  "(\<And>a b. cmp (f a) (f b) = cmp' a b) \<Longrightarrow> insert_by cmp (f x) (map f ys) = map f (insert_by cmp' x ys)"
  by (induction ys) auto

lemma sort_by_map:
  "(\<And>a b. cmp (f a) (f b) = cmp' a b) \<Longrightarrow> sort_by cmp (map f xs) = map f (sort_by cmp' xs)"
  by (induction xs) (auto simp: insert_by_cong_map)

section \<open>Greedy grouping under a budget\<close>

text \<open>
  Both chunkers of the engine (transcript segments, Markdown paragraphs) fill a group with whole
  items until the next one would exceed the budget; an item too large for the budget is a group of
  its own. \<open>greedy\<close> is that contract: \<open>greedy weight budget cur w xs\<close> continues a group \<open>cur\<close> of
  total weight \<open>w\<close> with the items \<open>xs\<close>.
\<close>

fun greedy :: "('a \<Rightarrow> nat) \<Rightarrow> nat \<Rightarrow> 'a list \<Rightarrow> nat \<Rightarrow> 'a list \<Rightarrow> 'a list list" where
  "greedy weight budget cur w [] = (if cur = [] then [] else [cur])"
| "greedy weight budget cur w (x # xs) =
     (if cur \<noteq> [] \<and> w + weight x > budget then cur # greedy weight budget [x] (weight x) xs
      else greedy weight budget (cur @ [x]) (w + weight x) xs)"

definition greedy_groups :: "('a \<Rightarrow> nat) \<Rightarrow> nat \<Rightarrow> 'a list \<Rightarrow> 'a list list" where
  "greedy_groups weight budget xs = greedy weight budget [] 0 xs"

definition total_weight :: "('a \<Rightarrow> nat) \<Rightarrow> 'a list \<Rightarrow> nat" where
  "total_weight weight xs = sum_list (map weight xs)"

lemma concat_greedy: "concat (greedy weight budget cur w xs) = cur @ xs"
  by (induction xs arbitrary: cur w) auto

lemma concat_greedy_groups [simp]: "concat (greedy_groups weight budget xs) = xs"
  by (simp add: greedy_groups_def concat_greedy)

lemma greedy_nonempty: "g \<in> set (greedy weight budget cur w xs) \<Longrightarrow> g \<noteq> []"
  by (induction xs arbitrary: cur w) (auto split: if_splits)

lemma greedy_groups_nonempty: "g \<in> set (greedy_groups weight budget xs) \<Longrightarrow> g \<noteq> []"
  by (simp add: greedy_groups_def greedy_nonempty)

lemma greedy_budget:
  assumes "g \<in> set (greedy weight budget cur w xs)" "w = total_weight weight cur"
    "w \<le> budget \<or> length cur \<le> 1"
  shows "total_weight weight g \<le> budget \<or> length g = 1"
  using assms
proof (induction xs arbitrary: cur w)
  case Nil
  then show ?case by (cases cur) (auto split: if_splits)
next
  case (Cons x xs)
  show ?case
  proof (cases "cur \<noteq> [] \<and> w + weight x > budget")
    case True
    with Cons.prems consider "g = cur" | "g \<in> set (greedy weight budget [x] (weight x) xs)"
      by auto
    then show ?thesis
    proof cases
      case 1
      then show ?thesis using Cons.prems True by (cases cur) auto
    next
      case 2
      then show ?thesis by (rule Cons.IH) (auto simp: total_weight_def)
    qed
  next
    case False
    then have "g \<in> set (greedy weight budget (cur @ [x]) (w + weight x) xs)"
      using Cons.prems(1) by auto
    then show ?thesis
      by (rule Cons.IH) (use False Cons.prems(2) in \<open>auto simp: total_weight_def\<close>)
  qed
qed

lemma greedy_groups_budget:
  "g \<in> set (greedy_groups weight budget xs) \<Longrightarrow> total_weight weight g \<le> budget \<or> length g = 1"
  unfolding greedy_groups_def by (erule greedy_budget) (auto simp: total_weight_def)

text \<open>A group is closed only when the item that follows it does not fit.\<close>

lemma greedy_maximal:
  assumes "greedy weight budget cur w xs = gs1 @ g # h # gs2" "w = total_weight weight cur"
  shows "total_weight weight g + weight (hd h) > budget"
  using assms
proof (induction xs arbitrary: cur w gs1)
  case Nil
  then show ?case by (auto split: if_splits simp: append_eq_Cons_conv Cons_eq_append_conv)
next
  case (Cons x xs)
  show ?case
  proof (cases "cur \<noteq> [] \<and> w + weight x > budget")
    case True
    show ?thesis
    proof (cases gs1)
      case Nil
      then have g: "g = cur" and rest: "greedy weight budget [x] (weight x) xs = h # gs2"
        using True Cons.prems(1) by auto
      have "h \<noteq> []" using rest greedy_nonempty [of h weight budget "[x]" "weight x" xs] by simp
      moreover have "concat (h # gs2) = x # xs"
        using rest concat_greedy [of weight budget "[x]" "weight x" xs] by simp
      ultimately have "hd h = x" by (cases h) auto
      then show ?thesis using True g Cons.prems(2) by simp
    next
      case (Cons a gs1')
      then have "greedy weight budget [x] (weight x) xs = gs1' @ g # h # gs2"
        using True Cons.prems(1) by auto
      then show ?thesis by (rule Cons.IH) (simp add: total_weight_def)
    qed
  next
    case False
    then have "greedy weight budget (cur @ [x]) (w + weight x) xs = gs1 @ g # h # gs2"
      using Cons.prems(1) by auto
    then show ?thesis by (rule Cons.IH) (simp add: total_weight_def Cons.prems(2))
  qed
qed

lemma greedy_groups_maximal:
  "greedy_groups weight budget xs = gs1 @ g # h # gs2
     \<Longrightarrow> total_weight weight g + weight (hd h) > budget"
  unfolding greedy_groups_def by (erule greedy_maximal) (simp add: total_weight_def)

lemma greedy_groups_Nil [simp]: "greedy_groups weight budget [] = []"
  by (simp add: greedy_groups_def)

lemma greedy_ne: "cur \<noteq> [] \<or> xs \<noteq> [] \<Longrightarrow> greedy weight budget cur w xs \<noteq> []"
  by (induction xs arbitrary: cur w) auto

end
