(* ===== verification/Interleave.thy ===== *)
theory Interleave
  imports Prelude
begin

text \<open>
  Threads: an effect cut into the steps between which others may run. A thread either has ended with its
  result or makes one step on the shared state and goes on. An effect on its own is one step; \<open>bindT\<close>
  sequences threads as \<open>bindE\<close> sequences effects.
\<close>

section \<open>Threads\<close>

datatype ('w, 'e, 'a) thread = Ended "'e + 'a" | Next "'w \<Rightarrow> ('w, 'e, 'a) thread \<times> 'w"

definition atom :: "('w, 'e, 'a) effect \<Rightarrow> ('w, 'e, 'a) thread" where
  "atom m = Next (\<lambda>w. case m w of (r, w') \<Rightarrow> (Ended r, w'))"

primrec thenT :: "('w, 'e, 'a) thread \<Rightarrow> ('e + 'a \<Rightarrow> ('w, 'f, 'b) thread) \<Rightarrow> ('w, 'f, 'b) thread" where
  "thenT (Ended r) f = f r"
| "thenT (Next g) f = Next (map_prod (\<lambda>p. thenT p f) id \<circ> g)"

abbreviation okT :: "'a \<Rightarrow> ('w, 'e, 'a) thread" where
  "okT x \<equiv> Ended (Inr x)"

abbreviation errT :: "'e \<Rightarrow> ('w, 'e, 'a) thread" where
  "errT e \<equiv> Ended (Inl e)"

definition bindT :: "('w, 'e, 'a) thread \<Rightarrow> ('a \<Rightarrow> ('w, 'e, 'b) thread) \<Rightarrow> ('w, 'e, 'b) thread" where
  "bindT p f = thenT p (\<lambda>r. case r of Inl e \<Rightarrow> errT e | Inr x \<Rightarrow> f x)"

lemma thread_induct [case_names Ended Next]:
  assumes "\<And>r. P (Ended r)" "\<And>g. (\<And>w. P (fst (g w))) \<Longrightarrow> P (Next g)"
  shows "P p"
proof (induction p)
  case (Next g)
  show ?case
  proof (rule assms(2))
    fix w
    show "P (fst (g w))" by (rule Next [of "g w"]) (auto intro: fsts.intros)
  qed
qed (rule assms(1))

section \<open>Running alone\<close>

primrec alone :: "('w, 'e, 'a) thread \<Rightarrow> ('w, 'e, 'a) effect" where
  "alone (Ended r) = (\<lambda>w. (r, w))"
| "alone (Next g) = (\<lambda>w. case (map_prod alone id \<circ> g) w of (m, w') \<Rightarrow> m w')"

lemma alone_Next: "alone (Next g) w = alone (fst (g w)) (snd (g w))"
  by (simp add: split_beta)

lemma alone_Ended [simp]: "alone (Ended r) w = (r, w)"
  by simp

declare alone.simps [simp del]

lemma alone_atom [simp]: "alone (atom m) = m"
  by (simp add: atom_def fun_eq_iff alone_Next split_beta)

lemma alone_then: "alone (thenT p f) w = (case alone p w of (r, w') \<Rightarrow> alone (f r) w')"
  by (induction p arbitrary: w rule: thread_induct) (simp_all add: alone_Next)

lemma alone_bind [simp]: "alone (bindT p f) = bindE (alone p) (\<lambda>x. alone (f x))"
  by (auto simp: bindT_def alone_then bindE_def fun_eq_iff split: prod.split sum.split)

lemma alone_ends [simp]: "alone (okT x) = okE x" "alone (errT e) = errE e"
  by (simp_all add: okE_def errE_def fun_eq_iff)

section \<open>What the steps do\<close>

text \<open>Every step of the thread, from whatever state others leave, is in \<open>G\<close>.\<close>

primrec steps_in :: "('w \<Rightarrow> 'w \<Rightarrow> bool) \<Rightarrow> ('w, 'e, 'a) thread \<Rightarrow> bool" where
  "steps_in G (Ended r) \<longleftrightarrow> True"
| "steps_in G (Next g) \<longleftrightarrow> (\<forall>w. case (map_prod (steps_in G) id \<circ> g) w of (b, w') \<Rightarrow> b \<and> G w w')"

lemma steps_in_Next: "steps_in G (Next g) \<longleftrightarrow> (\<forall>w. steps_in G (fst (g w)) \<and> G w (snd (g w)))"
  by (simp add: split_beta)

declare steps_in.simps(2) [simp del]

lemma steps_in_alone:
  assumes "\<And>w. G w w" "\<And>u v w. G u v \<Longrightarrow> G v w \<Longrightarrow> G u w"
  shows "steps_in G p \<Longrightarrow> G w (snd (alone p w))"
  by (induction p arbitrary: w rule: thread_induct)
    (auto simp: assms(1) steps_in_Next alone_Next intro: assms(2))

lemma steps_in_mono: "steps_in G p \<Longrightarrow> (\<And>u v. G u v \<Longrightarrow> H u v) \<Longrightarrow> steps_in H p"
  by (induction p rule: thread_induct) (simp_all add: steps_in_Next)

text \<open>Whatever happens, some step makes \<open>C\<close> hold, and every later step is in \<open>G\<close>.\<close>

primrec passes :: "('w \<Rightarrow> bool) \<Rightarrow> ('w \<Rightarrow> 'w \<Rightarrow> bool) \<Rightarrow> ('w, 'e, 'a) thread \<Rightarrow> bool" where
  "passes C G (Ended r) \<longleftrightarrow> False"
| "passes C G (Next g) \<longleftrightarrow> (\<forall>w. case (map_prod (passes C G) id \<circ> g) w of
     (b, w') \<Rightarrow> b \<or> C w' \<and> steps_in G (fst (g w)))"

lemma passes_Next:
  "passes C G (Next g) \<longleftrightarrow> (\<forall>w. passes C G (fst (g w)) \<or> C (snd (g w)) \<and> steps_in G (fst (g w)))"
  by (simp add: split_beta)

declare passes.simps(2) [simp del]

lemma steps_in_then: "steps_in G p \<Longrightarrow> (\<And>r. steps_in G (f r)) \<Longrightarrow> steps_in G (thenT p f)"
  by (induction p rule: thread_induct) (simp_all add: steps_in_Next)

lemma steps_in_bind: "steps_in G p \<Longrightarrow> (\<And>x. steps_in G (f x)) \<Longrightarrow> steps_in G (bindT p f)"
  unfolding bindT_def by (rule steps_in_then) (simp_all split: sum.split)

lemma steps_in_atom: "steps_in G (atom m) \<longleftrightarrow> (\<forall>w. G w (snd (m w)))"
  by (simp add: atom_def steps_in_Next split_beta)

lemma passes_then: "(\<And>r. passes C G (f r)) \<Longrightarrow> passes C G (thenT p f)"
  by (induction p rule: thread_induct) (simp_all add: passes_Next)

lemma passes_then_left: "passes C G p \<Longrightarrow> (\<And>r. steps_in G (f r)) \<Longrightarrow> passes C G (thenT p f)"
  by (induction p rule: thread_induct) (auto simp: passes_Next intro: steps_in_then)

lemma bind_atom: "bindT (atom m) f = Next (\<lambda>w. (case fst (m w) of Inl e \<Rightarrow> errT e | Inr x \<Rightarrow> f x, snd (m w)))"
  by (simp add: bindT_def atom_def fun_eq_iff split_beta)

lemma passes_bind:
  assumes "\<And>w. \<exists>x. fst (m w) = Inr x" "\<And>x. passes C G (f x)"
  shows "passes C G (bindT (atom m) f)"
  unfolding bind_atom passes_Next
proof
  fix w
  obtain x where "fst (m w) = Inr x" using assms(1) by blast
  then show "passes C G (fst (case fst (m w) of Inl e \<Rightarrow> errT e | Inr x \<Rightarrow> f x, snd (m w)))
      \<or> C (snd (case fst (m w) of Inl e \<Rightarrow> errT e | Inr x \<Rightarrow> f x, snd (m w)))
        \<and> steps_in G (fst (case fst (m w) of Inl e \<Rightarrow> errT e | Inr x \<Rightarrow> f x, snd (m w)))"
    using assms(2) by simp
qed

lemma passes_here:
  "(\<And>w. C (snd (m w))) \<Longrightarrow> (\<And>x. steps_in G (f x)) \<Longrightarrow> passes C G (bindT (atom m) f)"
  unfolding bind_atom by (simp add: passes_Next split: sum.split)

section \<open>Running among others\<close>

text \<open>Before each step the others may have done anything in \<open>R\<close>, any number of times.\<close>

inductive runs :: "('w \<Rightarrow> 'w \<Rightarrow> bool) \<Rightarrow> ('w, 'e, 'a) thread \<Rightarrow> 'w \<Rightarrow> 'e + 'a \<Rightarrow> 'w \<Rightarrow> bool" for R where
  ended: "runs R (Ended r) w r w"
| stepped: "R\<^sup>*\<^sup>* w w1 \<Longrightarrow> runs R (fst (g w1)) (snd (g w1)) r w' \<Longrightarrow> runs R (Next g) w r w'"

inductive_cases runs_EndedE: "runs R (Ended r) w r' w'"
inductive_cases runs_NextE: "runs R (Next g) w r w'"

lemma runs_Ended [simp]: "runs R (Ended r) w r' w' \<longleftrightarrow> r' = r \<and> w' = w"
  by (auto intro: runs.ended elim: runs_EndedE)

lemma runs_Next: "runs R (Next g) w r w' \<longleftrightarrow> (\<exists>w1. R\<^sup>*\<^sup>* w w1 \<and> runs R (fst (g w1)) (snd (g w1)) r w')"
  by (auto intro: runs.stepped elim: runs_NextE)

lemma runs_atom: "runs R (atom m) w r w' \<longleftrightarrow> (\<exists>w1. R\<^sup>*\<^sup>* w w1 \<and> m w1 = (r, w'))"
  by (auto simp: atom_def runs_Next split_beta prod_eq_iff)

lemma runs_then: "runs R (thenT p f) w r w' \<longleftrightarrow> (\<exists>r1 w1. runs R p w r1 w1 \<and> runs R (f r1) w1 r w')"
  by (induction p arbitrary: w rule: thread_induct) (auto simp: runs_Next)

lemma runs_bind:
  "runs R (bindT p f) w r w' \<longleftrightarrow> (\<exists>r1 w1. runs R p w r1 w1 \<and> (case r1 of Inl e \<Rightarrow> r = Inl e \<and> w' = w1
     | Inr x \<Rightarrow> runs R (f x) w1 r w'))"
  unfolding bindT_def runs_then by (intro arg_cong [where f = Ex] ext) (auto split: sum.split)

lemma runs_mono: "runs R p w r w' \<Longrightarrow> (\<And>u v. R u v \<Longrightarrow> S u v) \<Longrightarrow> runs S p w r w'"
  by (induction rule: runs.induct) (auto intro: runs.intros rtranclp_mono [THEN predicate2D, rotated])

lemma runs_before: "R\<^sup>*\<^sup>* u w \<Longrightarrow> runs R (Next g) w r w' \<Longrightarrow> runs R (Next g) u r w'"
  unfolding runs_Next by (meson rtranclp_trans)

text \<open>Nobody has to interfere.\<close>

lemma runs_alone: "runs R p w (fst (alone p w)) (snd (alone p w))"
  by (induction p arbitrary: w rule: thread_induct) (auto simp: alone_Next runs_Next)

text \<open>Every result of the thread is in \<open>Q\<close>.\<close>

definition ends_in :: "('e + 'a \<Rightarrow> bool) \<Rightarrow> ('w, 'e, 'a) thread \<Rightarrow> bool" where
  "ends_in Q p \<longleftrightarrow> (\<forall>R w r w'. runs R p w r w' \<longrightarrow> Q r)"

lemma ends_in_atom: "(\<And>w. Q (fst (m w))) \<Longrightarrow> ends_in Q (atom m)"
  unfolding ends_in_def runs_atom by (metis fst_conv)

lemma ends_in_bind:
  "ends_in (\<lambda>r. case r of Inl _ \<Rightarrow> False | Inr _ \<Rightarrow> True) p \<Longrightarrow> (\<And>x. ends_in Q (f x)) \<Longrightarrow> ends_in Q (bindT p f)"
  unfolding ends_in_def runs_bind by (fastforce split: sum.splits)

lemma ends_in_err: "Q (Inl e) \<Longrightarrow> ends_in Q (errT e)"
  by (simp add: ends_in_def)

lemma ends_in_ok: "Q (Inr x) \<Longrightarrow> ends_in Q (okT x)"
  by (simp add: ends_in_def)

lemma ends_in_value:
  assumes "ends_in (\<lambda>r. case r of Inl e \<Rightarrow> Q (Inl e) | Inr x \<Rightarrow> R x) p" "\<And>x. R x \<Longrightarrow> ends_in Q (f x)"
  shows "ends_in Q (bindT p f)"
  unfolding ends_in_def runs_bind
proof (intro allI impI, elim exE conjE)
  fix S w r w' r1 w1
  assume p: "runs S p w r1 w1" and f: "case r1 of Inl e \<Rightarrow> r = Inl e \<and> w' = w1 | Inr x \<Rightarrow> runs S (f x) w1 r w'"
  have "case r1 of Inl e \<Rightarrow> Q (Inl e) | Inr x \<Rightarrow> R x" using assms(1) p unfolding ends_in_def by blast
  then show "Q r" using f assms(2) unfolding ends_in_def by (cases r1) (simp, metis sum.simps(6))
qed

text \<open>What only the last part of a thread decides, and what every part keeps to.\<close>

lemma ends_in_last: "(\<And>e. Q (Inl e)) \<Longrightarrow> (\<And>x. ends_in Q (f x)) \<Longrightarrow> ends_in Q (bindT p f)"
  unfolding ends_in_def runs_bind by (fastforce split: sum.splits)

abbreviation errs_in :: "('e \<Rightarrow> bool) \<Rightarrow> ('w, 'e, 'a) thread \<Rightarrow> bool" where
  "errs_in Q p \<equiv> ends_in (\<lambda>r. case r of Inl e \<Rightarrow> Q e | Inr _ \<Rightarrow> True) p"

lemma errs_in_bind: "errs_in Q p \<Longrightarrow> (\<And>x. errs_in Q (f x)) \<Longrightarrow> errs_in Q (bindT p f)"
  unfolding ends_in_def runs_bind by (fastforce split: sum.splits)

text \<open>The outcome of a thread among others: from a state with \<open>P\<close> it ends with \<open>Q\<close> or with an error in \<open>E\<close>.\<close>

definition outR :: "('w \<Rightarrow> 'w \<Rightarrow> bool) \<Rightarrow> ('w \<Rightarrow> bool) \<Rightarrow> ('w, 'e, 'a) thread \<Rightarrow> ('a \<Rightarrow> 'w \<Rightarrow> bool)
    \<Rightarrow> ('e \<Rightarrow> 'w \<Rightarrow> bool) \<Rightarrow> bool" where
  "outR R P p Q E \<longleftrightarrow> (\<forall>w r w'. P w \<longrightarrow> runs R p w r w' \<longrightarrow> (case r of Inl e \<Rightarrow> E e w' | Inr x \<Rightarrow> Q x w'))"

lemma outR_D: "outR R P p Q E \<Longrightarrow> P w \<Longrightarrow> runs R p w r w' \<Longrightarrow> (case r of Inl e \<Rightarrow> E e w' | Inr x \<Rightarrow> Q x w')"
  unfolding outR_def by blast

lemma outR_atom:
  assumes "\<And>u v. P u \<Longrightarrow> R u v \<Longrightarrow> P v" "outE P m Q E"
  shows "outR R P (atom m) Q E"
  unfolding outR_def runs_atom
proof (intro allI impI, elim exE conjE)
  fix w r w' w1 assume "P w" and r: "R\<^sup>*\<^sup>* w w1" and m: "m w1 = (r, w')"
  from r \<open>P w\<close> have "P w1" by (induction rule: rtranclp_induct) (auto intro: assms(1))
  then show "case r of Inl e \<Rightarrow> E e w' | Inr x \<Rightarrow> Q x w'"
    using outE_ok [OF assms(2)] outE_err [OF assms(2)] m by (cases r) auto
qed

lemma outR_bind:
  assumes p: "outR R P p T E" and f: "\<And>x. outR R (T x) (f x) Q E"
  shows "outR R P (bindT p f) Q E"
  unfolding outR_def runs_bind
proof (intro allI impI, elim exE conjE)
  fix w r w' r1 w1 assume "P w" "runs R p w r1 w1"
    and 2: "case r1 of Inl e \<Rightarrow> r = Inl e \<and> w' = w1 | Inr x \<Rightarrow> runs R (f x) w1 r w'"
  from outR_D [OF p this(1,2)] 2 show "case r of Inl e \<Rightarrow> E e w' | Inr x \<Rightarrow> Q x w'"
    using outR_D [OF f] by (cases r1) auto
qed

lemma outR_okT: "(\<And>w. P w \<Longrightarrow> Q x w) \<Longrightarrow> outR R P (okT x) Q E"
  by (simp add: outR_def)

lemma outR_conseq:
  assumes "outR R P p Q E" "\<And>w. P' w \<Longrightarrow> P w" "\<And>x w. Q x w \<Longrightarrow> Q' x w" "\<And>e w. E e w \<Longrightarrow> E' e w"
  shows "outR R P' p Q' E'"
  using assms unfolding outR_def by (fastforce split: sum.splits)

lemma outR_ex: "(\<And>x. outR R (P x) p Q E) \<Longrightarrow> outR R (\<lambda>w. \<exists>x. P x w) p Q E"
  unfolding outR_def by blast

text \<open>What no step disturbs, one's own or another's, is there at the end.\<close>

lemma runs_kept:
  assumes "\<And>w. R w w" "\<And>u v w. R u v \<Longrightarrow> R v w \<Longrightarrow> R u w"
  shows "runs R p w r w' \<Longrightarrow> steps_in R p \<Longrightarrow> R w w'"
proof (induction rule: runs.induct)
  case (ended r w)
  show ?case by (rule assms(1))
next
  case (stepped w w1 g r w')
  from stepped(1) have "R w w1" by (induction rule: rtranclp_induct) (auto intro: assms)
  moreover have "R w1 (snd (g w1))" "R (snd (g w1)) w'"
    using stepped(3,4) unfolding steps_in_Next by blast+
  ultimately show ?case using assms(2) by blast
qed

lemma outR_kept:
  assumes "\<And>w. R w w" "\<And>u v w. R u v \<Longrightarrow> R v w \<Longrightarrow> R u w" "\<And>u v. P u \<Longrightarrow> R u v \<Longrightarrow> P v" "steps_in R p"
  shows "outR R P p (\<lambda>_. P) (\<lambda>_. P)"
  unfolding outR_def
proof (intro allI impI)
  fix w r w' assume "P w" and r: "runs R p w r w'"
  have "R w w'" by (rule runs_kept [OF assms(1,2) r assms(4)])
  with \<open>P w\<close> have "P w'" by (rule assms(3))
  then show "case r of Inl _ \<Rightarrow> P w' | Inr _ \<Rightarrow> P w'" by (cases r) simp_all
qed

section \<open>Every thread ends\<close>

inductive after :: "('w, 'e, 'a) thread \<Rightarrow> ('w, 'e, 'a) thread \<Rightarrow> bool" where
  "after (fst (g w)) (Next g)"

inductive_cases after_cases: "after p q"

lemma wfP_after: "wfP (after :: ('w, 'e, 'a) thread \<Rightarrow> ('w, 'e, 'a) thread \<Rightarrow> bool)"
proof (rule wfpUNIVI)
  fix P :: "('w, 'e, 'a) thread \<Rightarrow> bool" and p
  assume step: "\<forall>q. (\<forall>p. after p q \<longrightarrow> P p) \<longrightarrow> P q"
  then show "P p"
    by (induction p rule: thread_induct) (blast elim: after_cases)+
qed

end
