(* ===== verification/Rust_Str.thy ===== *)
theory Rust_Str
  imports Prelude "HOL-Library.Sublist"
begin

text \<open>
  Rust's \<open>char\<close> and \<open>str\<close>, as far as the engine uses them. A \<open>char\<close> is a Unicode scalar value, a
  string is the list of its scalar values; \<open>len()\<close> counts UTF-8 bytes (\<open>str_len\<close>) and
  \<open>chars().count()\<close> counts scalar values (\<open>length\<close>). Byte offsets the source obtains from \<open>find\<close>
  or \<open>char_indices\<close> only ever slice the string they came from, at the character they point to, so
  the model slices by character position. White space is the Unicode \<open>White_Space\<close> property, which
  is a fixed set of 25 scalar values. The Unicode tables behind \<open>char::is_alphanumeric\<close> and
  \<open>str::to_lowercase\<close> are generated data: they are the parameter \<open>unicode\<close> of the definitions that
  use them, and \<open>ascii_unicode\<close> is their restriction to ASCII.
\<close>

section \<open>Characters and literals\<close>

type_synonym uchar = nat
type_synonym ustr = "uchar list"

text \<open>\<open>lit ''abc''\<close> is the string literal \<open>"abc"\<close> of the source.\<close>

definition lit :: "string \<Rightarrow> ustr" where
  "lit s = map of_char s"

lemma lit_Nil [simp]: "lit [] = []"
  by (simp add: lit_def)

lemma lit_append: "lit (s @ t) = lit s @ lit t"
  by (simp add: lit_def)

lemma lit_eq_iff: "lit s = lit t \<longleftrightarrow> s = t"
proof -
  have "inj (of_char :: char \<Rightarrow> nat)" by (rule inj_of_char)
  then show ?thesis by (simp add: lit_def inj_map_eq_map)
qed

lemma length_lit [simp]: "length (lit s) = length s"
  by (simp add: lit_def)

abbreviation nl :: uchar where "nl \<equiv> 10"
abbreviation space :: uchar where "space \<equiv> 32"

fun utf8_len :: "uchar \<Rightarrow> nat" where
  "utf8_len c = (if c < 0x80 then 1 else if c < 0x800 then 2 else if c < 0x10000 then 3 else 4)"

definition str_len :: "ustr \<Rightarrow> nat" where
  "str_len s = sum_list (map utf8_len s)"

lemma str_len_Nil [simp]: "str_len [] = 0"
  by (simp add: str_len_def)

lemma str_len_Cons [simp]: "str_len (c # s) = utf8_len c + str_len s"
  by (simp add: str_len_def)

lemma str_len_append [simp]: "str_len (s @ t) = str_len s + str_len t"
  by (simp add: str_len_def)

lemma length_le_str_len: "length s \<le> str_len s"
  by (induction s) auto

text \<open>The bytes themselves, as numbers.\<close>

fun utf8 :: "uchar \<Rightarrow> nat list" where
  "utf8 c = (if c < 0x80 then [c]
     else if c < 0x800 then [0xC0 + c div 64, 0x80 + c mod 64]
     else if c < 0x10000 then [0xE0 + c div 4096, 0x80 + c div 64 mod 64, 0x80 + c mod 64]
     else [0xF0 + c div 262144, 0x80 + c div 4096 mod 64, 0x80 + c div 64 mod 64, 0x80 + c mod 64])"

definition as_bytes :: "ustr \<Rightarrow> nat list" where
  "as_bytes s = concat (map utf8 s)"

lemma length_as_bytes: "length (as_bytes s) = str_len s"
proof -
  have "length (utf8 c) = utf8_len c" for c by simp
  then show ?thesis by (induction s) (simp_all add: as_bytes_def del: utf8.simps utf8_len.simps)
qed

lemma utf8_byte: "c < 0x110000 \<Longrightarrow> b \<in> set (utf8 c) \<Longrightarrow> b < 256"
  by (auto split: if_splits)

text \<open>An ASCII byte stands for itself and for nothing else.\<close>

lemma utf8_ascii: "b < 0x80 \<Longrightarrow> b \<in> set (utf8 c) \<longleftrightarrow> c = b"
  by auto

lemma as_bytes_ascii: "b < 0x80 \<Longrightarrow> b \<in> set (as_bytes s) \<longleftrightarrow> b \<in> set s"
  by (simp add: as_bytes_def utf8_ascii del: utf8.simps)

definition is_whitespace :: "uchar \<Rightarrow> bool" where
  "is_whitespace c \<longleftrightarrow> (9 \<le> c \<and> c \<le> 13) \<or> c = 32 \<or> c = 0x85 \<or> c = 0xA0 \<or> c = 0x1680
     \<or> (0x2000 \<le> c \<and> c \<le> 0x200A) \<or> c = 0x2028 \<or> c = 0x2029 \<or> c = 0x202F \<or> c = 0x205F \<or> c = 0x3000"

lemma is_whitespace_space [simp]: "is_whitespace 32"
  by (simp add: is_whitespace_def)

lemma is_whitespace_nl [simp]: "is_whitespace 10"
  by (simp add: is_whitespace_def)

section \<open>Trimming\<close>

definition trim_start :: "ustr \<Rightarrow> ustr" where
  "trim_start s = dropWhile is_whitespace s"

definition trim_end :: "ustr \<Rightarrow> ustr" where
  "trim_end s = rev (dropWhile is_whitespace (rev s))"

definition trim :: "ustr \<Rightarrow> ustr" where
  "trim s = trim_end (trim_start s)"

text \<open>\<open>trim_start_matches(c)\<close> for a character pattern.\<close>

definition trim_start_matches :: "uchar \<Rightarrow> ustr \<Rightarrow> ustr" where
  "trim_start_matches c s = dropWhile (\<lambda>d. d = c) s"

text \<open>\<open>trim_end_matches(c)\<close> for a character pattern.\<close>

definition trim_end_matches :: "uchar \<Rightarrow> ustr \<Rightarrow> ustr" where
  "trim_end_matches c s = rev (dropWhile (\<lambda>d. d = c) (rev s))"

lemma trim_Nil [simp]: "trim [] = []" "trim_start [] = []" "trim_end [] = []"
  by (simp_all add: trim_def trim_start_def trim_end_def)

lemma suffix_trim_start: "suffix (trim_start s) s"
  unfolding trim_start_def suffix_def by (metis takeWhile_dropWhile_id)

lemma prefix_trim_end: "prefix (trim_end s) s"
proof -
  have "suffix (dropWhile is_whitespace (rev s)) (rev s)"
    using suffix_trim_start [of "rev s"] by (simp add: trim_start_def)
  then show ?thesis by (simp add: trim_end_def suffix_to_prefix)
qed

lemma sublist_trim: "sublist (trim s) s"
  unfolding trim_def
  by (meson prefix_imp_sublist prefix_trim_end suffix_imp_sublist suffix_trim_start
      sublist_order.order_trans)

lemma set_trim_subset: "set (trim s) \<subseteq> set s"
  using sublist_trim by (meson set_mono_sublist)

lemma trim_start_hd: "trim_start s \<noteq> [] \<Longrightarrow> \<not> is_whitespace (hd (trim_start s))"
  unfolding trim_start_def by (rule dropWhile_hd_not)

lemma trim_end_last: "trim_end s \<noteq> [] \<Longrightarrow> \<not> is_whitespace (last (trim_end s))"
  unfolding trim_end_def using hd_dropWhile [of is_whitespace "rev s"] by (simp add: last_rev)

lemma hd_trim_end: "trim_end s \<noteq> [] \<Longrightarrow> hd (trim_end s) = hd s"
  using prefix_trim_end [of s] unfolding prefix_def by (metis hd_append2)

lemma trim_hd: "trim s \<noteq> [] \<Longrightarrow> \<not> is_whitespace (hd (trim s))"
  unfolding trim_def using hd_trim_end [of "trim_start s"] trim_start_hd [of s]
  by (cases "trim_start s") auto

lemma trim_last: "trim s \<noteq> [] \<Longrightarrow> \<not> is_whitespace (last (trim s))"
  unfolding trim_def by (rule trim_end_last)

lemma trim_start_id: "s = [] \<or> \<not> is_whitespace (hd s) \<Longrightarrow> trim_start s = s"
  unfolding trim_start_def by (rule dropWhile_id)

lemma trim_end_id: "s = [] \<or> \<not> is_whitespace (last s) \<Longrightarrow> trim_end s = s"
  unfolding trim_end_def by (cases s rule: rev_cases) auto

lemma trim_id:
  "s = [] \<or> (\<not> is_whitespace (hd s) \<and> \<not> is_whitespace (last s)) \<Longrightarrow> trim s = s"
  unfolding trim_def by (auto simp: trim_start_id trim_end_id)

lemma trim_idem [simp]: "trim (trim s) = trim s"
  by (rule trim_id) (use trim_hd trim_last in blast)

lemma trim_eq_Nil_iff: "trim s = [] \<longleftrightarrow> (\<forall>c \<in> set s. is_whitespace c)"
proof
  assume t: "trim s = []"
  then have "trim_end (trim_start s) = []" by (simp add: trim_def)
  then have "\<forall>c \<in> set (trim_start s). is_whitespace c"
    by (simp add: trim_end_def)
  then have "trim_start s = []"
    using trim_start_hd [of s] by (cases "trim_start s") auto
  then show "\<forall>c \<in> set s. is_whitespace c" by (simp add: trim_start_def)
next
  assume "\<forall>c \<in> set s. is_whitespace c"
  then have "trim_start s = []" by (simp add: trim_start_def)
  then show "trim s = []" by (simp add: trim_def)
qed

lemma trim_end_eq_Nil_iff: "trim_end s = [] \<longleftrightarrow> (\<forall>c \<in> set s. is_whitespace c)"
  by (simp add: trim_end_def)

lemma trim_nonblank: "c \<in> set s \<Longrightarrow> \<not> is_whitespace c \<Longrightarrow> trim s \<noteq> []"
  by (auto simp: trim_eq_Nil_iff)

section \<open>Splitting and joining\<close>

text \<open>\<open>s.split(p)\<close> for a character predicate: one piece more than there are separators.\<close>

fun split_on :: "(uchar \<Rightarrow> bool) \<Rightarrow> ustr \<Rightarrow> ustr list" where
  "split_on p [] = [[]]"
| "split_on p (c # cs) =
     (if p c then [] # split_on p cs
      else (case split_on p cs of [] \<Rightarrow> [[c]] | w # ws \<Rightarrow> (c # w) # ws))"

text \<open>\<open>pieces.join(sep)\<close>.\<close>

fun str_join :: "ustr \<Rightarrow> ustr list \<Rightarrow> ustr" where
  "str_join sep [] = []"
| "str_join sep [w] = w"
| "str_join sep (w # v # ws) = w @ sep @ str_join sep (v # ws)"

lemma str_join_Cons: "ws \<noteq> [] \<Longrightarrow> str_join sep (w # ws) = w @ sep @ str_join sep ws"
  by (cases ws) auto

lemma split_on_neq_Nil [simp]: "split_on p s \<noteq> []"
  by (induction s) (auto split: list.splits)

lemma split_on_pieces: "w \<in> set (split_on p s) \<Longrightarrow> c \<in> set w \<Longrightarrow> \<not> p c"
proof (induction s arbitrary: w)
  case Nil
  then show ?case by simp
next
  case (Cons d s)
  show ?case
  proof (cases "p d")
    case True
    then show ?thesis using Cons by auto
  next
    case False
    obtain v vs where v: "split_on p s = v # vs" by (cases "split_on p s") auto
    have "w = d # v \<or> w \<in> set vs" using Cons.prems(1) False v by auto
    then show ?thesis using Cons.IH [of v] Cons.IH [of w] Cons.prems(2) False v by auto
  qed
qed

lemma split_on_none: "(\<forall>c \<in> set s. \<not> p c) \<Longrightarrow> split_on p s = [s]"
  by (induction s) auto

lemma split_on_append:
  "(\<forall>c \<in> set w. \<not> p c) \<Longrightarrow> p d \<Longrightarrow> split_on p (w @ d # s) = w # split_on p s"
  by (induction w) auto

lemma set_split_on: "w \<in> set (split_on p s) \<Longrightarrow> set w \<subseteq> set s"
proof (induction s arbitrary: w)
  case Nil
  then show ?case by simp
next
  case (Cons d s)
  show ?case
  proof (cases "p d")
    case True
    then show ?thesis using Cons by auto
  next
    case False
    obtain v vs where v: "split_on p s = v # vs" by (cases "split_on p s") auto
    have "w = d # v \<or> w \<in> set vs" using Cons.prems(1) False v by auto
    then show ?thesis using Cons.IH [of v] Cons.IH [of w] v by auto
  qed
qed

text \<open>Splitting at one character and joining with it gives the string back.\<close>

lemma join_split_char: "str_join [c] (split_on (\<lambda>d. d = c) s) = s"
proof (induction s)
  case Nil
  then show ?case by simp
next
  case (Cons d s)
  obtain w ws where w: "split_on (\<lambda>d. d = c) s = w # ws" by (cases "split_on (\<lambda>d. d = c) s") auto
  then show ?case using Cons by (cases ws) auto
qed

lemma split_join_char:
  "ws \<noteq> [] \<Longrightarrow> (\<forall>w \<in> set ws. c \<notin> set w) \<Longrightarrow> split_on (\<lambda>d. d = c) (str_join [c] ws) = ws"
proof (induction ws rule: list_nonempty_induct)
  case (single w)
  then show ?case by (auto intro: split_on_none)
next
  case (cons w ws)
  have "split_on (\<lambda>d. d = c) (w @ c # str_join [c] ws) = w # split_on (\<lambda>d. d = c) (str_join [c] ws)"
    by (rule split_on_append) (use cons.prems in auto)
  then show ?case using cons by (simp add: str_join_Cons)
qed

lemma length_split_on: "length (split_on p s) = Suc (length (filter p s))"
proof (induction s)
  case Nil
  then show ?case by simp
next
  case (Cons d s)
  then show ?case by (cases "split_on p s") auto
qed

text \<open>\<open>split_whitespace\<close> is \<open>split(char::is_whitespace)\<close> without the empty pieces, as in \<open>core\<close>.\<close>

definition split_whitespace :: "ustr \<Rightarrow> ustr list" where
  "split_whitespace s = filter (\<lambda>w. w \<noteq> []) (split_on is_whitespace s)"

lemma split_whitespace_words:
  "w \<in> set (split_whitespace s) \<Longrightarrow> w \<noteq> [] \<and> (\<forall>c \<in> set w. \<not> is_whitespace c)"
  by (auto simp: split_whitespace_def dest: split_on_pieces)

lemma split_whitespace_append:
  "(\<forall>c \<in> set w. \<not> is_whitespace c) \<Longrightarrow> w \<noteq> [] \<Longrightarrow> is_whitespace d
     \<Longrightarrow> split_whitespace (w @ d # s) = w # split_whitespace s"
  by (simp add: split_whitespace_def split_on_append)

text \<open>Joining words with single spaces and splitting again gives the same words.\<close>

lemma split_whitespace_join:
  "(\<forall>w \<in> set ws. w \<noteq> [] \<and> (\<forall>c \<in> set w. \<not> is_whitespace c))
     \<Longrightarrow> split_whitespace (str_join [space] ws) = ws"
proof (induction ws)
  case Nil
  then show ?case by (simp add: split_whitespace_def)
next
  case (Cons w ws)
  show ?case
  proof (cases ws)
    case Nil
    then show ?thesis using Cons.prems by (simp add: split_whitespace_def split_on_none)
  next
    case (Cons v vs)
    then have "str_join [space] (w # ws) = w @ space # str_join [space] ws" by simp
    then show ?thesis using Cons.IH Cons.prems
      by (simp only:) (subst split_whitespace_append, auto)
  qed
qed

text \<open>\<open>split_whitespace().collect::<Vec<_>>().join(" ")\<close>, used in three places of the engine.\<close>

definition collapse_whitespace :: "ustr \<Rightarrow> ustr" where
  "collapse_whitespace s = str_join [space] (split_whitespace s)"

lemma split_whitespace_collapse [simp]:
  "split_whitespace (collapse_whitespace s) = split_whitespace s"
  unfolding collapse_whitespace_def
  by (rule split_whitespace_join) (use split_whitespace_words in blast)

lemma collapse_whitespace_idem [simp]:
  "collapse_whitespace (collapse_whitespace s) = collapse_whitespace s"
  by (metis collapse_whitespace_def split_whitespace_collapse)

lemma str_join_ends:
  "ws \<noteq> [] \<Longrightarrow> (\<forall>w \<in> set ws. w \<noteq> []) \<Longrightarrow>
     str_join sep ws \<noteq> [] \<and> hd (str_join sep ws) = hd (hd ws)
       \<and> last (str_join sep ws) = last (last ws)"
proof (induction ws rule: list_nonempty_induct)
  case (single w)
  then show ?case by simp
next
  case (cons w ws)
  then show ?case by (auto simp: str_join_Cons hd_append)
qed

lemma collapse_whitespace_eq_Nil: "collapse_whitespace s = [] \<longleftrightarrow> split_whitespace s = []"
proof
  assume "collapse_whitespace s = []"
  then show "split_whitespace s = []"
    using str_join_ends [of "split_whitespace s" "[space]"] split_whitespace_words [of _ s]
    by (auto simp: collapse_whitespace_def)
qed (simp add: collapse_whitespace_def)

lemma trim_collapse [simp]: "trim (collapse_whitespace s) = collapse_whitespace s"
proof (rule trim_id, cases "split_whitespace s = []")
  case True
  then show "collapse_whitespace s = [] \<or> \<not> is_whitespace (hd (collapse_whitespace s))
    \<and> \<not> is_whitespace (last (collapse_whitespace s))"
    by (simp add: collapse_whitespace_def)
next
  case False
  let ?ws = "split_whitespace s"
  have h: "hd ?ws \<in> set ?ws" "last ?ws \<in> set ?ws" using False by auto
  then have "\<not> is_whitespace (hd (hd ?ws))" "\<not> is_whitespace (last (last ?ws))"
    using split_whitespace_words [OF h(1)] split_whitespace_words [OF h(2)] by auto
  moreover have "hd (collapse_whitespace s) = hd (hd ?ws)"
    "last (collapse_whitespace s) = last (last ?ws)"
    using str_join_ends [OF False, of "[space]"] split_whitespace_words
    by (auto simp: collapse_whitespace_def)
  ultimately show "collapse_whitespace s = [] \<or> \<not> is_whitespace (hd (collapse_whitespace s))
    \<and> \<not> is_whitespace (last (collapse_whitespace s))" by simp
qed

lemma split_whitespace_Nil_iff: "split_whitespace s = [] \<longleftrightarrow> (\<forall>c \<in> set s. is_whitespace c)"
proof (induction s)
  case Nil
  then show ?case by (simp add: split_whitespace_def)
next
  case (Cons d s)
  then show ?case
    by (cases "split_on is_whitespace s") (auto simp: split_whitespace_def)
qed

section \<open>Searching\<close>

text \<open>\<open>h.find(n)\<close> for a string pattern: the position of the first occurrence.\<close>

fun str_find :: "ustr \<Rightarrow> ustr \<Rightarrow> nat option" where
  "str_find n [] = (if n = [] then Some 0 else None)"
| "str_find n (c # h) = (if prefix n (c # h) then Some 0 else map_option Suc (str_find n h))"

text \<open>\<open>h.contains(n)\<close>.\<close>

definition str_contains :: "ustr \<Rightarrow> ustr \<Rightarrow> bool" where
  "str_contains h n = (str_find n h \<noteq> None)"

lemma str_find_None_iff: "str_find n h = None \<longleftrightarrow> \<not> sublist n h"
proof (induction h)
  case Nil
  then show ?case by simp
next
  case (Cons c h)
  then show ?case by (auto simp: sublist_Cons_right)
qed

lemma str_contains_iff: "str_contains h n \<longleftrightarrow> sublist n h"
  by (simp add: str_contains_def str_find_None_iff)

lemma str_find_Some:
  "str_find n h = Some i \<Longrightarrow> i + length n \<le> length h \<and> take (length n) (drop i h) = n"
proof (induction h arbitrary: i)
  case Nil
  then show ?case by (auto split: if_splits)
next
  case (Cons c h)
  show ?case
  proof (cases "prefix n (c # h)")
    case True
    then show ?thesis using Cons.prems prefix_length_le [OF True] by (auto simp: prefix_def)
  next
    case False
    then show ?thesis using Cons by auto
  qed
qed

text \<open>\<open>find(c)\<close> and \<open>rfind(c)\<close> for a character.\<close>

fun find_char :: "uchar \<Rightarrow> ustr \<Rightarrow> nat option" where
  "find_char c [] = None"
| "find_char c (d # s) = (if d = c then Some 0 else map_option Suc (find_char c s))"

fun rfind_char :: "uchar \<Rightarrow> ustr \<Rightarrow> nat option" where
  "rfind_char c [] = None"
| "rfind_char c (d # s) =
     (case rfind_char c s of Some i \<Rightarrow> Some (Suc i) | None \<Rightarrow> if d = c then Some 0 else None)"

lemma find_char_Some: "find_char c s = Some i \<Longrightarrow> i < length s \<and> s ! i = c \<and> c \<notin> set (take i s)"
  by (induction s arbitrary: i) (auto split: if_splits)

lemma find_char_None: "find_char c s = None \<longleftrightarrow> c \<notin> set s"
  by (induction s) auto

lemma rfind_char_None: "rfind_char c s = None \<longleftrightarrow> c \<notin> set s"
  by (induction s) (auto split: option.splits)

lemma rfind_char_Some:
  "rfind_char c s = Some i \<Longrightarrow> i < length s \<and> s ! i = c \<and> c \<notin> set (drop (Suc i) s)"
proof (induction s arbitrary: i)
  case Nil
  then show ?case by simp
next
  case (Cons d s)
  then show ?case by (auto split: option.splits if_splits simp: rfind_char_None)
qed

text \<open>\<open>s.replace(c, t)\<close> for a character pattern.\<close>

definition str_replace :: "uchar \<Rightarrow> ustr \<Rightarrow> ustr \<Rightarrow> ustr" where
  "str_replace c t s = concat (map (\<lambda>d. if d = c then t else [d]) s)"

lemma set_str_replace: "set (str_replace c t s) \<subseteq> (set s - {c}) \<union> set t"
  by (auto simp: str_replace_def)

lemma str_replace_append [simp]: "str_replace c t (s @ s') = str_replace c t s @ str_replace c t s'"
  by (simp add: str_replace_def)

section \<open>ASCII case\<close>

definition to_ascii_lowercase_char :: "uchar \<Rightarrow> uchar" where
  "to_ascii_lowercase_char c = (if 65 \<le> c \<and> c \<le> 90 then c + 32 else c)"

definition to_ascii_lowercase :: "ustr \<Rightarrow> ustr" where
  "to_ascii_lowercase s = map to_ascii_lowercase_char s"

definition eq_ignore_ascii_case :: "ustr \<Rightarrow> ustr \<Rightarrow> bool" where
  "eq_ignore_ascii_case a b = (to_ascii_lowercase a = to_ascii_lowercase b)"

lemma to_ascii_lowercase_idem [simp]:
  "to_ascii_lowercase (to_ascii_lowercase s) = to_ascii_lowercase s"
  by (auto simp: to_ascii_lowercase_def to_ascii_lowercase_char_def)

section \<open>The Unicode tables\<close>

record unicode =
  is_alphanumeric :: "uchar \<Rightarrow> bool"
  to_lowercase :: "ustr \<Rightarrow> ustr"

text \<open>The tables restricted to ASCII, on which they are known: the instance of the witnesses.\<close>

definition ascii_unicode :: unicode where
  "ascii_unicode = \<lparr>
     is_alphanumeric = (\<lambda>c. (48 \<le> c \<and> c \<le> 57) \<or> (65 \<le> c \<and> c \<le> 90) \<or> (97 \<le> c \<and> c \<le> 122)),
     to_lowercase = to_ascii_lowercase \<rparr>"

section \<open>Decimal numbers\<close>

text \<open>\<open>format!("{n}")\<close> for an unsigned integer.\<close>

fun show_nat :: "nat \<Rightarrow> ustr" where
  "show_nat n = (if n < 10 then [48 + n] else show_nat (n div 10) @ [48 + n mod 10])"

declare show_nat.simps [simp del]

lemma show_nat_neq_Nil [simp]: "show_nat n \<noteq> []"
  by (subst show_nat.simps) simp

lemma show_nat_digits: "c \<in> set (show_nat n) \<Longrightarrow> 48 \<le> c \<and> c \<le> 57"
proof (induction n rule: show_nat.induct)
  case (1 n)
  show ?case
  proof (cases "n < 10")
    case True
    then show ?thesis using "1.prems" by (simp add: show_nat.simps [of n])
  next
    case False
    then show ?thesis using 1 by (auto simp: show_nat.simps [of n])
  qed
qed

text \<open>Reading the digits back: the decimal form of a number determines it.\<close>

definition read_nat :: "ustr \<Rightarrow> nat" where
  "read_nat s = foldl (\<lambda>n c. 10 * n + (c - 48)) 0 s"

lemma read_show_nat [simp]: "read_nat (show_nat n) = n"
proof (induction n rule: show_nat.induct)
  case (1 n)
  show ?case
  proof (cases "n < 10")
    case True
    then show ?thesis by (simp add: show_nat.simps [of n] read_nat_def)
  next
    case False
    then have "read_nat (show_nat (n div 10)) = n div 10" using 1 by simp
    then show ?thesis using False by (simp add: show_nat.simps [of n] read_nat_def)
  qed
qed

lemma show_nat_inj [simp]: "show_nat m = show_nat n \<longleftrightarrow> m = n"
  by (metis read_show_nat)

end
