(* ===== verification/Rust_Float.thy ===== *)
theory Rust_Float
  imports Prelude Complex_Main
begin

text \<open>
  The doubles the engine stores as timestamps and confidences. They are only compared, maximised
  and copied, never computed with, so a finite double is its rational value; the two zeros, which
  compare equal, are one value. \<open>partial_cmp\<close> is undefined on NaN and \<open>f64::max\<close> returns the other
  operand when one is NaN, as the standard library documents.
\<close>

datatype f64 = NaN | NegInf | Finite rat | PosInf

definition f64_zero :: f64 where
  "f64_zero = Finite 0"

fun f64_lt :: "f64 \<Rightarrow> f64 \<Rightarrow> bool" where
  "f64_lt (Finite a) (Finite b) = (a < b)"
| "f64_lt NegInf b = (b \<noteq> NaN \<and> b \<noteq> NegInf)"
| "f64_lt a PosInf = (a \<noteq> NaN \<and> a \<noteq> PosInf)"
| "f64_lt _ _ = False"

definition partial_cmp :: "f64 \<Rightarrow> f64 \<Rightarrow> ordering option" where
  "partial_cmp a b =
     (if a = NaN \<or> b = NaN then None
      else if f64_lt a b then Some Less
      else if f64_lt b a then Some Greater
      else Some Equal)"

definition f64_max :: "f64 \<Rightarrow> f64 \<Rightarrow> f64" where
  "f64_max a b = (if a = NaN then b else if b = NaN then a else if f64_lt a b then b else a)"

text \<open>\<open>a <= b\<close>: false when either side is NaN.\<close>

definition f64_le :: "f64 \<Rightarrow> f64 \<Rightarrow> bool" where
  "f64_le a b \<longleftrightarrow> a \<noteq> NaN \<and> b \<noteq> NaN \<and> \<not> f64_lt b a"

text \<open>\<open>partial_cmp(..).unwrap_or(Ordering::Equal)\<close>, the comparison of all the engine's sorts.\<close>

definition cmp_or_equal :: "f64 \<Rightarrow> f64 \<Rightarrow> ordering" where
  "cmp_or_equal a b = (case partial_cmp a b of Some r \<Rightarrow> r | None \<Rightarrow> Equal)"

lemma f64_lt_irrefl [simp]: "\<not> f64_lt a a"
  by (cases a) auto

lemma f64_lt_asym: "f64_lt a b \<Longrightarrow> \<not> f64_lt b a"
  by (cases a; cases b) auto

lemma f64_lt_NaN [simp]: "\<not> f64_lt NaN b" "\<not> f64_lt a NaN"
  by (cases b; simp) (cases a; simp)

lemma f64_le_trans: "f64_le a b \<Longrightarrow> f64_le b c \<Longrightarrow> f64_le a c"
  unfolding f64_le_def by (cases a; cases b; cases c) auto

lemma f64_le_refl: "a \<noteq> NaN \<Longrightarrow> f64_le a a"
  by (simp add: f64_le_def)

lemma f64_le_total: "a \<noteq> NaN \<Longrightarrow> b \<noteq> NaN \<Longrightarrow> f64_le a b \<or> f64_le b a"
  unfolding f64_le_def by (cases a; cases b) auto

lemma cmp_or_equal_iff:
  "a \<noteq> NaN \<Longrightarrow> b \<noteq> NaN \<Longrightarrow> cmp_or_equal a b \<noteq> Greater \<longleftrightarrow> f64_le a b"
  by (auto simp: cmp_or_equal_def partial_cmp_def f64_le_def dest: f64_lt_asym)

lemma cmp_or_equal_anti:
  "a \<noteq> NaN \<Longrightarrow> b \<noteq> NaN \<Longrightarrow> cmp_or_equal a b = Greater \<longleftrightarrow> cmp_or_equal b a = Less"
  by (auto simp: cmp_or_equal_def partial_cmp_def dest: f64_lt_asym)

lemma f64_max_not_NaN: "b \<noteq> NaN \<Longrightarrow> f64_max a b \<noteq> NaN"
  by (auto simp: f64_max_def)

lemma f64_max_ge: "b \<noteq> NaN \<Longrightarrow> f64_le b (f64_max a b)"
  by (auto simp: f64_max_def f64_le_def dest: f64_lt_asym)

lemma f64_max_absorb: "f64_le b a \<Longrightarrow> f64_max a b = a"
  by (auto simp: f64_max_def f64_le_def)

text \<open>
  The comparison is a total preorder on the elements whose key is not NaN, whatever the key.
  Interpreted by the sorts that use it.
\<close>

lemma cmp_order_key:
  "cmp_order (\<lambda>a b. cmp_or_equal (key a) (key b)) (\<lambda>a. key a \<noteq> NaN)"
proof
  fix x y assume "key x \<noteq> NaN" "key y \<noteq> NaN"
  then show "cmp_or_equal (key x) (key y) = Greater \<longleftrightarrow> cmp_or_equal (key y) (key x) = Less"
    by (rule cmp_or_equal_anti)
next
  fix x y z
  assume "key x \<noteq> NaN" "key y \<noteq> NaN" "key z \<noteq> NaN"
    "cmp_or_equal (key x) (key y) \<noteq> Greater" "cmp_or_equal (key y) (key z) \<noteq> Greater"
  then show "cmp_or_equal (key x) (key z) \<noteq> Greater"
    using f64_le_trans by (simp add: cmp_or_equal_iff)
qed

end
