(* ===== verification/Domain.thy ===== *)
theory Domain
  imports Rust_Str Rust_Float
begin

text \<open>
  The domain types of the engine (\<open>engine/src/domain\<close>): the transcript, the Meeting IR and its items
  with their evidence, meetings and the durable processing status, and the retrieval types. Field
  names carry a prefix per record since several structs share names such as \<open>evidence\<close>.
  A \<open>DateTime<Utc>\<close> is its instant; the RFC 3339 text the database stores orders as the instants do.
\<close>

type_synonym timestamp = int

datatype meeting_id = MeetingId (meeting_id_str: ustr)

record participant =
  pt_id :: ustr
  pt_display_name :: "ustr option"

definition participant_new :: "ustr \<Rightarrow> participant" where
  "participant_new i = \<lparr> pt_id = i, pt_display_name = None \<rparr>"

record evidence =
  ev_quote :: ustr
  ev_speaker_id :: "ustr option"
  ev_start :: "f64 option"
  ev_end :: "f64 option"
  ev_chunk_id :: "ustr option"

record topic =
  tp_title :: ustr
  tp_summary :: "ustr option"
  tp_evidence :: "evidence list"
  tp_confidence :: "f64 option"

record decision =
  dc_decision :: ustr
  dc_context :: "ustr option"
  dc_evidence :: "evidence list"
  dc_confidence :: "f64 option"

datatype action_status = ActionOpen | ActionInProgress | ActionDone | ActionCancelled

record action_item =
  ai_description :: ustr
  ai_owner :: "ustr option"
  ai_deadline :: "ustr option"
  ai_status :: action_status
  ai_evidence :: "evidence list"
  ai_confidence :: "f64 option"

record open_question =
  oq_question :: ustr
  oq_context :: "ustr option"
  oq_evidence :: "evidence list"
  oq_confidence :: "f64 option"

record risk =
  rk_description :: ustr
  rk_severity :: "ustr option"
  rk_evidence :: "evidence list"
  rk_confidence :: "f64 option"

record meeting_ir =
  ir_summary :: ustr
  ir_participants :: "participant list"
  ir_topics :: "topic list"
  ir_decisions :: "decision list"
  ir_action_items :: "action_item list"
  ir_open_questions :: "open_question list"
  ir_risks :: "risk list"

text \<open>\<open>MeetingIr::default()\<close>.\<close>

definition meeting_ir_default :: meeting_ir where
  "meeting_ir_default = \<lparr> ir_summary = [], ir_participants = [], ir_topics = [],
     ir_decisions = [], ir_action_items = [], ir_open_questions = [], ir_risks = [] \<rparr>"

record transcript_segment =
  sg_speaker_id :: "ustr option"
  sg_start :: f64
  sg_end :: f64
  sg_text :: ustr
  sg_language :: "ustr option"
  sg_confidence :: "f64 option"

record transcript =
  tr_segments :: "transcript_segment list"

text \<open>\<open>Transcript::speaker_ids\<close>: the loop over the segments with its \<open>seen\<close> vector.\<close>

fun speaker_ids_loop :: "ustr list \<Rightarrow> transcript_segment list \<Rightarrow> ustr list" where
  "speaker_ids_loop seen [] = seen"
| "speaker_ids_loop seen (seg # segs) =
     (case sg_speaker_id seg of
        Some i \<Rightarrow> speaker_ids_loop (if i \<in> set seen then seen else seen @ [i]) segs
      | None \<Rightarrow> speaker_ids_loop seen segs)"

definition speaker_ids :: "transcript \<Rightarrow> ustr list" where
  "speaker_ids t = speaker_ids_loop [] (tr_segments t)"

lemma speaker_ids_loop_set:
  "set (speaker_ids_loop seen segs) = set seen \<union> {i. \<exists>s \<in> set segs. sg_speaker_id s = Some i}"
  by (induction segs arbitrary: seen) (auto split: option.splits)

lemma speaker_ids_loop_distinct: "distinct seen \<Longrightarrow> distinct (speaker_ids_loop seen segs)"
  by (induction segs arbitrary: seen) (auto split: option.splits)

lemma set_speaker_ids:
  "set (speaker_ids t) = {i. \<exists>s \<in> set (tr_segments t). sg_speaker_id s = Some i}"
  by (simp add: speaker_ids_def speaker_ids_loop_set)

lemma distinct_speaker_ids: "distinct (speaker_ids t)"
  by (simp add: speaker_ids_def speaker_ids_loop_distinct)

text \<open>One \<open>speaker: text\<close> line, as \<open>to_prompt_text\<close> and \<open>segments_to_text\<close> push it.\<close>

definition segment_line :: "transcript_segment \<Rightarrow> ustr" where
  "segment_line seg = (case sg_speaker_id seg of Some i \<Rightarrow> i | None \<Rightarrow> lit ''Unknown'')
     @ lit '': '' @ trim (sg_text seg) @ [nl]"

definition to_prompt_text :: "transcript \<Rightarrow> ustr" where
  "to_prompt_text t = concat (map segment_line (tr_segments t))"

section \<open>Meetings and their processing status\<close>

record meeting =
  mt_id :: meeting_id
  mt_title :: ustr
  mt_created_at :: timestamp
  mt_occurred_at :: "timestamp option"
  mt_participants :: "participant list"
  mt_duration_seconds :: "f64 option"

text \<open>\<open>Meeting::new\<close>, with the random id and the current time as arguments.\<close>

definition meeting_new :: "meeting_id \<Rightarrow> timestamp \<Rightarrow> ustr \<Rightarrow> meeting" where
  "meeting_new i now title = \<lparr> mt_id = i, mt_title = title, mt_created_at = now,
     mt_occurred_at = None, mt_participants = [], mt_duration_seconds = None \<rparr>"

datatype processing_state = Processing | Ready | Deferred | Failed

datatype failure_kind = Temporary | Permanent

record processing_status =
  ps_state :: processing_state
  ps_failure_kind :: "failure_kind option"
  ps_error :: "ustr option"
  ps_updated_at :: timestamp

text \<open>\<open>ProcessingStatus::at\<close> and its callers, with the current time as an argument.\<close>

definition status_at :: "timestamp \<Rightarrow> processing_state \<Rightarrow> failure_kind option \<Rightarrow> ustr option
    \<Rightarrow> processing_status" where
  "status_at now st fk err =
     \<lparr> ps_state = st, ps_failure_kind = fk, ps_error = err, ps_updated_at = now \<rparr>"

definition status_processing :: "timestamp \<Rightarrow> processing_status" where
  "status_processing now = status_at now Processing None None"

definition status_ready :: "timestamp \<Rightarrow> processing_status" where
  "status_ready now = status_at now Ready None None"

definition status_deferred :: "timestamp \<Rightarrow> ustr \<Rightarrow> processing_status" where
  "status_deferred now err = status_at now Deferred (Some Temporary) (Some err)"

definition status_failed :: "timestamp \<Rightarrow> ustr \<Rightarrow> processing_status" where
  "status_failed now err = status_at now Failed (Some Permanent) (Some err)"

lemmas status_defs = status_at_def status_processing_def status_ready_def status_deferred_def
  status_failed_def

definition is_retryable :: "processing_status \<Rightarrow> bool" where
  "is_retryable s \<longleftrightarrow> ps_state s = Deferred
     \<or> (ps_state s = Failed \<and> ps_failure_kind s = Some Temporary)"

lemma is_retryable_simps [simp]:
  "\<not> is_retryable (status_processing now)" "\<not> is_retryable (status_ready now)"
  "is_retryable (status_deferred now e)" "\<not> is_retryable (status_failed now e)"
  by (simp_all add: is_retryable_def status_defs)

record meeting_summary =
  ms_meeting :: meeting
  ms_status :: "processing_status option"

section \<open>Retrieval types\<close>

record search_hit =
  sh_path :: ustr
  sh_title :: ustr
  sh_start_line :: nat
  sh_end_line :: nat
  sh_snippet :: ustr

record citation =
  ct_path :: ustr
  ct_start_line :: nat
  ct_end_line :: nat
  ct_snippet :: ustr

text \<open>\<open>impl From<SearchHit> for Citation\<close>.\<close>

definition citation_from_hit :: "search_hit \<Rightarrow> citation" where
  "citation_from_hit h = \<lparr> ct_path = sh_path h, ct_start_line = sh_start_line h,
     ct_end_line = sh_end_line h, ct_snippet = sh_snippet h \<rparr>"

record ask_answer =
  an_text :: ustr
  an_files_read :: "ustr list"
  an_citations :: "citation list"

end
