(* ===== verification/Preprocess.thy ===== *)
theory Preprocess
  imports Domain
begin

text \<open>
  Deterministic transcript preparation (\<open>engine/src/preprocess\<close>): normalisation of the raw
  transcript and its segment-aware chunking. The chunking loop over indices is refined to the
  greedy grouping of the prelude, which carries its partition, budget and maximality laws; the
  normalisation's sort is an interpretation of the comparison law \<open>cmp_order\<close>.
\<close>

section \<open>Chunks\<close>

record chunking_config =
  max_chars :: nat
  context_chars :: nat

definition chunking_config_default :: chunking_config where
  "chunking_config_default = \<lparr> max_chars = 6000, context_chars = 400 \<rparr>"

record chunk =
  ck_id :: ustr
  ck_index :: nat
  ck_segment_start :: nat
  ck_segment_end :: nat
  ck_start :: f64
  ck_end :: f64
  ck_text :: ustr
  ck_segments :: "transcript_segment list"
  ck_preceding_context :: "ustr option"
  ck_following_context :: "ustr option"

definition prompt_text :: "chunk \<Rightarrow> ustr" where
  "prompt_text c =
     (case ck_preceding_context c of None \<Rightarrow> []
      | Some before \<Rightarrow> lit ''[...earlier context...]'' @ [nl] @ before @ [nl] @ lit ''[...]'' @ [nl])
     @ ck_text c
     @ (case ck_following_context c of None \<Rightarrow> []
        | Some after \<Rightarrow> [nl] @ lit ''[...]'' @ [nl] @ after @ [nl] @ lit ''[...later context...]'')"

definition segments_to_text :: "transcript_segment list \<Rightarrow> ustr" where
  "segments_to_text segs = trim_end (concat (map segment_line segs))"

text \<open>Last and first \<open>n\<close> characters; positions are those \<open>char_indices\<close> yields.\<close>

definition tail :: "ustr \<Rightarrow> nat \<Rightarrow> ustr" where
  "tail s n =
     (if length s \<le> n then s
      else let idxs = take n (rev [0..<length s]);
               start = (if idxs = [] then 0 else last idxs)
           in drop start s)"

definition head :: "ustr \<Rightarrow> nat \<Rightarrow> ustr" where
  "head s n = (if n < length s then take n s else s)"

text \<open>\<open>segments[s..e]\<close>.\<close>

definition subslice :: "'a list \<Rightarrow> nat \<Rightarrow> nat \<Rightarrow> 'a list" where
  "subslice xs s e = take (e - s) (drop s xs)"

text \<open>The first pass: the loop with its running \<open>i\<close>, \<open>range_start\<close> and \<open>current_len\<close>.\<close>

definition segment_weight :: "transcript_segment \<Rightarrow> nat" where
  "segment_weight seg = str_len (trim (sg_text seg)) + 1"

fun ranges_loop :: "nat \<Rightarrow> nat \<Rightarrow> nat \<Rightarrow> nat \<Rightarrow> transcript_segment list \<Rightarrow> (nat \<times> nat) list" where
  "ranges_loop limit i range_start current_len [] = [(range_start, i)]"
| "ranges_loop limit i range_start current_len (seg # segs) =
     (let seg_len = segment_weight seg
      in if i \<noteq> range_start \<and> current_len + seg_len > limit
         then (range_start, i) # ranges_loop limit (i + 1) i seg_len segs
         else ranges_loop limit (i + 1) range_start (current_len + seg_len) segs)"

text \<open>The second pass: one chunk per range, then the neighbouring context.\<close>

definition make_chunk :: "transcript_segment list \<Rightarrow> nat \<times> (nat \<times> nat) \<Rightarrow> chunk" where
  "make_chunk segments ir = (case ir of (index, s, e) \<Rightarrow>
     let part = subslice segments s e in
     \<lparr> ck_id = lit ''chunk-'' @ show_nat index, ck_index = index,
       ck_segment_start = s, ck_segment_end = e,
       ck_start = (case part of [] \<Rightarrow> f64_zero | x # _ \<Rightarrow> sg_start x),
       ck_end = (if part = [] then f64_zero else sg_end (last part)),
       ck_text = segments_to_text part, ck_segments = part,
       ck_preceding_context = None, ck_following_context = None \<rparr>)"

definition attach_context :: "nat \<Rightarrow> ustr list \<Rightarrow> nat \<times> chunk \<Rightarrow> chunk" where
  "attach_context n texts ic = (case ic of (i, c) \<Rightarrow>
     let c1 = (if i > 0 then c\<lparr>ck_preceding_context := Some (tail (texts ! (i - 1)) n)\<rparr> else c)
     in (if i + 1 < length texts
         then c1\<lparr>ck_following_context := Some (head (texts ! (i + 1)) n)\<rparr> else c1))"

definition chunk_segments :: "transcript_segment list \<Rightarrow> chunking_config \<Rightarrow> chunk list" where
  "chunk_segments segments config =
     (if segments = [] then []
      else let limit = max (max_chars config) 1;
               ranges = ranges_loop limit 0 0 0 segments;
               chunks = map (make_chunk segments) (enumerate 0 ranges)
           in if context_chars config > 0
              then map (attach_context (context_chars config) (map ck_text chunks))
                     (enumerate 0 chunks)
              else chunks)"

section \<open>Normalisation\<close>

definition normalize_segment :: "transcript_segment \<Rightarrow> transcript_segment option" where
  "normalize_segment seg =
     (let text = collapse_whitespace (sg_text seg) in
      if text = [] then None
      else let start = f64_max (sg_start seg) f64_zero;
               fin = f64_max (sg_end seg) start
           in Some \<lparr> sg_speaker_id = sg_speaker_id seg, sg_start = start, sg_end = fin,
                sg_text = text, sg_language = sg_language seg,
                sg_confidence = sg_confidence seg \<rparr>)"

definition cmp_start :: "transcript_segment \<Rightarrow> transcript_segment \<Rightarrow> ordering" where
  "cmp_start a b = cmp_or_equal (sg_start a) (sg_start b)"

definition normalize :: "transcript \<Rightarrow> transcript" where
  "normalize raw = \<lparr> tr_segments =
     sort_by cmp_start (List.map_filter normalize_segment (tr_segments raw)) \<rparr>"

record prepared_transcript =
  pr_raw :: transcript
  pr_normalized :: transcript
  pr_chunks :: "chunk list"

definition prepare :: "transcript \<Rightarrow> chunking_config \<Rightarrow> prepared_transcript" where
  "prepare raw config =
     (let normalized = normalize raw
      in \<lparr> pr_raw = raw, pr_normalized = normalized,
           pr_chunks = chunk_segments (tr_segments normalized) config \<rparr>)"

section \<open>The chunking loop refines the greedy grouping\<close>

lemma ranges_loop_greedy:
  assumes "segments = pre @ cur @ rest" "length pre = rs" "i = rs + length cur"
    "cur \<noteq> [] \<or> rest \<noteq> []"
  shows "map (\<lambda>(s, e). subslice segments s e) (ranges_loop limit i rs w rest)
    = greedy segment_weight limit cur w rest"
  using assms
proof (induction rest arbitrary: pre cur rs i w)
  case Nil
  then show ?case by (auto simp: subslice_def)
next
  case (Cons x rest)
  let ?sl = "\<lambda>(s, e). subslice segments s e"
  have "map ?sl (ranges_loop limit (i + 1) i (segment_weight x) rest)
      = greedy segment_weight limit [x] (segment_weight x) rest"
    by (rule Cons.IH [of "pre @ cur"]) (use Cons.prems in auto)
  moreover have "map ?sl (ranges_loop limit (i + 1) rs (w + segment_weight x) rest)
      = greedy segment_weight limit (cur @ [x]) (w + segment_weight x) rest"
    by (rule Cons.IH [of pre]) (use Cons.prems in auto)
  moreover have "subslice segments rs i = cur"
    using Cons.prems by (simp add: subslice_def)
  ultimately show ?case using Cons.prems(3) by (cases "cur = []") (simp_all add: Let_def)
qed

lemma ranges_loop_slices:
  "segments \<noteq> [] \<Longrightarrow> map (\<lambda>(s, e). subslice segments s e) (ranges_loop limit 0 0 0 segments)
     = greedy_groups segment_weight limit segments"
  unfolding greedy_groups_def by (rule ranges_loop_greedy [where pre = "[]"]) auto

text \<open>Consecutive ranges that tile \<open>a..b\<close> without gaps, overlaps or empty parts.\<close>

fun tiles :: "nat \<Rightarrow> nat \<Rightarrow> (nat \<times> nat) list \<Rightarrow> bool" where
  "tiles a b [] = (a = b)"
| "tiles a b ((s, e) # rs) = (s = a \<and> s < e \<and> tiles e b rs)"

lemma ranges_loop_tiles:
  "rs \<le> i \<Longrightarrow> (i = rs \<longrightarrow> segs \<noteq> []) \<Longrightarrow> tiles rs (i + length segs) (ranges_loop limit i rs w segs)"
proof (induction segs arbitrary: i rs w)
  case Nil
  then show ?case by auto
next
  case (Cons x segs)
  have "tiles i (i + 1 + length segs) (ranges_loop limit (i + 1) i (segment_weight x) segs)"
    by (rule Cons.IH) auto
  moreover have "tiles rs (i + 1 + length segs)
      (ranges_loop limit (i + 1) rs (w + segment_weight x) segs)"
    by (rule Cons.IH) (use Cons.prems in auto)
  ultimately show ?case using Cons.prems by (simp add: Let_def)
qed

lemma attach_context_fields [simp]:
  "ck_id (attach_context n texts (i, c)) = ck_id c"
  "ck_index (attach_context n texts (i, c)) = ck_index c"
  "ck_segment_start (attach_context n texts (i, c)) = ck_segment_start c"
  "ck_segment_end (attach_context n texts (i, c)) = ck_segment_end c"
  "ck_start (attach_context n texts (i, c)) = ck_start c"
  "ck_end (attach_context n texts (i, c)) = ck_end c"
  "ck_text (attach_context n texts (i, c)) = ck_text c"
  "ck_segments (attach_context n texts (i, c)) = ck_segments c"
  by (simp_all add: attach_context_def Let_def)

text \<open>Attaching context leaves every other field of every chunk alone.\<close>

lemma map_enumerate_attach:
  "(\<And>i c. f (attach_context n texts (i, c)) = f c) \<Longrightarrow>
     map f (map (attach_context n texts) (enumerate k cs)) = map f cs"
  by (induction cs arbitrary: k) (auto simp: comp_def)

definition base_chunks :: "transcript_segment list \<Rightarrow> nat \<Rightarrow> chunk list" where
  "base_chunks segments limit =
     map (make_chunk segments) (enumerate 0 (ranges_loop limit 0 0 0 segments))"

lemma chunk_segments_map:
  assumes "\<And>n texts i c. f (attach_context n texts (i, c)) = f c"
  shows "map f (chunk_segments segments config) =
    (if segments = [] then [] else map f (base_chunks segments (max (max_chars config) 1)))"
  using map_enumerate_attach [of f, OF assms]
  by (simp add: chunk_segments_def base_chunks_def Let_def del: map_map)

lemma map_make_chunk:
  "(\<And>i s e. f (make_chunk segments (i, s, e)) = g s e) \<Longrightarrow>
     map f (map (make_chunk segments) (enumerate k rs)) = map (\<lambda>(s, e). g s e) rs"
  by (induction rs arbitrary: k) auto

lemma chunk_ranges:
  "map (\<lambda>c. (ck_segment_start c, ck_segment_end c)) (chunk_segments segments config) =
    (if segments = [] then [] else ranges_loop (max (max_chars config) 1) 0 0 0 segments)"
  (is "map ?f _ = _")
proof -
  have "map ?f (base_chunks segments l) = ranges_loop l 0 0 0 segments" for l
    unfolding base_chunks_def
    by (subst map_make_chunk [where g = Pair]) (auto simp: make_chunk_def Let_def)
  then show ?thesis by (subst chunk_segments_map) auto
qed

lemma map_ck_segments:
  "map ck_segments (chunk_segments segments config) =
    greedy_groups segment_weight (max (max_chars config) 1) segments"
proof (cases "segments = []")
  case True
  then show ?thesis by (simp add: chunk_segments_def)
next
  case False
  have "map ck_segments (base_chunks segments l)
      = map (\<lambda>(s, e). subslice segments s e) (ranges_loop l 0 0 0 segments)" for l
    unfolding base_chunks_def by (rule map_make_chunk) (auto simp: make_chunk_def Let_def)
  then show ?thesis using False by (subst chunk_segments_map) (auto simp: ranges_loop_slices)
qed

lemma map_ck_text:
  "map ck_text (chunk_segments segments config) =
    map segments_to_text (map ck_segments (chunk_segments segments config))"
proof -
  have "\<forall>c \<in> set (base_chunks segments l). ck_text c = segments_to_text (ck_segments c)" for l
    by (auto simp: base_chunks_def make_chunk_def Let_def)
  then have "map ck_text (base_chunks segments l)
      = map segments_to_text (map ck_segments (base_chunks segments l))" for l
    by simp
  then show ?thesis by (simp only: chunk_segments_map attach_context_fields split: if_splits) simp
qed

lemma map_ck_id:
  "map ck_id (chunk_segments segments config) =
    map (\<lambda>i. lit ''chunk-'' @ show_nat i) [0..<length (chunk_segments segments config)]"
proof -
  have *: "map ck_id (map (make_chunk segments) (enumerate k rs))
      = map (\<lambda>i. lit ''chunk-'' @ show_nat i) [k..<k + length rs]" for k rs
    by (induction rs arbitrary: k)
      (simp_all add: make_chunk_def Let_def upt_conv_Cons split_beta del: upt_Suc)
  have len: "length (chunk_segments segments config)
      = (if segments = [] then 0 else length (ranges_loop (max (max_chars config) 1) 0 0 0 segments))"
    by (simp add: chunk_segments_def Let_def)
  show ?thesis
    using * [of 0 "ranges_loop (max (max_chars config) 1) 0 0 0 segments"]
    by (subst chunk_segments_map) (auto simp: len base_chunks_def)
qed

lemma chunk_segments_Nil_iff: "chunk_segments segments config = [] \<longleftrightarrow> segments = []"
proof -
  have "concat (map ck_segments (chunk_segments segments config)) = segments"
    by (simp add: map_ck_segments)
  moreover have "chunk_segments [] config = []" by (simp add: chunk_segments_def)
  ultimately show ?thesis by auto
qed

lemma prepare_no_chunks:
  "pr_chunks (prepare raw config) = [] \<longleftrightarrow> (\<forall>s \<in> set (tr_segments raw). normalize_segment s = None)"
proof -
  have "List.map_filter normalize_segment segs = [] \<longleftrightarrow> (\<forall>s \<in> set segs. normalize_segment s = None)" for segs
    by (induction segs) (auto simp: List.map_filter_simps split: option.splits)
  moreover have "sort_by cmp_start xs = [] \<longleftrightarrow> xs = []" for xs
    by (metis length_0_conv length_sort_by)
  ultimately show ?thesis by (simp add: prepare_def Let_def chunk_segments_Nil_iff normalize_def)
qed

section \<open>Context windows\<close>

lemma last_take_rev_upt: "0 < n \<Longrightarrow> n \<le> m \<Longrightarrow> last (take n (rev [0..<m])) = m - n"
  by (subst last_conv_nth) (auto simp: rev_nth min_def)

lemma tail_eq: "0 < n \<Longrightarrow> tail s n = drop (length s - n) s"
proof (cases "length s \<le> n")
  case True
  then show ?thesis by (simp add: tail_def)
next
  case False
  assume "0 < n"
  then show ?thesis using False last_take_rev_upt [of n "length s"]
    by (auto simp: tail_def Let_def)
qed

lemma head_eq: "head s n = take n s"
  by (simp add: head_def)

section \<open>Properties of the chunking\<close>

text \<open>The chunk of number \<open>k\<close> over the segments from \<open>a\<close> to \<open>b\<close>, the neighbouring context aside.\<close>

definition chunk_over :: "transcript_segment list \<Rightarrow> nat \<Rightarrow> chunk \<Rightarrow> bool" where
  "chunk_over segments k c \<longleftrightarrow> ck_index c = k \<and> ck_id c = lit ''chunk-'' @ show_nat k
     \<and> ck_segment_start c < ck_segment_end c \<and> ck_segment_end c \<le> length segments
     \<and> ck_segments c = map (\<lambda>i. segments ! i) [ck_segment_start c..<ck_segment_end c]
     \<and> ck_start c = sg_start (segments ! ck_segment_start c)
     \<and> ck_end c = sg_end (segments ! (ck_segment_end c - 1))
     \<and> ck_text c = trim_end (concat (map segment_line (ck_segments c)))"

lemma chunk_over_context [simp]:
  "chunk_over segments k (attach_context n texts (i, c)) = chunk_over segments k c"
  by (simp add: chunk_over_def)

lemma subslice_nth: "e \<le> length xs \<Longrightarrow> subslice xs s e = map (\<lambda>i. xs ! i) [s..<e]"
  by (rule nth_equalityI) (auto simp: subslice_def)

lemma make_chunk_over:
  assumes "s < e" "e \<le> length segments"
  shows "chunk_over segments k (make_chunk segments (k, s, e))"
proof -
  let ?xs = "map (\<lambda>i. segments ! i) [s..<e]"
  have sub: "subslice segments s e = ?xs" using assms(2) by (rule subslice_nth)
  have "[s..<e] = s # [Suc s..<e]" by (rule upt_conv_Cons) (rule assms)
  then obtain zs where zs: "?xs = segments ! s # zs" by (metis list.simps(9))
  have "last ?xs = segments ! (e - 1)"
    using last_map [of "[s..<e]" "\<lambda>i. segments ! i"] assms(1) last_upt [OF assms(1)] by auto
  then show ?thesis using assms unfolding chunk_over_def make_chunk_def segments_to_text_def
    by (simp only: prod.case Let_def sub chunk.simps) (simp add: zs)
qed

lemma tiles_bounds: "tiles a b rs \<Longrightarrow> \<forall>(s, e) \<in> set rs. a \<le> s \<and> s < e \<and> e \<le> b"
proof (induction a b rs rule: tiles.induct)
  case (2 a b s e rs)
  have "e \<le> b" using 2 by (cases rs) auto
  then show ?case using 2 by fastforce
qed simp

lemma chunk_segments_over:
  assumes k: "k < length (chunk_segments segments config)"
  shows "chunk_over segments k (chunk_segments segments config ! k)"
proof -
  let ?rs = "ranges_loop (max (max_chars config) 1) 0 0 0 segments"
  have ne: "segments \<noteq> []" using k by (auto simp: chunk_segments_def)
  have "tiles 0 (length segments) ?rs" using ranges_loop_tiles [of 0 0 segments] ne by simp
  then have ok: "\<forall>(s, e) \<in> set ?rs. s < e \<and> e \<le> length segments" using tiles_bounds by fastforce
  have "k < length ?rs" using k ne by (simp add: chunk_segments_def Let_def split: if_splits)
  then have "chunk_over segments k (make_chunk segments (k, ?rs ! k))"
    using bspec [OF ok nth_mem [of k ?rs]] by (cases "?rs ! k") (simp add: make_chunk_over)
  then show ?thesis using ne \<open>k < length ?rs\<close>
    by (simp add: chunk_segments_def Let_def nth_enumerate_eq)
qed

text \<open>C26. Chunking loses, duplicates and reorders nothing: the chunks' segment ranges tile the
  transcript from its first to its last segment without gaps, overlaps or empty chunks, and the
  chunks' segments one after the other are the transcript's. The chunks are numbered from zero:
  the one at position k has index k and id \<open>chunk-k\<close>, carries exactly the segments of its range,
  the start of the first and the end of the last of them, and as its text their rendered lines.\<close>

theorem chunk_segments_partition:
  "tiles 0 (length segments)
     (map (\<lambda>c. (ck_segment_start c, ck_segment_end c)) (chunk_segments segments config))
   \<and> concat (map ck_segments (chunk_segments segments config)) = segments
   \<and> list_all (\<lambda>k. chunk_over segments k (chunk_segments segments config ! k))
       [0..<length (chunk_segments segments config)]"
proof (intro conjI)
  show "tiles 0 (length segments)
      (map (\<lambda>c. (ck_segment_start c, ck_segment_end c)) (chunk_segments segments config))"
    using ranges_loop_tiles [of 0 0 segments] by (auto simp: chunk_ranges)
  show "concat (map ck_segments (chunk_segments segments config)) = segments"
    by (simp add: map_ck_segments)
  show "list_all (\<lambda>k. chunk_over segments k (chunk_segments segments config ! k))
      [0..<length (chunk_segments segments config)]"
    by (auto simp: list_all_iff intro: chunk_segments_over)
qed

text \<open>Sizes of a group of segments: the UTF-8 bytes and the characters of the trimmed texts, one
  more for each segment, and the characters the rendered lines have beside them.\<close>

definition text_bytes :: "transcript_segment list \<Rightarrow> nat" where
  "text_bytes segs = sum_list (map (\<lambda>s. length (as_bytes (trim (sg_text s))) + 1) segs)"

definition text_characters :: "transcript_segment list \<Rightarrow> nat" where
  "text_characters segs = sum_list (map (\<lambda>s. length (trim (sg_text s)) + 1) segs)"

definition speaker_characters :: "transcript_segment list \<Rightarrow> nat" where
  "speaker_characters segs =
     sum_list (map (\<lambda>s. length (case sg_speaker_id s of Some w \<Rightarrow> w | None \<Rightarrow> lit ''Unknown'') + 2) segs)"

lemma total_weight_bytes: "total_weight segment_weight segs = text_bytes segs"
  by (induction segs) (simp_all add: total_weight_def text_bytes_def segment_weight_def length_as_bytes)

lemma text_characters_le: "text_characters segs \<le> text_bytes segs"
  unfolding text_characters_def text_bytes_def length_as_bytes
  by (rule sum_list_mono) (simp add: length_le_str_len)

lemma length_rendered: "length (segments_to_text segs) \<le> text_characters segs + speaker_characters segs"
proof -
  have "length (segments_to_text segs) \<le> length (concat (map segment_line segs))"
    using length_dropWhile_le [of is_whitespace "rev (concat (map segment_line segs))"]
    by (simp add: segments_to_text_def trim_end_def)
  also have "\<dots> = text_characters segs + speaker_characters segs"
    by (induction segs)
      (auto simp: text_characters_def speaker_characters_def segment_line_def lit_def split: option.splits)
  finally show ?thesis .
qed

text \<open>C27. The size of a chunk is counted in UTF-8 bytes of the trimmed segment texts, plus one for
  each segment: unless a chunk is one oversized segment, it has at most \<open>max_chars\<close> (at least one)
  of these bytes, so also at most that many characters of segment text, and its rendered text at
  most that many characters and the speaker labels; and a chunk is closed only when the bytes of
  the next chunk's first segment would not have fitted.\<close>

theorem chunk_segments_budget:
  assumes "chunk_segments segments config = cs1 @ c # cs2"
  shows "(text_bytes (ck_segments c) \<le> max (max_chars config) 1
        \<and> text_characters (ck_segments c) \<le> max (max_chars config) 1
        \<and> length (ck_text c) \<le> max (max_chars config) 1 + speaker_characters (ck_segments c)
      \<or> length (ck_segments c) = 1)
    \<and> (if cs2 = [] then True
       else text_bytes (ck_segments c @ [hd (ck_segments (hd cs2))]) > max (max_chars config) 1)"
proof
  let ?l = "max (max_chars config) 1" and ?g = "ck_segments c"
  have gs: "greedy_groups segment_weight ?l segments
      = map ck_segments cs1 @ ?g # map ck_segments cs2"
    unfolding map_ck_segments [symmetric] assms by simp
  have "c \<in> set (chunk_segments segments config)" by (simp add: assms)
  then have t: "ck_text c = segments_to_text ?g"
    by (auto simp: in_set_conv_nth segments_to_text_def dest: chunk_segments_over
        simp: chunk_over_def)
  have "text_bytes ?g \<le> ?l \<or> length ?g = 1" unfolding total_weight_bytes [symmetric]
    by (rule greedy_groups_budget [of ?g segment_weight _ segments]) (simp only: gs, simp)
  then show "text_bytes ?g \<le> ?l \<and> text_characters ?g \<le> ?l
      \<and> length (ck_text c) \<le> ?l + speaker_characters ?g \<or> length ?g = 1"
    using text_characters_le [of ?g] length_rendered [of ?g] unfolding t by linarith
  have "cs2 \<noteq> [] \<Longrightarrow> total_weight segment_weight ?g
      + total_weight segment_weight [hd (ck_segments (hd cs2))] > ?l"
    using gs by (cases cs2) (auto simp: total_weight_def dest: greedy_groups_maximal)
  then show "if cs2 = [] then True else text_bytes (?g @ [hd (ck_segments (hd cs2))]) > ?l"
    unfolding total_weight_bytes by (simp add: text_bytes_def)
qed

definition demo_segment :: "string \<Rightarrow> rat \<Rightarrow> rat \<Rightarrow> string \<Rightarrow> transcript_segment" where
  "demo_segment who s e t = \<lparr> sg_speaker_id = Some (lit who), sg_start = Finite s,
     sg_end = Finite e, sg_text = lit t, sg_language = None, sg_confidence = None \<rparr>"

lemma demo_chunks:
  "map ck_segments (chunk_segments
     [demo_segment ''S1'' 0 1 ''abc'', demo_segment ''S2'' 1 2 ''def'', demo_segment ''S1'' 2 3 ''ghi'']
     \<lparr>max_chars = 8, context_chars = 4\<rparr>)
   = [] @ [demo_segment ''S1'' 0 1 ''abc'', demo_segment ''S2'' 1 2 ''def'']
       # [[demo_segment ''S1'' 2 3 ''ghi'']]"
  by (simp add: map_ck_segments greedy_groups_def segment_weight_def demo_segment_def lit_def
      trim_def trim_start_def trim_end_def is_whitespace_def)

theorem chunk_segments_budget_witness:
  "\<exists>c d. chunk_segments
     [demo_segment ''S1'' 0 1 ''abc'', demo_segment ''S2'' 1 2 ''def'', demo_segment ''S1'' 2 3 ''ghi'']
     \<lparr>max_chars = 8, context_chars = 4\<rparr> = [c, d]
   \<and> text_bytes (ck_segments c) \<le> 8 \<and> text_bytes (ck_segments c @ [hd (ck_segments d)]) > 8"
proof -
  let ?cs = "chunk_segments
     [demo_segment ''S1'' 0 1 ''abc'', demo_segment ''S2'' 1 2 ''def'', demo_segment ''S1'' 2 3 ''ghi'']
     \<lparr>max_chars = 8, context_chars = 4\<rparr>"
  obtain c d where cs: "?cs = [c, d]"
    and g: "ck_segments c = [demo_segment ''S1'' 0 1 ''abc'', demo_segment ''S2'' 1 2 ''def'']"
    using demo_chunks by (auto simp: map_eq_Cons_conv)
  then have "?cs = [] @ c # [d]" by simp
  from chunk_segments_budget [OF this] cs g show ?thesis by auto
qed

text \<open>Neighbouring context: when configured, every chunk but the first carries the last
  \<open>context_chars\<close> characters of its predecessor's text and every chunk but the last the first
  \<open>context_chars\<close> characters of its successor's, and no chunk's own text is changed by it.\<close>

theorem chunk_segments_context:
  assumes "i < length (chunk_segments segments config)" "context_chars config > 0"
  shows "ck_preceding_context (chunk_segments segments config ! i) =
      (if i = 0 then None
       else let t = ck_text (chunk_segments segments config ! (i - 1))
            in Some (drop (length t - context_chars config) t))
    \<and> ck_following_context (chunk_segments segments config ! i) =
      (if i + 1 < length (chunk_segments segments config)
       then Some (take (context_chars config) (ck_text (chunk_segments segments config ! (i + 1))))
       else None)"
proof -
  let ?base = "base_chunks segments (max (max_chars config) 1)"
  have ne: "segments \<noteq> []" using assms(1) by (auto simp: chunk_segments_def)
  then have eq: "chunk_segments segments config =
      map (attach_context (context_chars config) (map ck_text ?base)) (enumerate 0 ?base)"
    using assms(2) by (simp add: chunk_segments_def base_chunks_def Let_def)
  have len: "length (chunk_segments segments config) = length ?base" by (simp add: eq)
  have nth: "chunk_segments segments config ! j =
      attach_context (context_chars config) (map ck_text ?base) (j, ?base ! j)"
    if "j < length ?base" for j
    using that by (simp add: eq nth_enumerate_eq)
  have none: "ck_preceding_context (?base ! i) = None" "ck_following_context (?base ! i) = None"
    using assms(1) unfolding len
    by (simp_all add: base_chunks_def nth_enumerate_eq make_chunk_def Let_def split_beta)
  have i: "i < length ?base" using assms(1) len by simp
  show ?thesis
    using i assms(2) none unfolding len
    by (cases "i = 0") (simp_all add: nth attach_context_def Let_def tail_eq head_eq)
qed

lemma demo_texts:
  "map ck_text (chunk_segments
     [demo_segment ''S1'' 0 1 ''abc'', demo_segment ''S2'' 1 2 ''def'', demo_segment ''S1'' 2 3 ''ghi'']
     \<lparr>max_chars = 8, context_chars = 4\<rparr>)
   = [lit ''S1: abc'' @ [nl] @ lit ''S2: def'', lit ''S1: ghi'']"
  using demo_chunks [THEN arg_cong [of _ _ "map segments_to_text"]]
  by (simp add: map_ck_text segments_to_text_def segment_line_def demo_segment_def lit_def
      trim_def trim_start_def trim_end_def is_whitespace_def)

theorem chunk_segments_context_witness:
  "ck_preceding_context (chunk_segments
     [demo_segment ''S1'' 0 1 ''abc'', demo_segment ''S2'' 1 2 ''def'', demo_segment ''S1'' 2 3 ''ghi'']
     \<lparr>max_chars = 8, context_chars = 4\<rparr> ! 1) = Some (lit '' def'')"
proof -
  let ?cs = "chunk_segments
     [demo_segment ''S1'' 0 1 ''abc'', demo_segment ''S2'' 1 2 ''def'', demo_segment ''S1'' 2 3 ''ghi'']
     \<lparr>max_chars = 8, context_chars = 4\<rparr>"
  have len: "length ?cs = 2" using demo_texts [THEN arg_cong [of _ _ length]] by simp
  have t0: "ck_text (?cs ! 0) = lit ''S1: abc'' @ [nl] @ lit ''S2: def''"
    using demo_texts [THEN arg_cong [of _ _ "\<lambda>xs. xs ! 0"]] len by simp
  have "1 < length ?cs" "context_chars \<lparr>max_chars = 8, context_chars = 4\<rparr> > 0"
    using len by simp_all
  from chunk_segments_context [OF this] show ?thesis using t0 by (simp add: lit_def)
qed

section \<open>Properties of the normalisation\<close>

interpretation start_order: cmp_order cmp_start "\<lambda>s. sg_start s \<noteq> NaN"
  unfolding cmp_start_def by (rule cmp_order_key)

definition normal_segment :: "transcript_segment \<Rightarrow> bool" where
  "normal_segment s \<longleftrightarrow> f64_le f64_zero (sg_start s) \<and> f64_le (sg_start s) (sg_end s)
     \<and> sg_text s \<noteq> [] \<and> collapse_whitespace (sg_text s) = sg_text s"

lemma f64_zero_not_NaN [simp]: "f64_zero \<noteq> NaN"
  by (simp add: f64_zero_def)

lemma normalize_segment_normal: "normalize_segment s = Some s' \<Longrightarrow> normal_segment s'"
  unfolding normalize_segment_def normal_segment_def Let_def
  by (auto split: if_splits intro!: f64_max_ge f64_max_not_NaN)

lemma normalize_segment_id: "normal_segment s \<Longrightarrow> normalize_segment s = Some s"
  unfolding normalize_segment_def normal_segment_def Let_def
  by (simp add: f64_max_absorb)

lemma map_filter_normal:
  "\<forall>s \<in> set (List.map_filter normalize_segment segs). normal_segment s"
  by (auto simp: List.map_filter_def intro: normalize_segment_normal)

lemma map_filter_id: "(\<forall>s \<in> set segs. normal_segment s) \<Longrightarrow>
    List.map_filter normalize_segment segs = segs"
  by (induction segs) (auto simp: List.map_filter_simps normalize_segment_id)

lemma normal_segment_not_NaN: "normal_segment s \<Longrightarrow> sg_start s \<noteq> NaN"
  by (simp add: normal_segment_def f64_le_def)

lemma normalize_all_normal: "\<forall>s \<in> set (tr_segments (normalize raw)). normal_segment s"
  using map_filter_normal by (simp add: normalize_def)

lemma normalize_sorted:
  "sorted_wrt (\<lambda>a b. cmp_start a b \<noteq> Greater) (tr_segments (normalize raw))"
  unfolding normalize_def
  using start_order.sort_by_sorted map_filter_normal normal_segment_not_NaN by auto

lemma cmp_start_le:
  "sg_start a \<noteq> NaN \<Longrightarrow> sg_start b \<noteq> NaN \<Longrightarrow>
     cmp_start a b \<noteq> Greater \<longleftrightarrow> f64_le (sg_start a) (sg_start b)"
  unfolding cmp_start_def by (rule cmp_or_equal_iff)

text \<open>The normalised transcript is ordered by start time (so the comparison the sort relies on
  is a total order of the real start times even when the input holds NaN), every segment's span is
  ordered and non-negative, and no segment's text is blank or has irregular white space.\<close>

theorem normalize_wellformed:
  "sorted_wrt (\<lambda>a b. f64_le (sg_start a) (sg_start b)) (tr_segments (normalize raw))
   \<and> list_all normal_segment (tr_segments (normalize raw))"
proof
  show "list_all normal_segment (tr_segments (normalize raw))"
    using normalize_all_normal by (simp add: list_all_iff)
  show "sorted_wrt (\<lambda>a b. f64_le (sg_start a) (sg_start b)) (tr_segments (normalize raw))"
    by (rule sorted_wrt_mono_rel [OF _ normalize_sorted])
      (metis cmp_start_le normalize_all_normal normal_segment_not_NaN)
qed

text \<open>Normalisation is idempotent: a transcript that was normalised once is a fixed point, so a
  reprocessed capture is prepared exactly like the first time.\<close>

theorem normalize_idempotent: "normalize (normalize raw) = normalize raw"
proof -
  have "List.map_filter normalize_segment (tr_segments (normalize raw)) = tr_segments (normalize raw)"
    using normalize_all_normal by (intro map_filter_id)
  then have "normalize (normalize raw)
      = \<lparr>tr_segments = sort_by cmp_start (tr_segments (normalize raw))\<rparr>"
    by (subst normalize_def) simp
  then show ?thesis using sort_by_idem [OF normalize_sorted] by simp
qed

text \<open>The part of a segment normalisation must keep, and the start time it clamps to.\<close>

definition content :: "transcript_segment \<Rightarrow> ustr option \<times> ustr list \<times> ustr option \<times> f64 option" where
  "content s = (sg_speaker_id s, split_whitespace (sg_text s), sg_language s, sg_confidence s)"

definition clamped_start :: "transcript_segment \<Rightarrow> f64" where
  "clamped_start s = f64_max (sg_start s) f64_zero"

lemma normalize_segment_content:
  "normalize_segment s = Some s' \<Longrightarrow> content s' = content s \<and> sg_start s' = clamped_start s"
  by (auto simp: normalize_segment_def content_def clamped_start_def Let_def split: if_splits)

lemma normalize_segment_None:
  "normalize_segment s = None \<longleftrightarrow> split_whitespace (sg_text s) = []"
  by (simp add: normalize_segment_def Let_def collapse_whitespace_eq_Nil)

lemma map_filter_content:
  "map content (filter (\<lambda>s. P (sg_start s)) (List.map_filter normalize_segment segs)) =
   map content (filter (\<lambda>s. split_whitespace (sg_text s) \<noteq> [] \<and> P (clamped_start s)) segs)"
proof (induction segs)
  case Nil
  then show ?case by (simp add: List.map_filter_simps)
next
  case (Cons s segs)
  then show ?case
    by (cases "normalize_segment s")
      (auto simp: List.map_filter_simps normalize_segment_None dest: normalize_segment_content,
        auto simp flip: normalize_segment_None)
qed

lemma cmp_start_Equal:
  "sg_start a \<noteq> NaN \<Longrightarrow> sg_start b \<noteq> NaN \<Longrightarrow> cmp_start a b = Equal \<longleftrightarrow> sg_start b = sg_start a"
  unfolding cmp_start_def cmp_or_equal_def partial_cmp_def
  by (cases "sg_start a"; cases "sg_start b") auto

text \<open>Normalisation never rewords and is stable: for any instant, the segments that start there
  appear in their original order, each with the words, speaker, language and confidence of the
  segment it came from; only segments without any word are dropped.\<close>

theorem normalize_stable_content:
  "map content (filter (\<lambda>s. sg_start s = t) (tr_segments (normalize raw))) =
   map content (filter (\<lambda>s. split_whitespace (sg_text s) \<noteq> [] \<and> clamped_start s = t)
     (tr_segments raw))"
proof (cases "\<exists>k. normal_segment k \<and> sg_start k = t")
  case True
  then obtain k where k: "normal_segment k" "sg_start k = t" by blast
  let ?ms = "List.map_filter normalize_segment (tr_segments raw)"
  have ok: "\<forall>x \<in> set ?ms. sg_start x \<noteq> NaN" "sg_start k \<noteq> NaN"
    using map_filter_normal normal_segment_not_NaN k by blast+
  have eq: "filter (\<lambda>z. cmp_start k z = Equal) xs = filter (\<lambda>s. sg_start s = t) xs"
    if "\<forall>x \<in> set xs. sg_start x \<noteq> NaN" for xs
    by (rule filter_cong) (use that ok cmp_start_Equal k in auto)
  have "filter (\<lambda>s. sg_start s = t) (sort_by cmp_start ?ms) = filter (\<lambda>s. sg_start s = t) ?ms"
    using start_order.sort_by_stable [OF ok] ok eq [of ?ms] eq [of "sort_by cmp_start ?ms"] by simp
  then show ?thesis using map_filter_content [of "\<lambda>x. x = t"] by (simp add: normalize_def)
next
  case False
  then have no: "filter (\<lambda>s. sg_start s = t) (tr_segments (normalize raw)) = []"
    using normalize_all_normal by (auto simp: filter_empty_conv)
  moreover have "filter (\<lambda>s. sg_start s = t) (List.map_filter normalize_segment (tr_segments raw)) = []"
    using False map_filter_normal by (auto simp: filter_empty_conv)
  ultimately show ?thesis using map_filter_content [of "\<lambda>x. x = t" "tr_segments raw"] by simp
qed

text \<open>\<open>prepare\<close> keeps the raw transcript, and its chunks hold exactly the normalised segments,
  so evidence grounded in a chunk is grounded in the transcript.\<close>

theorem prepare_chunks_cover:
  "pr_raw (prepare raw config) = raw
   \<and> pr_normalized (prepare raw config) = normalize raw
   \<and> concat (map ck_segments (pr_chunks (prepare raw config))) = tr_segments (normalize raw)
   \<and> (pr_chunks (prepare raw config) = []
        \<longleftrightarrow> list_all (\<lambda>s. split_whitespace (sg_text s) = []) (tr_segments raw))"
proof -
  have "chunk_segments segs config = [] \<longleftrightarrow> segs = []" for segs
    using map_ck_segments [of segs config] concat_greedy_groups [of segment_weight _ segs]
    by (metis concat.simps(1) list.map_disc_iff chunk_segments_def)
  moreover have "tr_segments (normalize raw) = []
      \<longleftrightarrow> List.map_filter normalize_segment (tr_segments raw) = []"
    using length_sort_by [of cmp_start "List.map_filter normalize_segment (tr_segments raw)"]
    by (auto simp: normalize_def simp del: length_sort_by)
  moreover have "List.map_filter normalize_segment segs = []
      \<longleftrightarrow> list_all (\<lambda>s. split_whitespace (sg_text s) = []) segs" for segs
    by (induction segs)
      (auto simp: List.map_filter_simps normalize_segment_None [symmetric] split: option.splits)
  ultimately show ?thesis by (simp add: prepare_def Let_def map_ck_segments)
qed

end
