(* ===== verification/Llm.thy ===== *)
theory Llm
  imports Domain "HOL-Library.Word"
begin

text \<open>
  The runtime-agnostic LLM boundary (\<open>engine/src/llm/provider.rs\<close>): JSON values, requests,
  responses, errors and the shape of a provider. A provider is external code with effects, so it is
  a function that threads a state of its own; everything above it takes one as a parameter. An
  \<open>f32\<close> is its bit pattern: the engine writes literals and copies them.
\<close>

section \<open>JSON values\<close>

text \<open>\<open>serde_json::Value\<close>; an object is the list of its members, looked up by name.\<close>

datatype json = JNull | JBool bool | JInt int | JNum f64 | JStr ustr | JArr "json list"
  | JObj "(ustr \<times> json) list"

definition jstr :: "string \<Rightarrow> json" where
  "jstr s = JStr (lit s)"

fun jget :: "json \<Rightarrow> ustr \<Rightarrow> json option" where
  "jget (JObj ms) k = map_of ms k"
| "jget _ k = None"

text \<open>\<open>body[key] = value\<close> on an object: replaces the member or adds it.\<close>

fun jset :: "json \<Rightarrow> ustr \<Rightarrow> json \<Rightarrow> json" where
  "jset (JObj ms) k v = JObj (filter (\<lambda>m. fst m \<noteq> k) ms @ [(k, v)])"
| "jset j k v = j"

lemma map_of_filter_other: "j \<noteq> k \<Longrightarrow> map_of (filter (\<lambda>m. fst m \<noteq> k) ms) j = map_of ms j"
  by (induction ms) auto

lemma jget_jset: "jget (jset (JObj ms) k v) j = (if j = k then Some v else jget (JObj ms) j)"
proof -
  have "map_of (filter (\<lambda>m. fst m \<noteq> k) ms) k = None"
    by (auto simp: map_of_eq_None_iff)
  then show ?thesis by (simp add: map_add_def map_of_filter_other split: option.splits)
qed

section \<open>Requests, responses, errors\<close>

type_synonym f32 = "32 word"
type_synonym u32 = "32 word"

record generation_config =
  gc_temperature :: "f32 option"
  gc_num_ctx :: "u32 option"
  gc_max_tokens :: "u32 option"

record generate_request =
  rq_model :: "ustr option"
  rq_system :: "ustr option"
  rq_prompt :: ustr
  rq_format :: "json option"
  rq_config :: generation_config
  rq_think :: bool

definition generation_config_default :: generation_config where
  "generation_config_default =
     \<lparr> gc_temperature = None, gc_num_ctx = None, gc_max_tokens = None \<rparr>"

definition request_new :: "ustr \<Rightarrow> generate_request" where
  "request_new p = \<lparr> rq_model = None, rq_system = None, rq_prompt = p, rq_format = None,
     rq_config = generation_config_default, rq_think = False \<rparr>"

definition with_system :: "ustr \<Rightarrow> generate_request \<Rightarrow> generate_request" where
  "with_system s r = r\<lparr>rq_system := Some s\<rparr>"

definition with_format :: "json \<Rightarrow> generate_request \<Rightarrow> generate_request" where
  "with_format schema r = r\<lparr>rq_format := Some schema\<rparr>"

definition with_temperature :: "f32 \<Rightarrow> generate_request \<Rightarrow> generate_request" where
  "with_temperature t r = r\<lparr>rq_config := (rq_config r)\<lparr>gc_temperature := Some t\<rparr>\<rparr>"

record generate_response =
  rs_text :: ustr
  rs_model :: ustr

record embed_request =
  eq_model :: "ustr option"
  eq_input :: "ustr list"

record embed_response =
  es_vectors :: "f32 list list"
  es_model :: ustr

datatype llm_error = LlmTransport ustr | LlmRuntime ustr | LlmDecode ustr | LlmUnsupported ustr

fun llm_error_display :: "llm_error \<Rightarrow> ustr" where
  "llm_error_display (LlmTransport m) = lit ''failed to reach the LLM runtime: '' @ m"
| "llm_error_display (LlmRuntime m) = lit ''the LLM runtime returned an error: '' @ m"
| "llm_error_display (LlmDecode m) = lit ''could not decode the LLM runtime response: '' @ m"
| "llm_error_display (LlmUnsupported m) =
     lit ''the LLM runtime does not support this capability: '' @ m"

text \<open>\<open>LlmProvider::generate\<close> over the provider's own state.\<close>

type_synonym 's llm_generate = "generate_request \<Rightarrow> 's \<Rightarrow> (llm_error + generate_response) \<times> 's"
type_synonym 's llm_embed = "embed_request \<Rightarrow> 's \<Rightarrow> (llm_error + embed_response) \<times> 's"

text \<open>The trait's default \<open>embed\<close>: a runtime that does not embed says so.\<close>

definition embed_default :: "'s llm_embed" where
  "embed_default request s = (Inl (LlmUnsupported (lit ''embeddings'')), s)"

end
