(* ===== verification/Schema.thy ===== *)
theory Schema
  imports Llm
begin

text \<open>
  The JSON Schemas the engine hands to the model (\<open>engine/src/ai/schema.rs\<close>).
\<close>

definition jtype :: "string \<Rightarrow> json" where
  "jtype t = JObj [(lit ''type'', jstr t)]"

definition evidence_schema :: json where
  "evidence_schema = JObj [
     (lit ''type'', jstr ''object''),
     (lit ''properties'', JObj [
        (lit ''quote'', jtype ''string''),
        (lit ''speaker_id'', jtype ''string''),
        (lit ''start'', jtype ''number''),
        (lit ''end'', jtype ''number'')]),
     (lit ''required'', JArr [jstr ''quote''])]"

definition evidence_array :: json where
  "evidence_array = JObj [(lit ''type'', jstr ''array''), (lit ''items'', evidence_schema)]"

definition topic_schema :: json where
  "topic_schema = JObj [
     (lit ''type'', jstr ''object''),
     (lit ''properties'', JObj [
        (lit ''title'', jtype ''string''),
        (lit ''summary'', jtype ''string''),
        (lit ''evidence'', evidence_array)]),
     (lit ''required'', JArr [jstr ''title''])]"

definition decision_schema :: json where
  "decision_schema = JObj [
     (lit ''type'', jstr ''object''),
     (lit ''properties'', JObj [
        (lit ''decision'', jtype ''string''),
        (lit ''context'', jtype ''string''),
        (lit ''evidence'', evidence_array)]),
     (lit ''required'', JArr [jstr ''decision''])]"

definition action_item_schema :: json where
  "action_item_schema = JObj [
     (lit ''type'', jstr ''object''),
     (lit ''properties'', JObj [
        (lit ''description'', jtype ''string''),
        (lit ''owner'', JObj [(lit ''type'', JArr [jstr ''string'', jstr ''null''])]),
        (lit ''deadline'', JObj [(lit ''type'', JArr [jstr ''string'', jstr ''null''])]),
        (lit ''status'', JObj [(lit ''type'', jstr ''string''),
           (lit ''enum'', JArr [jstr ''open'', jstr ''in_progress'', jstr ''done'',
              jstr ''cancelled''])]),
        (lit ''evidence'', evidence_array)]),
     (lit ''required'', JArr [jstr ''description''])]"

definition open_question_schema :: json where
  "open_question_schema = JObj [
     (lit ''type'', jstr ''object''),
     (lit ''properties'', JObj [
        (lit ''question'', jtype ''string''),
        (lit ''context'', jtype ''string''),
        (lit ''evidence'', evidence_array)]),
     (lit ''required'', JArr [jstr ''question''])]"

definition risk_schema :: json where
  "risk_schema = JObj [
     (lit ''type'', jstr ''object''),
     (lit ''properties'', JObj [
        (lit ''description'', jtype ''string''),
        (lit ''severity'', jtype ''string''),
        (lit ''evidence'', evidence_array)]),
     (lit ''required'', JArr [jstr ''description''])]"

definition array_of :: "json \<Rightarrow> json" where
  "array_of item = JObj [(lit ''type'', jstr ''array''), (lit ''items'', item)]"

definition findings_schema :: json where
  "findings_schema = JObj [
     (lit ''type'', jstr ''object''),
     (lit ''properties'', JObj [
        (lit ''topics'', array_of topic_schema),
        (lit ''decisions'', array_of decision_schema),
        (lit ''action_items'', array_of action_item_schema),
        (lit ''open_questions'', array_of open_question_schema),
        (lit ''risks'', array_of risk_schema)]),
     (lit ''required'', JArr [jstr ''topics'', jstr ''decisions'', jstr ''action_items'',
        jstr ''open_questions'', jstr ''risks''])]"

definition participant_schema :: json where
  "participant_schema = JObj [
     (lit ''type'', jstr ''object''),
     (lit ''properties'', JObj [
        (lit ''id'', jtype ''string''),
        (lit ''display_name'', jtype ''string'')]),
     (lit ''required'', JArr [jstr ''id''])]"

definition ir_schema :: json where
  "ir_schema = JObj [
     (lit ''type'', jstr ''object''),
     (lit ''properties'', JObj [
        (lit ''summary'', jtype ''string''),
        (lit ''participants'', array_of participant_schema),
        (lit ''topics'', array_of topic_schema),
        (lit ''decisions'', array_of decision_schema),
        (lit ''action_items'', array_of action_item_schema),
        (lit ''open_questions'', array_of open_question_schema),
        (lit ''risks'', array_of risk_schema)]),
     (lit ''required'', JArr [jstr ''summary'', jstr ''topics'', jstr ''decisions'',
        jstr ''action_items'', jstr ''open_questions'', jstr ''risks''])]"

end
