(* ===== verification/Ai_Extraction.thy ===== *)
theory Ai_Extraction
  imports Preprocess Schema
begin

text \<open>
  The extraction pass (\<open>engine/src/ai/extraction.rs\<close>, \<open>findings.rs\<close>, the error and context types of
  \<open>provider.rs\<close>): the request for one chunk, the parsing of the model's reply and the deterministic
  grounding of every finding's evidence in the chunk's transcript segments. Decoding the JSON text
  is \<open>serde_json::from_str\<close>, a parameter \<open>decode\<close>. The five kinds of items share the interface
  \<open>evidence_item\<close>, in which the grounding laws are proved once.
\<close>

section \<open>Errors, context and findings\<close>

datatype ai_error = AiLlm llm_error | AiParse ustr | AiValidation ustr

fun ai_error_display :: "ai_error \<Rightarrow> ustr" where
  "ai_error_display (AiLlm e) = lit ''LLM error: '' @ llm_error_display e"
| "ai_error_display (AiParse m) = lit ''could not parse structured output from model: '' @ m"
| "ai_error_display (AiValidation m) = lit ''Meeting IR failed validation: '' @ m"

record analysis_context =
  cx_title :: "ustr option"

record chunk_findings =
  cf_chunk_id :: ustr
  cf_topics :: "topic list"
  cf_decisions :: "decision list"
  cf_action_items :: "action_item list"
  cf_open_questions :: "open_question list"
  cf_risks :: "risk list"

definition findings_is_empty :: "chunk_findings \<Rightarrow> bool" where
  "findings_is_empty f \<longleftrightarrow> cf_topics f = [] \<and> cf_decisions f = [] \<and> cf_action_items f = []
     \<and> cf_open_questions f = [] \<and> cf_risks f = []"

record merged_findings =
  mf_topics :: "topic list"
  mf_decisions :: "decision list"
  mf_action_items :: "action_item list"
  mf_open_questions :: "open_question list"
  mf_risks :: "risk list"

definition merged_default :: merged_findings where
  "merged_default = \<lparr> mf_topics = [], mf_decisions = [], mf_action_items = [],
     mf_open_questions = [], mf_risks = [] \<rparr>"

text \<open>\<open>MergedFindings::from_chunks\<close>: the loop that extends each list by each chunk's.\<close>

definition merge_one :: "merged_findings \<Rightarrow> chunk_findings \<Rightarrow> merged_findings" where
  "merge_one m f = \<lparr> mf_topics = mf_topics m @ cf_topics f,
     mf_decisions = mf_decisions m @ cf_decisions f,
     mf_action_items = mf_action_items m @ cf_action_items f,
     mf_open_questions = mf_open_questions m @ cf_open_questions f,
     mf_risks = mf_risks m @ cf_risks f \<rparr>"

definition from_chunks :: "chunk_findings list \<Rightarrow> merged_findings" where
  "from_chunks fs = foldl merge_one merged_default fs"

definition merged_is_empty :: "merged_findings \<Rightarrow> bool" where
  "merged_is_empty m \<longleftrightarrow> mf_topics m = [] \<and> mf_decisions m = [] \<and> mf_action_items m = []
     \<and> mf_open_questions m = [] \<and> mf_risks m = []"

definition all_evidence :: "merged_findings \<Rightarrow> evidence list" where
  "all_evidence m = concat (map dc_evidence (mf_decisions m))
     @ concat (map ai_evidence (mf_action_items m))
     @ concat (map tp_evidence (mf_topics m))
     @ concat (map oq_evidence (mf_open_questions m))
     @ concat (map rk_evidence (mf_risks m))"

lemma foldl_merge_one:
  "foldl merge_one m fs = \<lparr> mf_topics = mf_topics m @ concat (map cf_topics fs),
     mf_decisions = mf_decisions m @ concat (map cf_decisions fs),
     mf_action_items = mf_action_items m @ concat (map cf_action_items fs),
     mf_open_questions = mf_open_questions m @ concat (map cf_open_questions fs),
     mf_risks = mf_risks m @ concat (map cf_risks fs) \<rparr>"
  by (induction fs arbitrary: m) (auto simp: merge_one_def)

lemma from_chunks_eq:
  "from_chunks fs = \<lparr> mf_topics = concat (map cf_topics fs),
     mf_decisions = concat (map cf_decisions fs),
     mf_action_items = concat (map cf_action_items fs),
     mf_open_questions = concat (map cf_open_questions fs),
     mf_risks = concat (map cf_risks fs) \<rparr>"
  by (simp add: from_chunks_def foldl_merge_one merged_default_def)

section \<open>The request\<close>

definition extraction_system_prompt :: ustr where
  "extraction_system_prompt = lit (''You are Notely's meeting extraction engine. You read ONE excerpt of a meeting transcript and ''
     @ ''extract structured findings. Respond ONLY with a single JSON object matching the provided ''
     @ ''schema. Do not write Markdown, prose, or commentary. Extract only what is explicitly ''
     @ ''supported by THIS excerpt; do not infer or invent. For each decision, action item, topic, ''
     @ ''question, and risk, include a short supporting `quote` copied verbatim from the excerpt. For ''
     @ ''action items, set `deadline` when a time is explicitly stated (e.g. \"by Thursday\", \"next ''
     @ ''Monday\") and `owner` when a person is explicitly named; otherwise use null '')
     @ [8212] @ lit ('' never guess. If ''
     @ ''the excerpt contains nothing for a category, return an empty array.'')"

definition extraction_build_prompt :: "chunk \<Rightarrow> analysis_context \<Rightarrow> ustr" where
  "extraction_build_prompt chunk context =
     (case cx_title context of None \<Rightarrow> []
      | Some title \<Rightarrow> lit ''Meeting title: '' @ title @ [nl, nl])
     @ lit ''Transcript excerpt ('' @ ck_id chunk @ lit ''):'' @ [nl]
     @ prompt_text chunk
     @ [nl, nl] @ lit (''Extract the structured findings for THIS excerpt as JSON. Use empty arrays where ''
         @ ''there is nothing. Do not invent owners or deadlines.'')"

definition extraction_build_request :: "chunk \<Rightarrow> analysis_context \<Rightarrow> generate_request" where
  "extraction_build_request chunk context =
     with_temperature 0x3DCCCCCD
       (with_format findings_schema
         (with_system extraction_system_prompt
           (request_new (extraction_build_prompt chunk context))))"

section \<open>Grounding\<close>

definition word_set :: "unicode \<Rightarrow> ustr \<Rightarrow> ustr set" where
  "word_set u s = set (filter (\<lambda>w. str_len w > 2)
     (split_on (\<lambda>c. \<not> is_alphanumeric u c) (to_lowercase u s)))"

text \<open>The number of words two texts share.\<close>

definition overlap :: "unicode \<Rightarrow> ustr set \<Rightarrow> transcript_segment \<Rightarrow> nat" where
  "overlap u needle seg = card (word_set u (sg_text seg) \<inter> needle)"

text \<open>The loop of \<open>best_segment\<close> with its running best.\<close>

fun best_loop :: "unicode \<Rightarrow> ustr set \<Rightarrow> (nat \<times> transcript_segment) option
    \<Rightarrow> transcript_segment list \<Rightarrow> (nat \<times> transcript_segment) option" where
  "best_loop u needle best [] = best"
| "best_loop u needle best (seg # segs) =
     (let ov = overlap u needle seg in
      if ov = 0 then best_loop u needle best segs
      else if (case best of None \<Rightarrow> True | Some (b, _) \<Rightarrow> ov > b)
           then best_loop u needle (Some (ov, seg)) segs
           else best_loop u needle best segs)"

definition segment_evidence :: "chunk \<Rightarrow> transcript_segment \<Rightarrow> evidence" where
  "segment_evidence chunk seg = \<lparr> ev_quote = sg_text seg, ev_speaker_id = sg_speaker_id seg,
     ev_start = Some (sg_start seg), ev_end = Some (sg_end seg),
     ev_chunk_id = Some (ck_id chunk) \<rparr>"

definition best_segment :: "unicode \<Rightarrow> ustr \<Rightarrow> chunk \<Rightarrow> evidence option" where
  "best_segment u item_text chunk =
     (let needle = word_set u item_text in
      if needle = {} then None
      else map_option (\<lambda>(_, seg). segment_evidence chunk seg)
             (best_loop u needle None (ck_segments chunk)))"

definition marker_evidence :: "chunk \<Rightarrow> evidence" where
  "marker_evidence chunk = \<lparr> ev_quote = [], ev_speaker_id = None,
     ev_start = Some (ck_start chunk), ev_end = Some (ck_end chunk),
     ev_chunk_id = Some (ck_id chunk) \<rparr>"

definition fill_provenance :: "chunk \<Rightarrow> evidence \<Rightarrow> evidence" where
  "fill_provenance chunk ev =
     ev\<lparr> ev_chunk_id := (case ev_chunk_id ev of None \<Rightarrow> Some (ck_id chunk) | Some i \<Rightarrow> Some i),
         ev_start := (case ev_start ev of None \<Rightarrow> Some (ck_start chunk) | Some t \<Rightarrow> Some t),
         ev_end := (case ev_end ev of None \<Rightarrow> Some (ck_end chunk) | Some t \<Rightarrow> Some t) \<rparr>"

definition has_real_quote :: "evidence list \<Rightarrow> bool" where
  "has_real_quote evs \<longleftrightarrow> (\<exists>e \<in> set evs. trim (ev_quote e) \<noteq> [])"

definition ground :: "unicode \<Rightarrow> evidence list \<Rightarrow> ustr \<Rightarrow> chunk \<Rightarrow> evidence list" where
  "ground u evidence item_text chunk =
     (if has_real_quote evidence then map (fill_provenance chunk) evidence
      else (case best_segment u item_text chunk of
              Some ev \<Rightarrow> [ev]
            | None \<Rightarrow> [marker_evidence chunk]))"

definition stamp_provenance :: "unicode \<Rightarrow> chunk_findings \<Rightarrow> chunk \<Rightarrow> chunk_findings" where
  "stamp_provenance u f chunk = f\<lparr>
     cf_chunk_id := ck_id chunk,
     cf_decisions := map (\<lambda>d. d\<lparr>dc_evidence := ground u (dc_evidence d) (dc_decision d) chunk\<rparr>)
       (cf_decisions f),
     cf_action_items := map (\<lambda>a. a\<lparr>ai_evidence := ground u (ai_evidence a) (ai_description a) chunk\<rparr>)
       (cf_action_items f),
     cf_topics := map (\<lambda>t. t\<lparr>tp_evidence := ground u (tp_evidence t) (tp_title t) chunk\<rparr>)
       (cf_topics f),
     cf_open_questions := map (\<lambda>q. q\<lparr>oq_evidence := ground u (oq_evidence q) (oq_question q) chunk\<rparr>)
       (cf_open_questions f),
     cf_risks := map (\<lambda>r. r\<lparr>rk_evidence := ground u (rk_evidence r) (rk_description r) chunk\<rparr>)
       (cf_risks f) \<rparr>"

text \<open>The outermost braces of the reply, or the trimmed reply.\<close>

definition strip_to_json_object :: "ustr \<Rightarrow> ustr" where
  "strip_to_json_object raw =
     (case (find_char 123 raw, rfind_char 125 raw) of
        (Some s, Some e) \<Rightarrow> if s \<le> e then subslice raw s (e + 1) else trim raw
      | _ \<Rightarrow> trim raw)"

definition parse_findings :: "unicode \<Rightarrow> (ustr \<Rightarrow> ustr + chunk_findings) \<Rightarrow> ustr \<Rightarrow> chunk
    \<Rightarrow> ai_error + chunk_findings" where
  "parse_findings u decode raw chunk =
     (case decode (strip_to_json_object raw) of
        Inl e \<Rightarrow> Inl (AiParse e)
      | Inr findings \<Rightarrow> Inr (stamp_provenance u findings chunk))"

section \<open>The best segment is the first of maximal overlap\<close>

text \<open>The running best as a number: nothing yet counts as no overlap.\<close>

fun best_score :: "(nat \<times> transcript_segment) option \<Rightarrow> nat" where
  "best_score None = 0"
| "best_score (Some (b, _)) = b"

lemma best_loop_Cons:
  "best_loop u needle best (seg # segs) =
     (if best_score best < overlap u needle seg
      then best_loop u needle (Some (overlap u needle seg, seg)) segs
      else best_loop u needle best segs)"
  by (cases best) (auto simp: Let_def)

declare best_loop.simps(2) [simp del]

lemma best_loop_spec:
  "best_loop u needle best segs = Some (n, seg) \<Longrightarrow>
     (best = Some (n, seg) \<and> (\<forall>s \<in> set segs. overlap u needle s \<le> n))
     \<or> (\<exists>pre post. segs = pre @ seg # post \<and> n = overlap u needle seg \<and> best_score best < n
         \<and> (\<forall>s \<in> set pre. overlap u needle s < n) \<and> (\<forall>s \<in> set post. overlap u needle s \<le> n))"
proof (induction segs arbitrary: best)
  case Nil
  then show ?case by simp
next
  case (Cons x segs)
  show ?case
  proof (cases "best_score best < overlap u needle x")
    case True
    then have "best_loop u needle (Some (overlap u needle x, x)) segs = Some (n, seg)"
      using Cons.prems by (simp add: best_loop_Cons)
    from Cons.IH [OF this] show ?thesis
    proof (elim disjE exE conjE)
      assume "Some (overlap u needle x, x) = Some (n, seg)"
        "\<forall>s \<in> set segs. overlap u needle s \<le> n"
      then show ?thesis using True by (intro disjI2 exI [of _ "[]"] exI [of _ segs]) auto
    next
      fix pre post
      assume "segs = pre @ seg # post" "\<forall>s \<in> set pre. overlap u needle s < n"
        "n = overlap u needle seg" "\<forall>s \<in> set post. overlap u needle s \<le> n"
        "best_score (Some (overlap u needle x, x)) < n"
      then show ?thesis using True by (intro disjI2 exI [of _ "x # pre"] exI [of _ post]) auto
    qed
  next
    case False
    then have "best_loop u needle best segs = Some (n, seg)"
      using Cons.prems by (simp add: best_loop_Cons)
    from Cons.IH [OF this] show ?thesis
    proof (elim disjE exE conjE)
      fix pre post
      assume "segs = pre @ seg # post" "\<forall>s \<in> set pre. overlap u needle s < n"
        "n = overlap u needle seg" "\<forall>s \<in> set post. overlap u needle s \<le> n" "best_score best < n"
      then show ?thesis using False by (intro disjI2 exI [of _ "x # pre"] exI [of _ post]) auto
    qed (use False in auto)
  qed
qed

lemma best_loop_Some: "best_loop u needle (Some b) segs \<noteq> None"
  by (induction segs arbitrary: b) (simp_all add: best_loop_Cons)

lemma best_loop_None:
  "best_loop u needle None segs = None \<longleftrightarrow> (\<forall>s \<in> set segs. overlap u needle s = 0)"
  by (induction segs) (auto simp: best_loop_Cons best_loop_Some)

text \<open>A segment that shares the most words with the item, and the first such one.\<close>

definition best_match :: "unicode \<Rightarrow> ustr \<Rightarrow> transcript_segment list \<Rightarrow> transcript_segment \<Rightarrow> bool" where
  "best_match u item_text segs seg \<longleftrightarrow> (\<exists>pre post. segs = pre @ seg # post
     \<and> overlap u (word_set u item_text) seg > 0
     \<and> (\<forall>s \<in> set pre. overlap u (word_set u item_text) s < overlap u (word_set u item_text) seg)
     \<and> (\<forall>s \<in> set post. overlap u (word_set u item_text) s \<le> overlap u (word_set u item_text) seg))"

lemma best_segment_Some:
  assumes "best_segment u item_text chunk = Some ev"
  shows "\<exists>seg. ev = segment_evidence chunk seg \<and> best_match u item_text (ck_segments chunk) seg"
proof -
  from assms obtain n seg where
    l: "best_loop u (word_set u item_text) None (ck_segments chunk) = Some (n, seg)"
    and ev: "ev = segment_evidence chunk seg"
    by (auto simp: best_segment_def Let_def split: if_splits)
  from best_loop_spec [OF l] have "best_match u item_text (ck_segments chunk) seg"
    unfolding best_match_def by auto
  with ev show ?thesis by blast
qed

lemma overlap_empty [simp]: "overlap u {} s = 0"
  by (simp add: overlap_def)

lemma best_segment_None:
  "best_segment u item_text chunk = None
     \<longleftrightarrow> (\<forall>s \<in> set (ck_segments chunk). overlap u (word_set u item_text) s = 0)"
  by (cases "word_set u item_text = {}") (auto simp: best_segment_def Let_def best_loop_None)

section \<open>Grounded evidence\<close>

text \<open>
  What an item's evidence may be after grounding. If the model quoted something: its own pieces of
  evidence in order, quote and speaker verbatim, with the chunk's id and times put exactly where it
  gave none. If every quote is blank or there is none: one real segment of best overlap, or, when no
  segment shares a word, a marker of the chunk without a quote.
\<close>

definition filled_from :: "chunk \<Rightarrow> evidence \<Rightarrow> evidence \<Rightarrow> bool" where
  "filled_from chunk e e' \<longleftrightarrow> ev_quote e' = ev_quote e \<and> ev_speaker_id e' = ev_speaker_id e
     \<and> ev_chunk_id e' = (if ev_chunk_id e = None then Some (ck_id chunk) else ev_chunk_id e)
     \<and> ev_start e' = (if ev_start e = None then Some (ck_start chunk) else ev_start e)
     \<and> ev_end e' = (if ev_end e = None then Some (ck_end chunk) else ev_end e)"

definition grounded_in :: "unicode \<Rightarrow> chunk \<Rightarrow> ustr \<Rightarrow> evidence list \<Rightarrow> evidence list \<Rightarrow> bool" where
  "grounded_in u chunk item_text given evs \<longleftrightarrow>
     evs \<noteq> [] \<and> (\<forall>e \<in> set evs. ev_chunk_id e \<noteq> None \<and> ev_start e \<noteq> None \<and> ev_end e \<noteq> None)
     \<and> (if has_real_quote given then list_all2 (filled_from chunk) given evs
        else (\<exists>seg. evs = [segment_evidence chunk seg]
                \<and> best_match u item_text (ck_segments chunk) seg)
          \<or> evs = [marker_evidence chunk]
            \<and> (\<forall>s \<in> set (ck_segments chunk). overlap u (word_set u item_text) s = 0))"

lemma fill_provenance_filled: "filled_from chunk e (fill_provenance chunk e)"
  by (simp add: filled_from_def fill_provenance_def split: option.splits)

lemma fill_provenance_complete:
  "\<exists>i. ev_chunk_id (fill_provenance chunk e) = Some i"
  "\<exists>t. ev_start (fill_provenance chunk e) = Some t"
  "\<exists>t. ev_end (fill_provenance chunk e) = Some t"
  by (simp_all add: fill_provenance_def split: option.splits)

lemma ground_grounded: "grounded_in u chunk item_text given (ground u given item_text chunk)"
proof (cases "has_real_quote given")
  case True
  then have "given \<noteq> []" by (auto simp: has_real_quote_def)
  then show ?thesis using True
    by (simp add: grounded_in_def ground_def fill_provenance_complete fill_provenance_filled
        list_all2_map_self)
next
  case False
  show ?thesis
  proof (cases "best_segment u item_text chunk")
    case None
    then show ?thesis using False best_segment_None [of u item_text chunk]
      by (auto simp: grounded_in_def ground_def marker_evidence_def)
  next
    case (Some ev)
    then obtain seg where "ev = segment_evidence chunk seg"
      "best_match u item_text (ck_segments chunk) seg"
      using best_segment_Some by blast
    then show ?thesis using False Some
      by (auto simp: grounded_in_def ground_def segment_evidence_def)
  qed
qed

text \<open>
  The interface of an item that carries evidence: its text, its evidence and the update of the
  evidence, which leaves the text alone. Decisions, action items, topics, questions and risks
  provide it.
\<close>

locale evidence_item =
  fixes item_text :: "'i \<Rightarrow> ustr" and ev_of :: "'i \<Rightarrow> evidence list"
    and with_ev :: "evidence list \<Rightarrow> 'i \<Rightarrow> 'i"
  assumes ev_of_with_ev: "ev_of (with_ev evs i) = evs"
    and text_with_ev: "item_text (with_ev evs i) = item_text i"
    and with_ev_with_ev: "with_ev evs (with_ev evs' i) = with_ev evs i"
begin

lemma ground_items:
  "list_all2 (\<lambda>i i'. grounded_in u chunk (item_text i) (ev_of i) (ev_of i')
       \<and> i' = with_ev (ev_of i') i)
     items (map (\<lambda>i. with_ev (ground u (ev_of i) (item_text i) chunk) i) items)"
  by (induction items) (auto simp: ev_of_with_ev ground_grounded)

lemma ground_items_text:
  "map item_text (map (\<lambda>i. with_ev (ground u (ev_of i) (item_text i) chunk) i) items)
    = map item_text items"
  by (simp add: text_with_ev)

end

interpretation decision_item: evidence_item dc_decision dc_evidence "\<lambda>evs d. d\<lparr>dc_evidence := evs\<rparr>"
  by unfold_locales auto

interpretation action_item_ev: evidence_item ai_description ai_evidence
    "\<lambda>evs a. a\<lparr>ai_evidence := evs\<rparr>"
  by unfold_locales auto

interpretation topic_item: evidence_item tp_title tp_evidence "\<lambda>evs t. t\<lparr>tp_evidence := evs\<rparr>"
  by unfold_locales auto

interpretation question_item: evidence_item oq_question oq_evidence "\<lambda>evs q. q\<lparr>oq_evidence := evs\<rparr>"
  by unfold_locales auto

interpretation risk_item: evidence_item rk_description rk_evidence "\<lambda>evs r. r\<lparr>rk_evidence := evs\<rparr>"
  by unfold_locales auto

section \<open>Properties\<close>

text \<open>C21. Every finding of a reply that parses carries traceable evidence, and nothing else of the
  finding changes. Evidence that quotes something is the model's own, verbatim and in its order,
  with the chunk's id, start and end filled in exactly where the model gave none (an id it did give
  is kept). A finding whose quotes are all blank gets instead the chunk's first segment of maximal
  word overlap, with that segment's text, speaker and times, and only when no segment shares a word
  a marker of the chunk with an empty quote.\<close>

theorem parse_findings_grounded:
  assumes "parse_findings u decode raw chunk = Inr f"
  shows "\<exists>f0. decode (strip_to_json_object raw) = Inr f0 \<and> cf_chunk_id f = ck_id chunk
    \<and> list_all2 (\<lambda>d d'. grounded_in u chunk (dc_decision d) (dc_evidence d) (dc_evidence d')
        \<and> d' = d\<lparr>dc_evidence := dc_evidence d'\<rparr>) (cf_decisions f0) (cf_decisions f)
    \<and> list_all2 (\<lambda>a a'. grounded_in u chunk (ai_description a) (ai_evidence a) (ai_evidence a')
        \<and> a' = a\<lparr>ai_evidence := ai_evidence a'\<rparr>) (cf_action_items f0) (cf_action_items f)
    \<and> list_all2 (\<lambda>t t'. grounded_in u chunk (tp_title t) (tp_evidence t) (tp_evidence t')
        \<and> t' = t\<lparr>tp_evidence := tp_evidence t'\<rparr>) (cf_topics f0) (cf_topics f)
    \<and> list_all2 (\<lambda>q q'. grounded_in u chunk (oq_question q) (oq_evidence q) (oq_evidence q')
        \<and> q' = q\<lparr>oq_evidence := oq_evidence q'\<rparr>) (cf_open_questions f0) (cf_open_questions f)
    \<and> list_all2 (\<lambda>r r'. grounded_in u chunk (rk_description r) (rk_evidence r) (rk_evidence r')
        \<and> r' = r\<lparr>rk_evidence := rk_evidence r'\<rparr>) (cf_risks f0) (cf_risks f)"
proof -
  from assms obtain f0 where d: "decode (strip_to_json_object raw) = Inr f0"
    and f: "f = stamp_provenance u f0 chunk"
    by (auto simp: parse_findings_def split: sum.splits)
  show ?thesis
    by (rule exI [of _ f0], unfold f stamp_provenance_def, intro conjI)
      (simp_all add: d decision_item.ground_items action_item_ev.ground_items topic_item.ground_items
        question_item.ground_items risk_item.ground_items)
qed

definition demo_chunk :: chunk where
  "demo_chunk = make_chunk [demo_segment ''S1'' 10 20 ''we will ship friday''] (0, 0, 1)"

definition demo_findings :: chunk_findings where
  "demo_findings = \<lparr> cf_chunk_id = [], cf_topics = [],
     cf_decisions = [\<lparr> dc_decision = lit ''ship friday'', dc_context = None, dc_evidence = [],
       dc_confidence = None \<rparr>],
     cf_action_items = [], cf_open_questions = [], cf_risks = [] \<rparr>"

theorem parse_findings_grounded_witness:
  "\<exists>f d. parse_findings ascii_unicode (\<lambda>_. Inr demo_findings) (lit ''{}'') demo_chunk = Inr f
     \<and> cf_decisions f = [d] \<and> dc_evidence d \<noteq> []"
proof -
  obtain f where f: "parse_findings ascii_unicode (\<lambda>_. Inr demo_findings) (lit ''{}'') demo_chunk = Inr f"
    by (simp add: parse_findings_def)
  from parse_findings_grounded [OF f] obtain d where "cf_decisions f = [d]" "dc_evidence d \<noteq> []"
    by (auto simp: demo_findings_def grounded_in_def list_all2_Cons1)
  with f show ?thesis by blast
qed

text \<open>A malformed reply is never accepted: parsing succeeds exactly when the JSON decoder does on
  the braces-delimited part of the reply, and its error is reported as a parse error.\<close>

theorem parse_findings_error:
  "(parse_findings u decode raw chunk = Inl e \<longleftrightarrow>
      (\<exists>m. decode (strip_to_json_object raw) = Inl m \<and> e = AiParse m))
   \<and> (is_ok (parse_findings u decode raw chunk) \<longleftrightarrow> is_ok (decode (strip_to_json_object raw)))"
  by (auto simp: parse_findings_def split: sum.splits)

lemma find_char_append_notin: "c \<notin> set pre \<Longrightarrow> find_char c (pre @ c # s) = Some (length pre)"
  by (induction pre) auto

lemma rfind_char_append_notin:
  "c \<notin> set post \<Longrightarrow> rfind_char c (pre @ c # post) = Some (length pre)"
proof (induction pre)
  case Nil
  then show ?case using rfind_char_None [of c post] by simp
next
  case (Cons d pre)
  then show ?case by simp
qed

text \<open>A JSON object wrapped in prose or code fences without braces is recovered exactly.\<close>

theorem strip_to_json_object_unwraps:
  assumes "123 \<notin> set pre" "125 \<notin> set post"
  shows "strip_to_json_object (pre @ [123] @ body @ [125] @ post) = [123] @ body @ [125]"
proof -
  have "find_char 123 (pre @ 123 # body @ 125 # post) = Some (length pre)"
    by (rule find_char_append_notin) (rule assms)
  moreover have "rfind_char 125 ((pre @ 123 # body) @ 125 # post) = Some (length (pre @ 123 # body))"
    by (rule rfind_char_append_notin) (rule assms)
  ultimately show ?thesis
    by (simp add: strip_to_json_object_def subslice_def)
qed

theorem strip_to_json_object_unwraps_witness:
  "strip_to_json_object (lit ''Sure: '' @ [123] @ lit ''x'' @ [125] @ lit '' done'')
     = [123] @ lit ''x'' @ [125]"
  by (rule strip_to_json_object_unwraps) (simp_all add: lit_def)

text \<open>
  The stamping keeps a chunk id the reply carries: such evidence points to a chunk the excerpt did
  not come from, although the extraction prompt's schema does not offer the field.
\<close>

lemma model_chunk_id_survives:
  assumes "ev_chunk_id e = Some i" "trim (ev_quote e) \<noteq> []"
  shows "map ev_chunk_id (ground u [e] item_text chunk) = [Some i]"
  using assms by (simp add: ground_def has_real_quote_def fill_provenance_def)

end
