(* ===== verification/Ai_Synthesis.thy ===== *)
theory Ai_Synthesis
  imports Ai_Extraction
begin

text \<open>
  The synthesis pass (\<open>engine/src/ai/synthesis.rs\<close>) and the validation of its result
  (\<open>validation.rs\<close>): the deterministic reconciliation of the model's Meeting IR with the findings
  and the transcript. The similarity test divides word counts as doubles; since 0.34 is 17/50 and
  the quotient is correctly rounded, the test decides the exact comparison for any count a string
  in memory can reach, and the model states that comparison.
\<close>

section \<open>The request\<close>

definition synthesis_system_prompt :: ustr where
  "synthesis_system_prompt = lit (''You are Notely's meeting synthesis engine. You are given structured findings already ''
     @ ''extracted from a meeting transcript. Consolidate them into a single coherent Meeting IR: ''
     @ ''merge duplicates, group related items, and write a concise, neutral overall `summary`. ''
     @ ''Respond ONLY with a single JSON object matching the schema. Do not add information that is ''
     @ ''not present in the findings. Keep supporting `quote`s from the findings. If an action item's ''
     @ ''owner or deadline is not stated in the findings, use null '') @ [8212] @ lit '' never guess.''"

text \<open>The pretty-printed JSON of the findings is \<open>serde_json\<close>'s, the parameter \<open>pretty\<close>.\<close>

definition synthesis_build_prompt :: "(merged_findings \<Rightarrow> ustr) \<Rightarrow> merged_findings
    \<Rightarrow> analysis_context \<Rightarrow> ustr" where
  "synthesis_build_prompt pretty merged context =
     (case cx_title context of None \<Rightarrow> []
      | Some title \<Rightarrow> lit ''Meeting title: '' @ title @ [nl, nl])
     @ lit ''Findings extracted from the transcript (source of truth):'' @ [nl]
     @ pretty merged
     @ [nl, nl] @ lit (''Consolidate these into the Meeting IR JSON. Merge duplicate decisions/action items/''
         @ ''topics. Write a concise neutral `summary`. Do not invent owners or deadlines; use null ''
         @ ''when unknown.'')"

definition synthesis_build_request :: "(merged_findings \<Rightarrow> ustr) \<Rightarrow> merged_findings
    \<Rightarrow> analysis_context \<Rightarrow> generate_request" where
  "synthesis_build_request pretty merged context =
     with_temperature 0x3E99999A
       (with_format ir_schema
         (with_system synthesis_system_prompt
           (request_new (synthesis_build_prompt pretty merged context))))"

definition parse_ir :: "(ustr \<Rightarrow> ustr + meeting_ir) \<Rightarrow> ustr \<Rightarrow> ai_error + meeting_ir" where
  "parse_ir decode raw = map_err AiParse (decode (strip_to_json_object raw))"

section \<open>Reconciliation\<close>

text \<open>\<open>normalize\<close> of the source, on one item's text.\<close>

definition normalize_words :: "unicode \<Rightarrow> ustr \<Rightarrow> ustr" where
  "normalize_words u s =
     collapse_whitespace (map (\<lambda>c. if is_alphanumeric u c then c else space) (to_lowercase u s))"

definition similar :: "unicode \<Rightarrow> ustr \<Rightarrow> ustr \<Rightarrow> bool" where
  "similar u a b =
     (let na = normalize_words u a; nb = normalize_words u b in
      if na = [] \<or> nb = [] then False
      else if str_contains na nb \<or> str_contains nb na then True
      else let sa = set (split_on (\<lambda>c. c = space) na);
               sb = set (split_on (\<lambda>c. c = space) nb);
               inter = card (sa \<inter> sb);
               union = max (card (sa \<union> sb)) 1
           in 100 * inter \<ge> 34 * union)"

fun matched_evidence :: "unicode \<Rightarrow> ustr \<Rightarrow> (ustr \<times> evidence list) list \<Rightarrow> evidence list" where
  "matched_evidence u needle [] = []"
| "matched_evidence u needle ((text, evs) # sources) =
     (if similar u needle text then evs @ matched_evidence u needle sources
      else matched_evidence u needle sources)"

definition evidence_key :: "evidence \<Rightarrow> ustr \<times> ustr" where
  "evidence_key ev = (ev_quote ev, (case ev_chunk_id ev of Some i \<Rightarrow> i | None \<Rightarrow> []))"

fun dedup_loop :: "(ustr \<times> ustr) set \<Rightarrow> evidence list \<Rightarrow> evidence list" where
  "dedup_loop seen [] = []"
| "dedup_loop seen (ev # evs) =
     (if evidence_key ev \<in> seen then dedup_loop seen evs
      else ev # dedup_loop (insert (evidence_key ev) seen) evs)"

definition attach :: "evidence list \<Rightarrow> evidence list \<Rightarrow> evidence list" where
  "attach target found = (if found = [] then target else dedup_loop {} found)"

fun find_map :: "('a \<Rightarrow> 'b option) \<Rightarrow> 'a list \<Rightarrow> 'b option" where
  "find_map f [] = None"
| "find_map f (x # xs) = (case f x of Some y \<Rightarrow> Some y | None \<Rightarrow> find_map f xs)"

definition or_else :: "'a option \<Rightarrow> 'a option \<Rightarrow> 'a option" where
  "or_else a b = (case a of Some x \<Rightarrow> Some x | None \<Rightarrow> b)"

definition guard_field :: "unicode \<Rightarrow> ustr option \<Rightarrow> 'a list \<Rightarrow> ('a \<Rightarrow> ustr option) \<Rightarrow> ustr
    \<Rightarrow> ustr option" where
  "guard_field u field_value sources field_of transcript_lower =
     (case field_value of None \<Rightarrow> None
      | Some val \<Rightarrow>
          let v = trim val in
          if v = [] then None
          else let vl = to_lowercase u v;
                   from_source = (\<exists>s \<in> set sources. case field_of s of
                       Some f \<Rightarrow> eq_ignore_ascii_case (trim f) v | None \<Rightarrow> False)
               in if from_source \<or> str_contains transcript_lower vl then Some val else None)"

definition transcript_lower :: "unicode \<Rightarrow> transcript \<Rightarrow> ustr" where
  "transcript_lower u t = str_join [space] (map (\<lambda>s. to_lowercase u (sg_text s)) (tr_segments t))"

text \<open>The backfill loop over the transcript's speakers.\<close>

fun backfill :: "participant list \<Rightarrow> ustr list \<Rightarrow> participant list" where
  "backfill ps [] = ps"
| "backfill ps (speaker # speakers) =
     backfill (if \<exists>p \<in> set ps. pt_id p = speaker then ps else ps @ [participant_new speaker]) speakers"

definition reconcile_action :: "unicode \<Rightarrow> merged_findings \<Rightarrow> ustr \<Rightarrow> action_item \<Rightarrow> action_item" where
  "reconcile_action u merged lowered a =
     (let sources = filter (\<lambda>s. similar u (ai_description a) (ai_description s))
            (mf_action_items merged);
          ev = concat (map ai_evidence sources);
          finding_owner = find_map ai_owner sources;
          finding_deadline = find_map ai_deadline sources
      in a\<lparr> ai_evidence := attach (ai_evidence a) ev,
            ai_owner := guard_field u (or_else (ai_owner a) finding_owner) sources ai_owner lowered,
            ai_deadline := guard_field u (or_else (ai_deadline a) finding_deadline) sources
              ai_deadline lowered \<rparr>)"

definition reconcile :: "unicode \<Rightarrow> meeting_ir \<Rightarrow> merged_findings \<Rightarrow> transcript \<Rightarrow> meeting_ir" where
  "reconcile u ir merged transcript =
     ir\<lparr> ir_summary := trim (ir_summary ir),
         ir_participants := backfill (ir_participants ir) (speaker_ids transcript),
         ir_decisions := map (\<lambda>d. d\<lparr>dc_evidence := attach (dc_evidence d)
             (matched_evidence u (dc_decision d)
               (map (\<lambda>x. (dc_decision x, dc_evidence x)) (mf_decisions merged)))\<rparr>) (ir_decisions ir),
         ir_topics := map (\<lambda>t. t\<lparr>tp_evidence := attach (tp_evidence t)
             (matched_evidence u (tp_title t)
               (map (\<lambda>x. (tp_title x, tp_evidence x)) (mf_topics merged)))\<rparr>) (ir_topics ir),
         ir_open_questions := map (\<lambda>q. q\<lparr>oq_evidence := attach (oq_evidence q)
             (matched_evidence u (oq_question q)
               (map (\<lambda>x. (oq_question x, oq_evidence x)) (mf_open_questions merged)))\<rparr>)
             (ir_open_questions ir),
         ir_risks := map (\<lambda>r. r\<lparr>rk_evidence := attach (rk_evidence r)
             (matched_evidence u (rk_description r)
               (map (\<lambda>x. (rk_description x, rk_evidence x)) (mf_risks merged)))\<rparr>) (ir_risks ir),
         ir_action_items := map (reconcile_action u merged (transcript_lower u transcript))
             (ir_action_items ir) \<rparr>"

text \<open>The fields of the reconciled IR.\<close>

lemma reconcile_fields:
  "ir_summary (reconcile u ir merged t) = trim (ir_summary ir)"
  "ir_participants (reconcile u ir merged t) = backfill (ir_participants ir) (speaker_ids t)"
  "ir_decisions (reconcile u ir merged t) = map (\<lambda>d. d\<lparr>dc_evidence := attach (dc_evidence d)
     (matched_evidence u (dc_decision d) (map (\<lambda>x. (dc_decision x, dc_evidence x)) (mf_decisions merged)))\<rparr>)
     (ir_decisions ir)"
  "ir_topics (reconcile u ir merged t) = map (\<lambda>d. d\<lparr>tp_evidence := attach (tp_evidence d)
     (matched_evidence u (tp_title d) (map (\<lambda>x. (tp_title x, tp_evidence x)) (mf_topics merged)))\<rparr>)
     (ir_topics ir)"
  "ir_open_questions (reconcile u ir merged t) = map (\<lambda>d. d\<lparr>oq_evidence := attach (oq_evidence d)
     (matched_evidence u (oq_question d) (map (\<lambda>x. (oq_question x, oq_evidence x)) (mf_open_questions merged)))\<rparr>)
     (ir_open_questions ir)"
  "ir_risks (reconcile u ir merged t) = map (\<lambda>d. d\<lparr>rk_evidence := attach (rk_evidence d)
     (matched_evidence u (rk_description d) (map (\<lambda>x. (rk_description x, rk_evidence x)) (mf_risks merged)))\<rparr>)
     (ir_risks ir)"
  "ir_action_items (reconcile u ir merged t)
     = map (reconcile_action u merged (transcript_lower u t)) (ir_action_items ir)"
  by (simp_all add: reconcile_def)

section \<open>Validation\<close>

text \<open>One loop of \<open>validate\<close>: an error per item whose text is blank, with its index.\<close>

definition blank_errors :: "string \<Rightarrow> string \<Rightarrow> ustr list \<Rightarrow> ustr list" where
  "blank_errors coll field texts =
     List.map_filter (\<lambda>(i, t). if trim t = []
       then Some (lit coll @ lit ''['' @ show_nat i @ lit '']'' @ lit field @ lit '' must not be empty'')
       else None) (enumerate 0 texts)"

definition validation_errors :: "meeting_ir \<Rightarrow> ustr list" where
  "validation_errors ir =
     (if trim (ir_summary ir) = [] then [lit ''summary must not be empty''] else [])
     @ blank_errors ''decisions'' ''.decision'' (map dc_decision (ir_decisions ir))
     @ blank_errors ''action_items'' ''.description'' (map ai_description (ir_action_items ir))
     @ blank_errors ''topics'' ''.title'' (map tp_title (ir_topics ir))
     @ blank_errors ''open_questions'' ''.question'' (map oq_question (ir_open_questions ir))
     @ blank_errors ''risks'' ''.description'' (map rk_description (ir_risks ir))"

definition validate :: "meeting_ir \<Rightarrow> ustr list + unit" where
  "validate ir = (let errors = validation_errors ir in if errors = [] then Inr () else Inl errors)"

lemma length_blank_errors_from:
  "length (List.map_filter (\<lambda>(i, t). if trim t = [] then Some (g i) else None) (enumerate k texts))
     = length (filter (\<lambda>t. trim t = []) texts)"
  by (induction texts arbitrary: k) (auto simp: List.map_filter_simps)

lemma length_blank_errors:
  "length (blank_errors coll field texts) = length (filter (\<lambda>t. trim t = []) texts)"
  unfolding blank_errors_def by (rule length_blank_errors_from)

lemma blank_errors_Nil: "blank_errors coll field texts = [] \<longleftrightarrow> (\<forall>t \<in> set texts. trim t \<noteq> [])"
proof -
  have "blank_errors coll field texts = [] \<longleftrightarrow> length (blank_errors coll field texts) = 0" by simp
  then show ?thesis unfolding length_blank_errors by (simp add: filter_empty_conv)
qed

text \<open>The texts an acceptable Meeting IR may not leave blank.\<close>

definition required_texts :: "meeting_ir \<Rightarrow> ustr list" where
  "required_texts ir = ir_summary ir # map dc_decision (ir_decisions ir)
     @ map ai_description (ir_action_items ir) @ map tp_title (ir_topics ir)
     @ map oq_question (ir_open_questions ir) @ map rk_description (ir_risks ir)"

lemma length_validation_errors:
  "length (validation_errors ir) = length (filter (\<lambda>t. trim t = []) (required_texts ir))"
  unfolding validation_errors_def required_texts_def
  by (simp only: length_append length_blank_errors filter.simps filter_append length_map
      list.size add_0 if_distrib [of length] split: if_split) simp

lemma validation_errors_Nil_iff:
  "validation_errors ir = [] \<longleftrightarrow> list_all (\<lambda>t. trim t \<noteq> []) (required_texts ir)"
proof -
  have "validation_errors ir = [] \<longleftrightarrow> filter (\<lambda>t. trim t = []) (required_texts ir) = []"
    unfolding length_0_conv [symmetric] length_validation_errors ..
  then show ?thesis by (simp only: list_all_iff filter_empty_conv)
qed

lemma validate_ok_iff: "validate ir = Inr () \<longleftrightarrow> list_all (\<lambda>t. trim t \<noteq> []) (required_texts ir)"
  unfolding validation_errors_Nil_iff [symmetric] by (auto simp only: validate_def Let_def split: if_splits)

text \<open>Validation accepts a Meeting IR exactly when its summary and every item's text are
  non-blank, and otherwise reports exactly one error for each blank text, not just the first.\<close>

theorem validate_complete:
  "(validate ir = Inr () \<longleftrightarrow> list_all (\<lambda>t. trim t \<noteq> []) (required_texts ir))
   \<and> (case validate ir of Inr _ \<Rightarrow> True
      | Inl errors \<Rightarrow> length errors = length (filter (\<lambda>t. trim t = []) (required_texts ir))
          \<and> errors \<noteq> [])"
  using length_validation_errors [of ir] validate_ok_iff [of ir]
  by (auto simp only: validate_def Let_def sum.case split: if_splits)

section \<open>Similarity\<close>

lemma similar_sym: "similar u a b = similar u b a"
  by (simp add: similar_def Let_def Int_commute Un_commute disj_commute conj_commute)

lemma similar_refl: "normalize_words u a \<noteq> [] \<Longrightarrow> similar u a a"
  by (simp add: similar_def Let_def str_contains_iff)

lemma normalize_words_Nil_iff:
  "normalize_words u a = [] \<longleftrightarrow>
     (\<forall>c \<in> set (to_lowercase u a). is_alphanumeric u c \<longrightarrow> is_whitespace c)"
  by (auto simp: normalize_words_def collapse_whitespace_eq_Nil split_whitespace_Nil_iff)

section \<open>Evidence\<close>

lemma matched_evidence_eq:
  "matched_evidence u needle sources = concat (map snd (filter (\<lambda>s. similar u needle (fst s)) sources))"
  by (induction u needle sources rule: matched_evidence.induct) simp_all

text \<open>The evidence of the findings similar to an item.\<close>

definition evidence_of_similar :: "unicode \<Rightarrow> ('i \<Rightarrow> ustr) \<Rightarrow> ('i \<Rightarrow> evidence list) \<Rightarrow> ustr \<Rightarrow> 'i list
    \<Rightarrow> evidence list" where
  "evidence_of_similar u text_of ev_of needle found =
     concat (map ev_of (filter (\<lambda>x. similar u needle (text_of x)) found))"

lemma matched_evidence_of_similar:
  "matched_evidence u needle (map (\<lambda>x. (text_of x, ev_of x)) found)
     = evidence_of_similar u text_of ev_of needle found"
  by (simp add: matched_evidence_eq evidence_of_similar_def filter_map comp_def)

lemma dedup_loop_set: "set (dedup_loop seen evs) \<subseteq> set evs"
  by (induction evs arbitrary: seen) auto

lemma dedup_loop_keys:
  "evidence_key ` set (dedup_loop seen evs) = evidence_key ` set evs - seen"
  by (induction evs arbitrary: seen) auto

lemma dedup_loop_distinct: "distinct (map evidence_key (dedup_loop seen evs))"
proof (induction evs arbitrary: seen)
  case Nil
  then show ?case by simp
next
  case (Cons e evs)
  have "evidence_key e \<notin> evidence_key ` set (dedup_loop (insert (evidence_key e) seen) evs)"
    by (simp add: dedup_loop_keys)
  then show ?case using Cons by simp
qed

text \<open>
  What reconciliation leaves as an item's evidence: if a similar finding carries evidence, the
  findings' evidence without repetition of a quote of the same chunk; else the item's own.
\<close>

definition reattached :: "evidence list \<Rightarrow> evidence list \<Rightarrow> evidence list \<Rightarrow> bool" where
  "reattached given found result \<longleftrightarrow>
     (if found = [] then result = given
      else set result \<subseteq> set found \<and> distinct (map evidence_key result)
        \<and> evidence_key ` set result = evidence_key ` set found)"

lemma attach_reattached: "reattached given found (attach given found)"
  using dedup_loop_set [of "{}" found] dedup_loop_distinct [of "{}" found]
    dedup_loop_keys [of "{}" found]
  by (simp add: reattached_def attach_def)

context evidence_item
begin

lemma attach_items:
  "list_all2 (\<lambda>i i'. reattached (ev_of i) (found i) (ev_of i') \<and> i' = with_ev (ev_of i') i)
     items (map (\<lambda>i. with_ev (attach (ev_of i) (found i)) i) items)"
  by (induction items) (auto simp: ev_of_with_ev attach_reattached)

end

text \<open>The findings an action item of the synthesised IR is matched with.\<close>

definition action_sources :: "unicode \<Rightarrow> merged_findings \<Rightarrow> action_item \<Rightarrow> action_item list" where
  "action_sources u merged a =
     filter (\<lambda>s. similar u (ai_description a) (ai_description s)) (mf_action_items merged)"


text \<open>
  So a decision that resembles no finding keeps whatever quote, chunk and times the synthesis model
  wrote beside it.
\<close>

lemma unmatched_evidence_survives:
  assumes "\<forall>f \<in> set (mf_decisions merged). \<not> similar u (dc_decision d) (dc_decision f)"
    and "d \<in> set (ir_decisions ir)"
  shows "d \<in> set (ir_decisions (reconcile u ir merged t))"
proof -
  have "evidence_of_similar u dc_decision dc_evidence (dc_decision d) (mf_decisions merged) = []"
    using assms(1) by (simp add: evidence_of_similar_def filter_empty_conv)
  then show ?thesis using assms(2) unfolding reconcile_fields matched_evidence_of_similar
    by (auto simp: attach_def image_iff intro!: bexI [of _ d])
qed

section \<open>Owners and deadlines\<close>

text \<open>A value is supported by a field of the sources or verbatim (up to case) by the transcript.\<close>

definition supported :: "unicode \<Rightarrow> 'a list \<Rightarrow> ('a \<Rightarrow> ustr option) \<Rightarrow> ustr \<Rightarrow> ustr \<Rightarrow> bool" where
  "supported u sources field_of lowered val \<longleftrightarrow> trim val \<noteq> []
     \<and> ((\<exists>s \<in> set sources. \<exists>f. field_of s = Some f \<and> eq_ignore_ascii_case (trim f) (trim val))
        \<or> sublist (to_lowercase u (trim val)) lowered)"

lemma guard_field_iff:
  "guard_field u v sources field_of lowered =
     (case v of Some val \<Rightarrow> if supported u sources field_of lowered val then Some val else None
      | None \<Rightarrow> None)"
  by (auto simp: guard_field_def supported_def Let_def str_contains_iff split: option.splits)

lemma find_map_Some: "find_map f xs = Some y \<Longrightarrow> \<exists>x \<in> set xs. f x = Some y"
  by (induction xs) (auto split: option.splits)

lemma supported_source:
  "s \<in> set sources \<Longrightarrow> field_of s = Some f \<Longrightarrow> trim f \<noteq> [] \<Longrightarrow> supported u sources field_of lowered f"
  by (auto simp: supported_def eq_ignore_ascii_case_def)

text \<open>C23. Owners and deadlines are never invented: whatever the synthesis model wrote, an action
  item of the reconciled IR has an owner (deadline) only if a similar extraction finding states it
  or it occurs in the transcript, and a supported value the model gave is kept as it is; when the
  model gave none, the first similar finding that states one supplies it.\<close>

theorem reconcile_no_invented_owner:
  "list_all2 (\<lambda>a a'.
       ai_owner a' = (case or_else (ai_owner a) (find_map ai_owner (action_sources u merged a)) of
          Some w \<Rightarrow> if supported u (action_sources u merged a) ai_owner (transcript_lower u t) w
                    then Some w else None
        | None \<Rightarrow> None)
     \<and> ai_deadline a' = (case or_else (ai_deadline a) (find_map ai_deadline (action_sources u merged a)) of
          Some d \<Rightarrow> if supported u (action_sources u merged a) ai_deadline (transcript_lower u t) d
                    then Some d else None
        | None \<Rightarrow> None)
     \<and> ai_description a' = ai_description a \<and> ai_status a' = ai_status a
     \<and> reattached (ai_evidence a) (concat (map ai_evidence (action_sources u merged a))) (ai_evidence a'))
     (ir_action_items ir) (ir_action_items (reconcile u ir merged t))"
  unfolding reconcile_fields
  by (rule list_all2_map_self)
    (simp add: reconcile_action_def Let_def guard_field_iff attach_reattached
      flip: action_sources_def)

section \<open>Participants\<close>

lemma backfill_prefix: "prefix ps (backfill ps speakers)"
proof (induction speakers arbitrary: ps)
  case Nil
  then show ?case by simp
next
  case (Cons s speakers)
  have "prefix ps (ps @ [participant_new s])" by simp
  from prefix_order.order_trans [OF this Cons]
  show ?case by (simp add: Cons)
qed

lemma backfill_ids: "pt_id ` set (backfill ps speakers) = pt_id ` set ps \<union> set speakers"
  by (induction speakers arbitrary: ps) (auto simp: participant_new_def)

lemma backfill_length:
  "distinct speakers \<Longrightarrow> length (backfill ps speakers)
     = length ps + length (filter (\<lambda>s. s \<notin> pt_id ` set ps) speakers)"
proof (induction speakers arbitrary: ps)
  case Nil
  then show ?case by simp
next
  case (Cons s speakers)
  have "filter (\<lambda>x. x \<noteq> s \<and> x \<notin> pt_id ` set ps) speakers
      = filter (\<lambda>x. x \<notin> pt_id ` set ps) speakers"
    using Cons.prems by (intro filter_cong) auto
  then show ?case using Cons by (auto simp: participant_new_def image_iff)
qed

text \<open>Participants are backfilled: the model's participants stay in front in their order, every
  speaker of the transcript is a participant afterwards, nobody else is added, and a speaker who
  was already listed is not added again.\<close>

theorem reconcile_participants:
  "prefix (ir_participants ir) (ir_participants (reconcile u ir merged t))
   \<and> pt_id ` set (ir_participants (reconcile u ir merged t))
       = pt_id ` set (ir_participants ir) \<union> set (speaker_ids t)
   \<and> length (ir_participants (reconcile u ir merged t)) = length (ir_participants ir)
       + length (filter (\<lambda>s. s \<notin> pt_id ` set (ir_participants ir)) (speaker_ids t))"
  by (simp add: reconcile_fields backfill_prefix backfill_ids backfill_length distinct_speaker_ids)

text \<open>
  A participant the synthesis model made up therefore survives reconciliation, whoever speaks in
  the transcript: the model's list is extended, never checked.
\<close>

lemma invented_participant_survives:
  "p \<in> set (ir_participants ir) \<Longrightarrow> p \<in> set (ir_participants (reconcile u ir merged t))"
  using set_mono_prefix [OF backfill_prefix, of "ir_participants ir" "speaker_ids t"]
  by (auto simp: reconcile_fields)

end
