(* ===== verification/Ai_Analyze.thy ===== *)
theory Ai_Analyze
  imports Ai_Synthesis
begin

text \<open>
  The two-pass analysis (\<open>engine/src/ai/mod.rs\<close> and the trait of \<open>provider.rs\<close>): one extraction call
  per chunk, one synthesis call, each with a single repair attempt, then validation. The LLM and
  the JSON text layer are parameters. \<open>ai_analysis\<close> is the contract of an analyzer; the pipeline
  relies on nothing else.
\<close>

section \<open>The analyzer\<close>

text \<open>\<open>AiAnalyzer\<close>: the two passes, with the effects of the calls they make.\<close>

record 's ai_analyzer =
  extract_chunk :: "chunk \<Rightarrow> analysis_context \<Rightarrow> ('s, ai_error, chunk_findings) effect"
  synthesize :: "chunk_findings list \<Rightarrow> transcript \<Rightarrow> analysis_context \<Rightarrow> ('s, ai_error, meeting_ir) effect"

text \<open>The text layer of \<open>serde_json\<close> for the types the passes read and write.\<close>

record json_text =
  findings_of_text :: "ustr \<Rightarrow> ustr + chunk_findings"
  ir_of_text :: "ustr \<Rightarrow> ustr + meeting_ir"
  text_of_findings :: "merged_findings \<Rightarrow> ustr"

record 's llm_ai_engine =
  la_llm :: "'s llm_generate"
  la_extraction_model :: "ustr option"
  la_synthesis_model :: "ustr option"

definition llm_ai_engine_new :: "'s llm_generate \<Rightarrow> 's llm_ai_engine" where
  "llm_ai_engine_new llm = \<lparr> la_llm = llm, la_extraction_model = None, la_synthesis_model = None \<rparr>"

definition with_models :: "ustr option \<Rightarrow> ustr option \<Rightarrow> 's llm_ai_engine \<Rightarrow> 's llm_ai_engine" where
  "with_models em sm e = e\<lparr> la_extraction_model := em, la_synthesis_model := sm \<rparr>"

definition retry_reminder :: ustr where
  "retry_reminder = [nl, nl] @ lit (''IMPORTANT: your previous reply was not valid JSON. Reply with ''
     @ ''ONLY the JSON object, no prose or code fences.'')"

definition retry_request :: "generate_request \<Rightarrow> generate_request" where
  "retry_request r = r\<lparr> rq_prompt := rq_prompt r @ retry_reminder \<rparr>"

text \<open>\<open>generate_parsed\<close>: on a parse failure, one more call with the reminder appended.\<close>

definition generate_parsed :: "'s llm_generate \<Rightarrow> generate_request \<Rightarrow> (ustr \<Rightarrow> ai_error + 'a)
    \<Rightarrow> ('s, ai_error, 'a) effect" where
  "generate_parsed llm request parse =
     bindE (map_errE AiLlm (llm request)) (\<lambda>response.
       case parse (rs_text response) of
         Inr v \<Rightarrow> okE v
       | Inl _ \<Rightarrow> bindE (map_errE AiLlm (llm (retry_request request))) (\<lambda>response.
           case parse (rs_text response) of Inr v \<Rightarrow> okE v | Inl e \<Rightarrow> errE e))"

definition with_default_model :: "ustr option \<Rightarrow> generate_request \<Rightarrow> generate_request" where
  "with_default_model m r = (if rq_model r = None then r\<lparr>rq_model := m\<rparr> else r)"

definition llm_extract_chunk :: "unicode \<Rightarrow> json_text \<Rightarrow> 's llm_ai_engine \<Rightarrow> chunk
    \<Rightarrow> analysis_context \<Rightarrow> ('s, ai_error, chunk_findings) effect" where
  "llm_extract_chunk u js e chunk context =
     generate_parsed (la_llm e)
       (with_default_model (la_extraction_model e) (extraction_build_request chunk context))
       (\<lambda>raw. parse_findings u (findings_of_text js) raw chunk)"

definition llm_synthesize :: "unicode \<Rightarrow> json_text \<Rightarrow> 's llm_ai_engine \<Rightarrow> chunk_findings list
    \<Rightarrow> transcript \<Rightarrow> analysis_context \<Rightarrow> ('s, ai_error, meeting_ir) effect" where
  "llm_synthesize u js e findings transcript context =
     (let merged = from_chunks findings;
          request = with_default_model (la_synthesis_model e)
            (synthesis_build_request (text_of_findings js) merged context)
      in bindE (generate_parsed (la_llm e) request (parse_ir (ir_of_text js)))
           (\<lambda>ir. okE (reconcile u ir merged transcript)))"

definition llm_analyzer :: "unicode \<Rightarrow> json_text \<Rightarrow> 's llm_ai_engine \<Rightarrow> 's ai_analyzer" where
  "llm_analyzer u js e = \<lparr> extract_chunk = llm_extract_chunk u js e, synthesize = llm_synthesize u js e \<rparr>"

section \<open>The analysis\<close>

fun extract_all :: "'s ai_analyzer \<Rightarrow> analysis_context \<Rightarrow> chunk list
    \<Rightarrow> ('s, ai_error, chunk_findings list) effect" where
  "extract_all ai context [] = okE []"
| "extract_all ai context (chunk # chunks) =
     bindE (extract_chunk ai chunk context) (\<lambda>f.
       bindE (extract_all ai context chunks) (\<lambda>fs. okE (f # fs)))"

definition empty_ir :: meeting_ir where
  "empty_ir = meeting_ir_default\<lparr> ir_summary := lit ''No transcript content was available to analyze.'' \<rparr>"

definition analyze :: "'s ai_analyzer \<Rightarrow> prepared_transcript \<Rightarrow> analysis_context
    \<Rightarrow> ('s, ai_error, meeting_ir) effect" where
  "analyze ai prepared context =
     (if pr_chunks prepared = [] then okE empty_ir
      else bindE (extract_all ai context (pr_chunks prepared)) (\<lambda>findings.
        bindE (synthesize ai findings (pr_normalized prepared) context) (\<lambda>ir.
          case validate ir of
            Inr _ \<Rightarrow> okE ir
          | Inl errs \<Rightarrow> errE (AiValidation (str_join (lit ''; '') errs)))))"

section \<open>The contract of an analyzer\<close>

text \<open>
  What the pipeline may rely on: findings are \<open>found\<close> in their chunk, the IR is \<open>made\<close> from the
  findings and the transcript. \<open>extract_all\<close> then gives findings for every chunk in order, and an
  analysis that succeeds is validated and made from them.
\<close>

locale ai_analysis =
  fixes ai :: "'s ai_analyzer"
    and found :: "chunk \<Rightarrow> chunk_findings \<Rightarrow> bool"
    and made :: "chunk_findings list \<Rightarrow> transcript \<Rightarrow> meeting_ir \<Rightarrow> bool"
  assumes extract_found: "extract_chunk ai chunk context s = (Inr f, s') \<Longrightarrow> found chunk f"
    and synthesize_made: "synthesize ai fs t context s = (Inr ir, s') \<Longrightarrow> made fs t ir"
begin

lemma extract_all_found:
  "extract_all ai context chunks s = (Inr fs, s') \<Longrightarrow> list_all2 found chunks fs"
proof (induction chunks arbitrary: s fs)
  case Nil
  then show ?case by (simp add: okE_def)
next
  case (Cons chunk chunks)
  then show ?case
    by (auto simp: effect_defs split: prod.splits sum.splits dest: extract_found)
qed

lemma analyze_made:
  assumes "analyze ai prepared context s = (Inr ir, s')" "pr_chunks prepared \<noteq> []"
  shows "\<exists>fs. list_all2 found (pr_chunks prepared) fs \<and> made fs (pr_normalized prepared) ir
    \<and> validate ir = Inr ()"
  using assms extract_all_found synthesize_made
  by (fastforce simp: analyze_def effect_defs split: prod.splits sum.splits)

end

section \<open>The repair path\<close>

text \<open>The calls a generation makes, recorded with their replies.\<close>

type_synonym llm_call = "generate_request \<times> (llm_error + generate_response)"

definition recorded :: "'s llm_generate \<Rightarrow> (llm_call list \<times> 's) llm_generate" where
  "recorded llm r st = (case llm r (snd st) of (x, s') \<Rightarrow> (x, (fst st @ [(r, x)], s')))"

text \<open>A conversation: one call, or a second one with the reminder after an unparsable reply.\<close>

definition conversation :: "(ustr \<Rightarrow> ai_error + 'a) \<Rightarrow> generate_request \<Rightarrow> llm_call list
    \<Rightarrow> ai_error + 'a \<Rightarrow> bool" where
  "conversation parse request calls result \<longleftrightarrow>
     (\<exists>e. calls = [(request, Inl e)] \<and> result = Inl (AiLlm e))
     \<or> (\<exists>reply. calls = [(request, Inr reply)] \<and> is_ok (parse (rs_text reply))
          \<and> result = parse (rs_text reply))
     \<or> (\<exists>bad final. calls = [(request, Inr bad), (retry_request request, final)]
          \<and> \<not> is_ok (parse (rs_text bad))
          \<and> result = (case final of Inl e \<Rightarrow> Inl (AiLlm e) | Inr reply \<Rightarrow> parse (rs_text reply)))"

text \<open>The repair path: generating a parsed reply makes one LLM call, or two when the first reply
  does not parse, the second being the same request with the reminder appended; the result is the
  parse of the last reply, so a reply that does not parse is never accepted, and an LLM error ends it.\<close>

theorem generate_parsed_conversation:
  "\<exists>calls result s'. generate_parsed (recorded llm) request parse (calls0, s) = (result, (calls0 @ calls, s'))
     \<and> conversation parse request calls result"
proof -
  obtain x1 s1 where 1: "llm request s = (x1, s1)" by (cases "llm request s")
  obtain x2 s2 where 2: "llm (retry_request request) s1 = (x2, s2)"
    by (cases "llm (retry_request request) s1")
  note [simp] = generate_parsed_def effect_defs recorded_def conversation_def 1 2
  show ?thesis
  proof (cases x1)
    case (Inr bad)
    show ?thesis
    proof (cases "parse (rs_text bad)")
      case Inl: (Inl e)
      show ?thesis
      proof (cases x2)
        case r: (Inr reply)
        show ?thesis using Inr Inl r by (cases "parse (rs_text reply)") simp_all
      qed (use Inr Inl in simp)
    qed (use Inr in simp)
  qed simp
qed

section \<open>The calls of an analysis\<close>

definition attempts :: "generate_request \<Rightarrow> llm_call list \<Rightarrow> bool" where
  "attempts request calls \<longleftrightarrow>
     (\<exists>x. calls = [(request, x)]) \<or> (\<exists>x y. calls = [(request, x), (retry_request request, y)])"

lemma generate_parsed_attempts:
  "\<exists>calls result s'. generate_parsed (recorded llm) request parse (calls0, s)
       = (result, (calls0 @ calls, s')) \<and> attempts request calls"
  unfolding generate_parsed_def effect_defs recorded_def attempts_def
  by (auto split: sum.splits prod.splits)

definition recorded_engine :: "'s llm_generate \<Rightarrow> ustr option \<Rightarrow> ustr option
    \<Rightarrow> (llm_call list \<times> 's) llm_ai_engine" where
  "recorded_engine llm em sm = with_models em sm (llm_ai_engine_new (recorded llm))"

definition extraction_request :: "ustr option \<Rightarrow> analysis_context \<Rightarrow> chunk \<Rightarrow> generate_request" where
  "extraction_request em context chunk = with_default_model em (extraction_build_request chunk context)"

definition synthesis_request :: "json_text \<Rightarrow> ustr option \<Rightarrow> analysis_context \<Rightarrow> chunk_findings list
    \<Rightarrow> generate_request" where
  "synthesis_request js sm context fs =
     with_default_model sm (synthesis_build_request (text_of_findings js) (from_chunks fs) context)"

lemma extract_chunk_attempts:
  "\<exists>calls result s'. extract_chunk (llm_analyzer u js (recorded_engine llm em sm)) chunk context (calls0, s)
       = (result, (calls0 @ calls, s')) \<and> attempts (extraction_request em context chunk) calls"
  using generate_parsed_attempts [of llm "extraction_request em context chunk" _ calls0 s]
  by (simp add: llm_analyzer_def llm_extract_chunk_def recorded_engine_def with_models_def
      llm_ai_engine_new_def extraction_request_def)

lemma synthesize_attempts:
  "\<exists>calls result s'. synthesize (llm_analyzer u js (recorded_engine llm em sm)) fs t context (calls0, s)
       = (result, (calls0 @ calls, s')) \<and> attempts (synthesis_request js sm context fs) calls"
proof -
  obtain calls result s' where
    "generate_parsed (recorded llm) (synthesis_request js sm context fs) (parse_ir (ir_of_text js)) (calls0, s)
       = (result, (calls0 @ calls, s'))" and a: "attempts (synthesis_request js sm context fs) calls"
    using generate_parsed_attempts by metis
  then have "synthesize (llm_analyzer u js (recorded_engine llm em sm)) fs t context (calls0, s)
      = (map_result (\<lambda>ir. reconcile u ir (from_chunks fs) t) result, (calls0 @ calls, s'))"
    by (cases result) (simp_all add: llm_analyzer_def llm_synthesize_def recorded_engine_def
        with_models_def llm_ai_engine_new_def synthesis_request_def Let_def bindE_def okE_def)
  with a show ?thesis by blast
qed

lemma extract_all_attempts:
  "\<exists>css result s'. extract_all (llm_analyzer u js (recorded_engine llm em sm)) context chunks (calls0, s)
       = (result, (calls0 @ concat css, s'))
     \<and> list_all2 attempts (take (length css) (map (extraction_request em context) chunks)) css
     \<and> (is_ok result \<longrightarrow> length css = length chunks)"
proof (induction chunks arbitrary: calls0 s)
  case Nil
  show ?case by (rule exI [of _ "[]"]) (simp add: okE_def)
next
  case (Cons chunk chunks)
  obtain calls result s' where
    x: "extract_chunk (llm_analyzer u js (recorded_engine llm em sm)) chunk context (calls0, s)
       = (result, (calls0 @ calls, s'))"
    and a: "attempts (extraction_request em context chunk) calls"
    using extract_chunk_attempts by metis
  obtain css rest s'' where
    xs: "extract_all (llm_analyzer u js (recorded_engine llm em sm)) context chunks (calls0 @ calls, s')
       = (rest, ((calls0 @ calls) @ concat css, s''))"
    and as: "list_all2 attempts (take (length css) (map (extraction_request em context) chunks)) css"
      "is_ok rest \<longrightarrow> length css = length chunks"
    using Cons.IH by blast
  show ?case
  proof (cases result)
    case (Inl e)
    then show ?thesis using x a by (intro exI [of _ "[calls]"]) (simp add: bindE_def)
  next
    case (Inr f)
    then show ?thesis using x xs a as
      by (intro exI [of _ "calls # css"]) (cases rest; simp add: bindE_def okE_def)
  qed
qed


section \<open>Provenance of a whole analysis\<close>

text \<open>Evidence that points back to the transcript: a chunk and both timestamps.\<close>

definition traced :: "evidence list \<Rightarrow> bool" where
  "traced evs \<longleftrightarrow> evs \<noteq> []
     \<and> (\<forall>e \<in> set evs. ev_chunk_id e \<noteq> None \<and> ev_start e \<noteq> None \<and> ev_end e \<noteq> None)"

lemma grounded_in_traced: "grounded_in u chunk item_text given evs \<Longrightarrow> traced evs"
  by (simp add: grounded_in_def traced_def)

lemma attach_traced:
  assumes "\<forall>x \<in> set sims. traced (ev_of x)" "sims \<noteq> []"
  shows "traced (attach given (concat (map ev_of sims)))"
proof -
  let ?found = "concat (map ev_of sims)"
  have ne: "?found \<noteq> []" using assms by (cases sims) (auto simp: traced_def)
  have r: "reattached given ?found (attach given ?found)" by (rule attach_reattached)
  then have "evidence_key ` set (attach given ?found) = evidence_key ` set ?found"
    and sub: "set (attach given ?found) \<subseteq> set ?found"
    using ne by (simp_all only: reattached_def if_False)
  then have "attach given ?found \<noteq> []" using ne by (metis image_is_empty set_empty)
  with sub assms(1) show ?thesis unfolding traced_def by fastforce
qed

text \<open>An item is supported when a similar finding exists only if its evidence is traced.\<close>

definition traced_if_found :: "unicode \<Rightarrow> ('i \<Rightarrow> ustr) \<Rightarrow> ('i \<Rightarrow> evidence list) \<Rightarrow> 'i list \<Rightarrow> 'i \<Rightarrow> bool" where
  "traced_if_found u item_text ev_of found i \<longleftrightarrow>
     list_all (\<lambda>x. \<not> similar u (item_text i) (item_text x)) found \<or> traced (ev_of i)"

context evidence_item
begin

lemma attach_items_traced:
  assumes "\<forall>x \<in> set found. traced (ev_of x)"
  shows "list_all (traced_if_found u item_text ev_of found)
    (map (\<lambda>i. with_ev (attach (ev_of i) (evidence_of_similar u item_text ev_of (item_text i) found)) i) items)"
proof (unfold list_all_iff, intro ballI)
  fix i' assume "i' \<in> set (map (\<lambda>i. with_ev (attach (ev_of i)
      (evidence_of_similar u item_text ev_of (item_text i) found)) i) items)"
  then obtain i where i': "i' = with_ev (attach (ev_of i)
      (evidence_of_similar u item_text ev_of (item_text i) found)) i" by auto
  show "traced_if_found u item_text ev_of found i'"
  proof (cases "filter (\<lambda>x. similar u (item_text i) (item_text x)) found = []")
    case True
    then show ?thesis
      by (simp add: traced_if_found_def i' text_with_ev list_all_iff filter_empty_conv)
  next
    case False
    have "\<forall>x \<in> set (filter (\<lambda>x. similar u (item_text i) (item_text x)) found). traced (ev_of x)"
      using assms by simp
    from attach_traced [OF this False, of "ev_of i"] show ?thesis
      by (simp add: traced_if_found_def i' ev_of_with_ev evidence_of_similar_def)
  qed
qed

lemma grounded_items_traced:
  "list_all2 (\<lambda>i i'. grounded_in u chunk (item_text i) (ev_of i) (ev_of i') \<and> Q i i') items items'
     \<Longrightarrow> \<forall>x \<in> set items'. traced (ev_of x)"
  by (induction items items' rule: list_all2_induct) (auto intro: grounded_in_traced)

end

definition traced_findings :: "chunk \<Rightarrow> chunk_findings \<Rightarrow> bool" where
  "traced_findings chunk f \<longleftrightarrow> cf_chunk_id f = ck_id chunk
     \<and> (\<forall>d \<in> set (cf_decisions f). traced (dc_evidence d))
     \<and> (\<forall>a \<in> set (cf_action_items f). traced (ai_evidence a))
     \<and> (\<forall>t \<in> set (cf_topics f). traced (tp_evidence t))
     \<and> (\<forall>q \<in> set (cf_open_questions f). traced (oq_evidence q))
     \<and> (\<forall>r \<in> set (cf_risks f). traced (rk_evidence r))"

lemma stamp_provenance_traced: "traced_findings chunk (stamp_provenance u f chunk)"
  unfolding traced_findings_def stamp_provenance_def
  by (auto simp: intro: grounded_in_traced ground_grounded)

lemma generate_parsed_ok:
  "generate_parsed llm request parse s = (Inr v, s') \<Longrightarrow> \<exists>raw. parse raw = Inr v"
  by (auto simp: generate_parsed_def effect_defs split: prod.splits sum.splits)

lemma llm_extract_found:
  assumes "extract_chunk (llm_analyzer u js e) chunk context s = (Inr f, s')"
  shows "traced_findings chunk f"
proof -
  from assms obtain raw where "parse_findings u (findings_of_text js) raw chunk = Inr f"
    by (auto simp: llm_analyzer_def llm_extract_chunk_def dest: generate_parsed_ok)
  then show ?thesis
    by (auto simp: parse_findings_def stamp_provenance_traced split: sum.splits)
qed

lemma llm_synthesize_made:
  assumes "synthesize (llm_analyzer u js e) fs t context s = (Inr ir, s')"
  shows "\<exists>ir0. ir = reconcile u ir0 (from_chunks fs) t"
  using assms
  by (auto simp: llm_analyzer_def llm_synthesize_def Let_def bindE_def okE_def
      split: prod.splits sum.splits)

interpretation llm_ai: ai_analysis "llm_analyzer u js e" traced_findings
    "\<lambda>fs t ir. \<exists>ir0. ir = reconcile u ir0 (from_chunks fs) t"
  by unfold_locales (auto dest: llm_extract_found llm_synthesize_made)

lemma reconcile_traced:
  assumes "list_all2 traced_findings chunks fs" and m: "merged = from_chunks fs"
  shows "list_all (traced_if_found u dc_decision dc_evidence (mf_decisions merged)) (ir_decisions (reconcile u ir merged t))"
    "list_all (traced_if_found u tp_title tp_evidence (mf_topics merged)) (ir_topics (reconcile u ir merged t))"
    "list_all (traced_if_found u oq_question oq_evidence (mf_open_questions merged)) (ir_open_questions (reconcile u ir merged t))"
    "list_all (traced_if_found u rk_description rk_evidence (mf_risks merged)) (ir_risks (reconcile u ir merged t))"
proof -
  from assms(1) have "\<forall>f \<in> set fs. \<exists>c. traced_findings c f"
    by (induction rule: list_all2_induct) auto
  then have all: "\<forall>d \<in> set (mf_decisions merged). traced (dc_evidence d)"
    "\<forall>d \<in> set (mf_topics merged). traced (tp_evidence d)"
    "\<forall>d \<in> set (mf_open_questions merged). traced (oq_evidence d)"
    "\<forall>d \<in> set (mf_risks merged). traced (rk_evidence d)"
    by (auto simp: m from_chunks_eq traced_findings_def)
  show "list_all (traced_if_found u dc_decision dc_evidence (mf_decisions merged)) (ir_decisions (reconcile u ir merged t))"
    unfolding reconcile_fields matched_evidence_of_similar
    by (rule decision_item.attach_items_traced) (rule all)
  show "list_all (traced_if_found u tp_title tp_evidence (mf_topics merged)) (ir_topics (reconcile u ir merged t))"
    unfolding reconcile_fields matched_evidence_of_similar
    by (rule topic_item.attach_items_traced) (rule all)
  show "list_all (traced_if_found u oq_question oq_evidence (mf_open_questions merged)) (ir_open_questions (reconcile u ir merged t))"
    unfolding reconcile_fields matched_evidence_of_similar
    by (rule question_item.attach_items_traced) (rule all)
  show "list_all (traced_if_found u rk_description rk_evidence (mf_risks merged)) (ir_risks (reconcile u ir merged t))"
    unfolding reconcile_fields matched_evidence_of_similar
    by (rule risk_item.attach_items_traced) (rule all)
qed

lemma required_texts_reconcile:
  "required_texts (reconcile u ir merged t) = trim (ir_summary ir) # tl (required_texts ir)"
  by (simp add: required_texts_def reconcile_fields reconcile_action_def Let_def comp_def)

text \<open>Reconciliation neither repairs nor breaks what validation checks.\<close>

lemma validate_reconcile: "validate (reconcile u ir merged t) = Inr () \<longleftrightarrow> validate ir = Inr ()"
  unfolding validate_ok_iff required_texts_reconcile by (simp add: required_texts_def)


definition demo_json :: json_text where
  "demo_json = \<lparr> findings_of_text = (\<lambda>_. Inr demo_findings),
     ir_of_text = (\<lambda>_. Inr (meeting_ir_default\<lparr> ir_summary := lit ''ok'' \<rparr>)),
     text_of_findings = (\<lambda>_. []) \<rparr>"

definition demo_llm :: "nat llm_generate" where
  "demo_llm r n = (Inr \<lparr> rs_text = lit ''{}'', rs_model = lit ''m'' \<rparr>, Suc n)"

definition demo_prepared :: prepared_transcript where
  "demo_prepared = \<lparr> pr_raw = \<lparr> tr_segments = ck_segments demo_chunk \<rparr>,
     pr_normalized = \<lparr> tr_segments = ck_segments demo_chunk \<rparr>,
     pr_chunks = [demo_chunk] \<rparr>"

lemma demo_analyze:
  "\<exists>ir. analyze (llm_analyzer ascii_unicode demo_json (llm_ai_engine_new demo_llm)) demo_prepared
     \<lparr> cx_title = None \<rparr> 0 = (Inr ir, 2)"
proof -
  have "validate (meeting_ir_default\<lparr> ir_summary := lit ''ok'' \<rparr>) = Inr ()"
    by (simp add: validate_ok_iff required_texts_def meeting_ir_default_def trim_eq_Nil_iff
        lit_def is_whitespace_def)
  then have "validate (reconcile ascii_unicode (meeting_ir_default\<lparr> ir_summary := lit ''ok'' \<rparr>) m t) = Inr ()"
    for m t by (simp add: validate_reconcile)
  then show ?thesis
    by (simp add: analyze_def demo_prepared_def llm_analyzer_def llm_extract_chunk_def
        llm_synthesize_def llm_ai_engine_new_def generate_parsed_def effect_defs demo_llm_def
        demo_json_def parse_findings_def parse_ir_def Let_def)
qed


end
