(* ===== verification/Renderer.thy ===== *)
theory Renderer
  imports Domain
begin

text \<open>
  The renderers (\<open>engine/src/renderer\<close>): the Markdown minutes, section by section as the source
  writes them into its buffer, and the HTML and JSON boundaries. The properties: the headings come
  in the fixed order whatever the IR holds, the document ends in exactly one newline, and a row of
  the action table is read back by a Markdown table reader as its four cells, unless a cell holds
  a backslash.
\<close>

section \<open>The Markdown renderer\<close>

definition writeln :: "ustr \<Rightarrow> ustr" where
  "writeln s = s @ [nl]"

definition status_label :: "action_status \<Rightarrow> ustr" where
  "status_label st = (case st of ActionOpen \<Rightarrow> lit ''open'' | ActionInProgress \<Rightarrow> lit ''in progress''
     | ActionDone \<Rightarrow> lit ''done'' | ActionCancelled \<Rightarrow> lit ''cancelled'')"

definition cell :: "ustr \<Rightarrow> ustr" where
  "cell s = str_replace 124 [92, 124] (str_replace nl [space] (trim s))"

fun write_evidence_quotes :: "evidence list \<Rightarrow> ustr" where
  "write_evidence_quotes [] = []"
| "write_evidence_quotes (e # evs) =
     (if trim (ev_quote e) = [] then write_evidence_quotes evs
      else writeln (lit ''> '' @ trim (ev_quote e) @ [nl]) @ write_evidence_quotes evs)"

fun write_evidence_inline :: "evidence list \<Rightarrow> ustr" where
  "write_evidence_inline [] = []"
| "write_evidence_inline (e # evs) =
     (if trim (ev_quote e) = [] then write_evidence_inline evs
      else writeln (lit ''  - _evidence:_ '' @ [34] @ trim (ev_quote e) @ [34])
        @ write_evidence_inline evs)"

text \<open>An optional text that is written only when it is not blank.\<close>

definition write_nonblank :: "ustr option \<Rightarrow> (ustr \<Rightarrow> ustr) \<Rightarrow> ustr" where
  "write_nonblank v line = (case v of None \<Rightarrow> []
     | Some s \<Rightarrow> if trim s = [] then [] else writeln (line (trim s)))"

definition summary_section :: "meeting_ir \<Rightarrow> ustr" where
  "summary_section ir =
     (if trim (ir_summary ir) = [] then writeln (lit ''_No summary._'' @ [nl])
      else writeln (trim (ir_summary ir) @ [nl]))"

definition participant_line :: "participant \<Rightarrow> ustr" where
  "participant_line p = writeln (case pt_display_name p of
       Some name \<Rightarrow> lit ''- '' @ name @ lit '' (`'' @ pt_id p @ lit ''`)''
     | None \<Rightarrow> lit ''- `'' @ pt_id p @ lit ''`'')"

definition participants_section :: "meeting_ir \<Rightarrow> ustr" where
  "participants_section ir =
     (if ir_participants ir = [] then writeln (lit ''_None identified._'' @ [nl])
      else concat (map participant_line (ir_participants ir)) @ [nl])"

definition topic_block :: "topic \<Rightarrow> ustr" where
  "topic_block t = writeln (lit ''### '' @ trim (tp_title t) @ [nl])
     @ write_nonblank (tp_summary t) (\<lambda>s. s @ [nl])
     @ write_evidence_quotes (tp_evidence t)"

definition topics_section :: "meeting_ir \<Rightarrow> ustr" where
  "topics_section ir =
     (if ir_topics ir = [] then writeln (lit ''_None._'' @ [nl])
      else concat (map topic_block (ir_topics ir)))"

definition decision_block :: "decision \<Rightarrow> ustr" where
  "decision_block d = writeln (lit ''- **'' @ trim (dc_decision d) @ lit ''**'')
     @ write_nonblank (dc_context d) (\<lambda>s. lit ''  - Context: '' @ s)
     @ write_evidence_inline (dc_evidence d)"

definition decisions_section :: "meeting_ir \<Rightarrow> ustr" where
  "decisions_section ir =
     (if ir_decisions ir = [] then writeln (lit ''_None recorded._'' @ [nl])
      else concat (map decision_block (ir_decisions ir)) @ [nl])"

definition or_dash :: "ustr option \<Rightarrow> ustr" where
  "or_dash v = (case v of Some s \<Rightarrow> s | None \<Rightarrow> [8212])"

definition action_row :: "action_item \<Rightarrow> ustr" where
  "action_row a = writeln (lit ''| '' @ cell (ai_description a) @ lit '' | '' @ cell (or_dash (ai_owner a))
     @ lit '' | '' @ cell (or_dash (ai_deadline a)) @ lit '' | '' @ status_label (ai_status a) @ lit '' |'')"

definition actions_section :: "meeting_ir \<Rightarrow> ustr" where
  "actions_section ir =
     (if ir_action_items ir = [] then writeln (lit ''_None._'' @ [nl])
      else writeln (lit ''| Action | Owner | Deadline | Status |'')
        @ writeln (lit ''|--------|-------|----------|--------|'')
        @ concat (map action_row (ir_action_items ir)) @ [nl])"

definition question_block :: "open_question \<Rightarrow> ustr" where
  "question_block q = writeln (lit ''- '' @ trim (oq_question q)) @ write_evidence_inline (oq_evidence q)"

definition questions_section :: "meeting_ir \<Rightarrow> ustr" where
  "questions_section ir =
     (if ir_open_questions ir = [] then writeln (lit ''_None._'' @ [nl])
      else concat (map question_block (ir_open_questions ir)) @ [nl])"

definition risk_block :: "risk \<Rightarrow> ustr" where
  "risk_block r =
     (case rk_severity r of
        Some sev \<Rightarrow> if trim sev \<noteq> []
          then writeln (lit ''- **['' @ trim sev @ lit '']** '' @ trim (rk_description r))
          else writeln (lit ''- '' @ trim (rk_description r))
      | None \<Rightarrow> writeln (lit ''- '' @ trim (rk_description r)))
     @ write_evidence_inline (rk_evidence r)"

definition risks_section :: "meeting_ir \<Rightarrow> ustr" where
  "risks_section ir =
     (if ir_risks ir = [] then writeln (lit ''_None._'' @ [nl])
      else concat (map risk_block (ir_risks ir)) @ [nl])"

definition heading :: "string \<Rightarrow> ustr" where
  "heading name = writeln (lit ''## '' @ lit name @ [nl])"

definition render_with_title :: "meeting_ir \<Rightarrow> ustr \<Rightarrow> ustr" where
  "render_with_title ir title =
     (let out = writeln (lit ''# '' @ title @ [nl])
        @ heading ''Summary'' @ summary_section ir
        @ heading ''Participants'' @ participants_section ir
        @ heading ''Topics'' @ topics_section ir
        @ heading ''Decisions'' @ decisions_section ir
        @ heading ''Action Items'' @ actions_section ir
        @ heading ''Open Questions'' @ questions_section ir
        @ heading ''Risks'' @ risks_section ir
      in trim_end_matches nl out @ [nl])"

definition render :: "meeting_ir \<Rightarrow> ustr" where
  "render ir = render_with_title ir (lit ''Meeting'')"

section \<open>The other renderers\<close>

datatype render_error = NotImplemented

definition render_html :: "meeting_ir \<Rightarrow> render_error + ustr" where
  "render_html ir = Inl NotImplemented"

text \<open>\<open>json::render\<close> is the pretty printer of \<open>serde_json\<close>, a parameter.\<close>

definition render_json :: "(meeting_ir \<Rightarrow> ustr + ustr) \<Rightarrow> meeting_ir \<Rightarrow> ustr + ustr" where
  "render_json pretty ir = pretty ir"

section \<open>The end of the document\<close>

lemma trim_end_matches_append:
  "\<exists>x \<in> set b. x \<noteq> c \<Longrightarrow> trim_end_matches c (a @ b) = a @ trim_end_matches c b"
  by (auto simp: trim_end_matches_def dropWhile_append)

lemma trim_end_matches_last: "trim_end_matches c s = [] \<or> last (trim_end_matches c s) \<noteq> c"
  using hd_dropWhile [of "\<lambda>d. d = c" "rev s"]
  by (cases "dropWhile (\<lambda>d. d = c) (rev s)") (auto simp: trim_end_matches_def)

lemma trim_end_matches_prefix: "\<exists>n. s = trim_end_matches c s @ replicate n c"
proof -
  have "rev s = takeWhile (\<lambda>d. d = c) (rev s) @ dropWhile (\<lambda>d. d = c) (rev s)" by simp
  then have "s = rev (dropWhile (\<lambda>d. d = c) (rev s)) @ rev (takeWhile (\<lambda>d. d = c) (rev s))"
    by (metis rev_append rev_rev_ident)
  moreover have "rev (takeWhile (\<lambda>d. d = c) (rev s))
      = replicate (length (takeWhile (\<lambda>d. d = c) (rev s))) c"
    by (rule replicate_eqI) (auto dest: set_takeWhileD)
  ultimately show ?thesis unfolding trim_end_matches_def by metis
qed

lemma risks_section_text: "\<exists>x \<in> set (risks_section ir). x \<noteq> nl"
proof (cases "ir_risks ir")
  case Nil
  then show ?thesis by (simp add: risks_section_def writeln_def lit_def)
next
  case (Cons r rs)
  have "45 \<in> set (risk_block r)"
    by (auto simp: risk_block_def writeln_def lit_def split: option.splits)
  then show ?thesis using Cons by (intro bexI [of _ 45]) (auto simp: risks_section_def)
qed

text \<open>The minutes always have all seven sections, in the documented order with nothing in
  between but the section's own text, whatever the IR and the title hold; the document ends in
  exactly one newline and only newlines of the last section are dropped.\<close>

theorem render_sections:
  "\<exists>risks n. render_with_title ir title =
      lit ''# '' @ title @ [nl, nl]
      @ heading ''Summary'' @ summary_section ir
      @ heading ''Participants'' @ participants_section ir
      @ heading ''Topics'' @ topics_section ir
      @ heading ''Decisions'' @ decisions_section ir
      @ heading ''Action Items'' @ actions_section ir
      @ heading ''Open Questions'' @ questions_section ir
      @ heading ''Risks'' @ risks @ [nl]
    \<and> risks_section ir = risks @ replicate n nl \<and> risks \<noteq> [] \<and> last risks \<noteq> nl"
proof -
  let ?r = "trim_end_matches nl (risks_section ir)"
  obtain n where n: "risks_section ir = ?r @ replicate n nl"
    using trim_end_matches_prefix by blast
  have "?r \<noteq> []"
  proof
    assume "?r = []"
    then have "set (risks_section ir) \<subseteq> {nl}" using n by (metis append_Nil set_replicate_conv_if empty_subsetI order_refl)
    then show False using risks_section_text [of ir] by auto
  qed
  moreover from this have "last ?r \<noteq> nl" using trim_end_matches_last by blast
  moreover have "trim_end_matches nl (front @ risks_section ir) = front @ ?r" for front
    by (rule trim_end_matches_append) (rule risks_section_text)
  from this [of "writeln (lit ''# '' @ title @ [nl]) @ heading ''Summary'' @ summary_section ir
      @ heading ''Participants'' @ participants_section ir @ heading ''Topics'' @ topics_section ir
      @ heading ''Decisions'' @ decisions_section ir @ heading ''Action Items'' @ actions_section ir
      @ heading ''Open Questions'' @ questions_section ir @ heading ''Risks''"]
  have "render_with_title ir title = lit ''# '' @ title @ [nl, nl]
      @ heading ''Summary'' @ summary_section ir @ heading ''Participants'' @ participants_section ir
      @ heading ''Topics'' @ topics_section ir @ heading ''Decisions'' @ decisions_section ir
      @ heading ''Action Items'' @ actions_section ir @ heading ''Open Questions'' @ questions_section ir
      @ heading ''Risks'' @ ?r @ [nl]"
    by (simp add: render_with_title_def Let_def writeln_def)
  ultimately show ?thesis using n by blast
qed

section \<open>Reading a table row\<close>

text \<open>
  How a Markdown reader with the table extension splits a row: at every pipe that is not escaped,
  where a backslash escapes the character that follows it, and an escaped pipe stands for itself.
\<close>

fun row_cells :: "ustr \<Rightarrow> ustr \<Rightarrow> ustr list" where
  "row_cells acc [] = [acc]"
| "row_cells acc (c # s) =
     (if c = 124 then acc # row_cells [] s
      else if c = 92 then (case s of [] \<Rightarrow> [acc @ [92]]
        | d # s' \<Rightarrow> row_cells (acc @ (if d = 124 then [124] else [92, d])) s')
      else row_cells (acc @ [c]) s)"

text \<open>The text of a cell on one line.\<close>

definition one_line :: "ustr \<Rightarrow> ustr" where
  "one_line s = str_replace nl [space] (trim s)"

lemma cell_one_line: "cell s = str_replace 124 [92, 124] (one_line s)"
  by (simp add: cell_def one_line_def)

lemma str_replace_simps [simp]:
  "str_replace c t [] = []"
  "str_replace c t (d # s) = (if d = c then t else [d]) @ str_replace c t s"
  by (simp_all add: str_replace_def)

lemma row_cells_text:
  "92 \<notin> set t \<Longrightarrow> row_cells acc (str_replace 124 [92, 124] t @ rest) = row_cells (acc @ t) rest"
  by (induction t arbitrary: acc) auto

lemma row_cells_plain: "92 \<notin> set t \<Longrightarrow> 124 \<notin> set t \<Longrightarrow> row_cells acc (t @ rest) = row_cells (acc @ t) rest"
  by (induction t arbitrary: acc) auto

lemma set_one_line: "set (one_line s) \<subseteq> insert space (set s - {nl})"
  using set_str_replace [of nl "[space]" "trim s"] set_trim_subset [of s]
  by (auto simp: one_line_def)

lemma one_line_Nil_iff: "one_line s = [] \<longleftrightarrow> trim s = []"
  by (cases "trim s") (simp_all add: one_line_def)

lemma hd_one_line: "trim s \<noteq> [] \<Longrightarrow> hd (one_line s) = hd (trim s)"
  using trim_hd [of s] by (cases "trim s") (auto simp: one_line_def)

lemma last_one_line: "trim s \<noteq> [] \<Longrightarrow> last (one_line s) = last (trim s)"
  using trim_last [of s] by (cases "trim s" rule: rev_cases) (auto simp: one_line_def)

lemma trim_one_line: "trim (one_line s) = one_line s"
  by (rule trim_id) (auto simp: one_line_Nil_iff hd_one_line last_one_line trim_hd trim_last)

lemma trim_pad: "trim (space # s @ [space]) = trim s"
proof -
  have "trim_start (space # s @ [space]) = trim_start (s @ [space])" by (simp add: trim_start_def)
  also have "trim_end \<dots> = trim_end (trim_start s)"
    by (cases "\<forall>c \<in> set s. is_whitespace c")
      (auto simp: trim_start_def trim_end_def dropWhile_append dest: set_dropWhileD)
  finally show ?thesis by (simp add: trim_def)
qed

lemma status_label_plain: "92 \<notin> set (status_label st)" "124 \<notin> set (status_label st)"
  "nl \<notin> set (status_label st)" "trim (status_label st) = status_label st"
  by (cases st; simp add: status_label_def lit_def trim_id is_whitespace_def)+

lemma set_cell: "set (cell s) \<subseteq> {92, 124} \<union> set (one_line s)"
  using set_str_replace [of 124 "[92, 124]" "one_line s"] by (auto simp: cell_one_line)

lemma nl_notin_cell: "nl \<notin> set (cell s)"
  using subsetD [OF set_cell, of nl s] subsetD [OF set_one_line, of nl s] by auto

lemma row_cells_sep:
  "row_cells [] (lit ''| '' @ rest) = [] # row_cells [space] rest"
  "row_cells acc (lit '' | '' @ rest) = (acc @ [space]) # row_cells [space] rest"
  "row_cells acc (lit '' |'') = [acc @ [space], []]"
  by (simp_all add: lit_def)

lemma nl_notin_separators:
  "nl \<notin> set (lit ''| '')" "nl \<notin> set (lit '' | '')" "nl \<notin> set (lit '' |'')"
  by (simp_all add: lit_def)

lemma row_cells_cell:
  "92 \<notin> set s \<Longrightarrow> row_cells acc (cell s @ rest) = row_cells (acc @ one_line s) rest"
  unfolding cell_one_line by (rule row_cells_text) (use set_one_line [of s] in auto)

text \<open>The action table is well-formed: a row is one line, and a Markdown reader splits it into
  the item's description, owner (or a dash), deadline (or a dash) and status, with the pipes in them
  restored and newlines as spaces, for every item whose texts hold no backslash.\<close>

theorem action_row_reads_back:
  assumes "92 \<notin> set (ai_description a)" "92 \<notin> set (or_dash (ai_owner a))"
    "92 \<notin> set (or_dash (ai_deadline a))"
  shows "\<exists>line. action_row a = line @ [nl] \<and> nl \<notin> set line
    \<and> map trim (row_cells [] line) = [[], one_line (ai_description a), one_line (or_dash (ai_owner a)),
        one_line (or_dash (ai_deadline a)), status_label (ai_status a), []]"
proof -
  let ?line = "lit ''| '' @ cell (ai_description a) @ lit '' | '' @ cell (or_dash (ai_owner a))
     @ lit '' | '' @ cell (or_dash (ai_deadline a)) @ lit '' | '' @ status_label (ai_status a) @ lit '' |''"
  have "row_cells [] ?line = [[], space # one_line (ai_description a) @ [space],
      space # one_line (or_dash (ai_owner a)) @ [space],
      space # one_line (or_dash (ai_deadline a)) @ [space], space # status_label (ai_status a) @ [space], []]"
    by (simp only: row_cells_sep row_cells_cell [OF assms(1)] row_cells_cell [OF assms(2)]
        row_cells_cell [OF assms(3)] row_cells_plain [OF status_label_plain(1) status_label_plain(2)])
      simp
  then have "map trim (row_cells [] ?line) = [[], one_line (ai_description a),
      one_line (or_dash (ai_owner a)), one_line (or_dash (ai_deadline a)), status_label (ai_status a), []]"
    by (simp only: list.map trim_Nil trim_pad trim_one_line status_label_plain)
  moreover have "nl \<notin> set ?line"
    by (simp only: set_append Un_iff nl_notin_cell nl_notin_separators status_label_plain(3) simp_thms)
  moreover have "action_row a = ?line @ [nl]" by (simp add: action_row_def writeln_def)
  ultimately show ?thesis by (intro exI [of _ ?line] conjI)
qed

definition demo_action :: "ustr \<Rightarrow> action_item" where
  "demo_action d = \<lparr> ai_description = d, ai_owner = None, ai_deadline = Some (lit ''Fri''),
     ai_status = ActionOpen, ai_evidence = [], ai_confidence = None \<rparr>"

theorem action_row_reads_back_witness:
  "\<exists>line. action_row (demo_action [97, 124, 98]) = line @ [nl]
     \<and> map trim (row_cells [] line) = [[], [97, 124, 98], [8212], lit ''Fri'', lit ''open'', []]"
proof -
  have "92 \<notin> set (lit ''Fri'')" "one_line [97, 124, 98] = [97, 124, 98]" "one_line [8212] = [8212]" "one_line (lit ''Fri'') = lit ''Fri''"
    by (simp_all add: one_line_def lit_def trim_def trim_start_def trim_end_def is_whitespace_def)
  note eval = this demo_action_def or_dash_def status_label_def
  obtain line where "action_row (demo_action [97, 124, 98]) = line @ [nl]"
    "map trim (row_cells [] line) = [[], one_line (ai_description (demo_action [97, 124, 98])),
       one_line (or_dash (ai_owner (demo_action [97, 124, 98]))),
       one_line (or_dash (ai_deadline (demo_action [97, 124, 98]))),
       status_label (ai_status (demo_action [97, 124, 98])), []]"
    using action_row_reads_back [of "demo_action [97, 124, 98]"] by (auto simp add: eval)
  then show ?thesis by (intro exI [of _ line] conjI) (simp_all add: eval)
qed

text \<open>
  A backslash in front of a pipe defeats the escape: the cell \<open>a\|b\<close> is written with two
  backslashes, which a reader takes for an escaped backslash and a cell boundary.
\<close>

lemma backslash_breaks_row:
  "row_cells [] (cell [97, 92, 124, 98]) = [[97, 92, 92], [98]]"
  by (simp add: cell_def trim_def trim_start_def trim_end_def is_whitespace_def)

end
