(* ===== verification/Rust_Path.thy ===== *)
theory Rust_Path
  imports Rust_Str
begin

text \<open>
  \<open>std::path\<close> as far as the engine uses it, on a system whose separator is \<open>/\<close>. A path is its text;
  file names that are not UTF-8, which the source replaces lossily, are outside the model.
\<close>

type_synonym path = ustr

definition path_join :: "path \<Rightarrow> path \<Rightarrow> path" where
  "path_join a b = (if b \<noteq> [] \<and> hd b = 47 then b
     else if a = [] \<or> last a = 47 then a @ b else a @ [47] @ b)"

text \<open>\<open>file_name()\<close>: the last component; empty and \<open>.\<close> components are not components.\<close>

definition file_name :: "path \<Rightarrow> ustr option" where
  "file_name p = (case filter (\<lambda>c. c \<noteq> [] \<and> c \<noteq> lit ''.'') (split_on (\<lambda>c. c = 47) p) of
     [] \<Rightarrow> None
   | c # cs \<Rightarrow> if last (c # cs) = lit ''..'' then None else Some (last (c # cs)))"

text \<open>A name is split at its last dot, unless that is its first character.\<close>

definition stem_of :: "ustr \<Rightarrow> ustr" where
  "stem_of n = (case rfind_char 46 n of None \<Rightarrow> n | Some i \<Rightarrow> if i = 0 then n else take i n)"

definition extension_of :: "ustr \<Rightarrow> ustr option" where
  "extension_of n = (case rfind_char 46 n of None \<Rightarrow> None | Some i \<Rightarrow> if i = 0 then None else Some (drop (Suc i) n))"

definition path_file_stem :: "path \<Rightarrow> ustr option" where
  "path_file_stem p = map_option stem_of (file_name p)"

definition path_extension :: "path \<Rightarrow> ustr option" where
  "path_extension p = Option.bind (file_name p) extension_of"

end
