(* ===== verification/Media_Asr.thy ===== *)
theory Media_Asr
  imports Llm Rust_Path
begin

text \<open>
  The media and speech boundaries (\<open>engine/src/media\<close>, \<open>engine/src/asr\<close>): their errors, the FFmpeg
  processor over an operating system given as a parameter, the placeholder VAD, the mapping of a
  Qwen3-ASR response to a transcript and the other providers.
\<close>

section \<open>Media\<close>

datatype media_error = MediaInputNotFound path | MediaToolUnavailable ustr | MediaFailed ustr

fun media_error_display :: "media_error \<Rightarrow> ustr" where
  "media_error_display (MediaInputNotFound p) = lit ''input media not found: '' @ p"
| "media_error_display (MediaToolUnavailable m) = lit ''media tool unavailable: '' @ m"
| "media_error_display (MediaFailed m) = lit ''media processing failed: '' @ m"

record media_info =
  mi_duration_seconds :: "f64 option"
  mi_has_audio :: bool

record prepared_audio =
  pa_path :: path
  pa_sample_rate :: u32
  pa_channels :: "16 word"

record extract_options =
  eo_sample_rate :: u32
  eo_channels :: "16 word"

definition extract_options_default :: extract_options where
  "extract_options_default = \<lparr> eo_sample_rate = 16000, eo_channels = 1 \<rparr>"

text \<open>The file system and process calls the processor makes, and the standard \<open>f64\<close> parser.\<close>

record process_output =
  po_success :: bool
  po_status :: ustr
  po_stdout :: ustr
  po_stderr :: ustr

record 's os =
  os_exists :: "path \<Rightarrow> 's \<Rightarrow> bool \<times> 's"
  os_create_dir_all :: "path \<Rightarrow> ('s, ustr, unit) effect"
  os_run :: "ustr list \<Rightarrow> ('s, ustr, process_output) effect"
  os_parse_f64 :: "ustr \<Rightarrow> f64 option"

record ffmpeg =
  ff_ffmpeg_bin :: ustr
  ff_ffprobe_bin :: ustr

definition ffmpeg_default :: ffmpeg where
  "ffmpeg_default = \<lparr> ff_ffmpeg_bin = lit ''ffmpeg'', ff_ffprobe_bin = lit ''ffprobe'' \<rparr>"

definition probe :: "'s os \<Rightarrow> ffmpeg \<Rightarrow> path \<Rightarrow> ('s, media_error, media_info) effect" where
  "probe os f inp s = (case os_exists os inp s of (found, s) \<Rightarrow>
     if \<not> found then (Inl (MediaInputNotFound inp), s)
     else bindE (map_errE (\<lambda>e. MediaToolUnavailable (ff_ffprobe_bin f @ lit '': '' @ e))
       (os_run os [ff_ffprobe_bin f, lit ''-v'', lit ''error'', lit ''-show_entries'', lit ''format=duration'',
          lit ''-of'', lit ''default=noprint_wrappers=1:nokey=1'', inp])) (\<lambda>out.
       if \<not> po_success out then errE (MediaFailed (po_stderr out))
       else okE \<lparr> mi_duration_seconds = os_parse_f64 os (trim (po_stdout out)), mi_has_audio = True \<rparr>) s)"

definition extract_audio :: "'s os \<Rightarrow> ffmpeg \<Rightarrow> path \<Rightarrow> path \<Rightarrow> extract_options
    \<Rightarrow> ('s, media_error, prepared_audio) effect" where
  "extract_audio os f inp out_dir opts s = (case os_exists os inp s of (found, s) \<Rightarrow>
     if \<not> found then (Inl (MediaInputNotFound inp), s)
     else bindE (map_errE MediaFailed (os_create_dir_all os out_dir)) (\<lambda>_.
       let out_path = path_join out_dir (lit ''audio.wav'') in
       bindE (map_errE (\<lambda>e. MediaToolUnavailable (ff_ffmpeg_bin f @ lit '': '' @ e))
         (os_run os [ff_ffmpeg_bin f, lit ''-y'', lit ''-i'', inp,
            lit ''-ac'', show_nat (unat (eo_channels opts)), lit ''-ar'', show_nat (unat (eo_sample_rate opts)),
            lit ''-vn'', lit ''-f'', lit ''wav'', out_path])) (\<lambda>out.
         if \<not> po_success out then errE (MediaFailed (lit ''ffmpeg exited with '' @ po_status out))
         else okE \<lparr> pa_path = out_path, pa_sample_rate = eo_sample_rate opts, pa_channels = eo_channels opts \<rparr>)) s)"

text \<open>\<open>NoopVad::segments\<close>; a comparison with NaN is false, so a NaN duration gives a segment.\<close>

record speech_segment =
  ss_start :: f64
  ss_end :: f64

definition noop_vad :: "f64 \<Rightarrow> speech_segment list" where
  "noop_vad duration = (if f64_le duration (Finite 0) then []
     else [\<lparr> ss_start = Finite 0, ss_end = duration \<rparr>])"

section \<open>Speech recognition\<close>

datatype asr_error = AsrNotImplemented ustr | AsrInputNotFound path | AsrUnreachable ustr
  | AsrRuntime ustr | AsrFailed ustr

fun asr_error_display :: "asr_error \<Rightarrow> ustr" where
  "asr_error_display (AsrNotImplemented n) = lit ''ASR backend '' @ [39] @ n @ [39] @ lit '' is not implemented yet''"
| "asr_error_display (AsrInputNotFound p) = lit ''audio input not found: '' @ p"
| "asr_error_display (AsrUnreachable m) = lit ''could not reach the ASR runtime: '' @ m"
| "asr_error_display (AsrRuntime m) = lit ''ASR runtime error: '' @ m"
| "asr_error_display (AsrFailed m) = lit ''transcription failed: '' @ m"

record audio_input =
  au_path :: path
  au_language_hint :: "ustr option"

definition audio_input_new :: "path \<Rightarrow> audio_input" where
  "audio_input_new p = \<lparr> au_path = p, au_language_hint = None \<rparr>"

type_synonym 's asr_transcribe = "audio_input \<Rightarrow> ('s, asr_error, transcript) effect"

definition fixture_transcribe :: "transcript \<Rightarrow> 's asr_transcribe" where
  "fixture_transcribe t audio = okE t"

definition whisper_transcribe :: "'s asr_transcribe" where
  "whisper_transcribe audio = errE (AsrNotImplemented (lit ''whisper''))"

text \<open>The decoded response of the Qwen3-ASR runtime.\<close>

record asr_segment =
  as_start :: f64
  as_end :: f64
  as_text :: ustr
  as_speaker :: "ustr option"
  as_confidence :: "f64 option"
  as_language :: "ustr option"

record asr_response =
  ar_language :: "ustr option"
  ar_segments :: "asr_segment list"
  ar_error :: "ustr option"

definition response_to_transcript :: "asr_response \<Rightarrow> transcript" where
  "response_to_transcript resp = \<lparr> tr_segments =
     map (\<lambda>s. \<lparr> sg_speaker_id = as_speaker s, sg_start = as_start s, sg_end = as_end s,
         sg_text = trim (as_text s),
         sg_language = (case as_language s of Some l \<Rightarrow> Some l | None \<Rightarrow> ar_language resp),
         sg_confidence = as_confidence s \<rparr>)
       (filter (\<lambda>s. trim (as_text s) \<noteq> []) (ar_segments resp)) \<rparr>"

text \<open>
  \<open>Qwen3AsrProvider::transcribe\<close> over an HTTP client: a reply is its status, whether that is a
  success, and its body (or the error of reading it); \<open>decode\<close> is the JSON decoder of the response.
\<close>

record http_reply =
  hr_success :: bool
  hr_status :: ustr
  hr_text :: "ustr + ustr"

record 's http =
  ht_post :: "ustr \<Rightarrow> json \<Rightarrow> ('s, ustr, http_reply) effect"
  ht_get :: "ustr \<Rightarrow> ('s, ustr, http_reply) effect"

record qwen3_asr =
  qa_base_url :: ustr
  qa_model :: ustr

definition qwen3_asr_new :: "ustr \<Rightarrow> ustr \<Rightarrow> qwen3_asr" where
  "qwen3_asr_new base_url model = \<lparr> qa_base_url = trim_end_matches 47 base_url, qa_model = model \<rparr>"

definition qwen3_body :: "qwen3_asr \<Rightarrow> audio_input \<Rightarrow> json" where
  "qwen3_body p audio = JObj [(lit ''model'', JStr (qa_model p)), (lit ''audio_path'', JStr (au_path audio)),
     (lit ''language'', case au_language_hint audio of None \<Rightarrow> JNull | Some l \<Rightarrow> JStr l)]"

definition qwen3_transcribe :: "'s os \<Rightarrow> 's http \<Rightarrow> (ustr \<Rightarrow> ustr + asr_response) \<Rightarrow> qwen3_asr
    \<Rightarrow> 's asr_transcribe" where
  "qwen3_transcribe os http decode p audio s = (case os_exists os (au_path audio) s of (found, s) \<Rightarrow>
     if \<not> found then (Inl (AsrInputNotFound (au_path audio)), s)
     else let url = qa_base_url p @ lit ''/v1/transcribe'' in
       bindE (map_errE (\<lambda>e. AsrUnreachable (url @ lit '': '' @ e)) (ht_post http url (qwen3_body p audio))) (\<lambda>resp.
         if \<not> hr_success resp then
           errE (AsrRuntime (lit ''HTTP '' @ hr_status resp @ lit '': ''
             @ (case hr_text resp of Inr t \<Rightarrow> t | Inl _ \<Rightarrow> [])))
         else case hr_text resp of Inl e \<Rightarrow> errE (AsrRuntime e)
           | Inr body \<Rightarrow> (case decode body of Inl e \<Rightarrow> errE (AsrRuntime e)
              | Inr parsed \<Rightarrow> (case ar_error parsed of Some e \<Rightarrow> errE (AsrRuntime e)
                  | None \<Rightarrow> okE (response_to_transcript parsed)))) s)"

section \<open>Properties\<close>

text \<open>The speech provider invents nothing: a transcript it returns holds exactly the runtime's
  segments with text, in order, trimmed; a speaker is present only where the runtime named that
  speaker, and a segment's language falls back to the response's.\<close>

theorem qwen3_transcribe_faithful:
  assumes "qwen3_transcribe os http decode p audio s = (Inr t, s')"
  shows "\<exists>body resp. decode body = Inr resp \<and> ar_error resp = None
    \<and> list_all2 (\<lambda>a g. sg_speaker_id g = as_speaker a \<and> sg_text g = trim (as_text a) \<and> trim (as_text a) \<noteq> []
         \<and> sg_start g = as_start a \<and> sg_end g = as_end a \<and> sg_confidence g = as_confidence a
         \<and> sg_language g = (if as_language a = None then ar_language resp else as_language a))
       (filter (\<lambda>a. \<exists>c \<in> set (as_text a). \<not> is_whitespace c) (ar_segments resp)) (tr_segments t)"
proof -
  from assms obtain body resp where d: "decode body = Inr resp" "ar_error resp = None"
    and t: "t = response_to_transcript resp"
    by (auto simp: qwen3_transcribe_def effect_defs Let_def split: prod.splits sum.splits if_splits option.splits)
  have nonblank: "(\<exists>c \<in> set (as_text a). \<not> is_whitespace c) \<longleftrightarrow> trim (as_text a) \<noteq> []" for a
    by (simp add: trim_eq_Nil_iff)
  have "list_all2 (\<lambda>a g. sg_speaker_id g = as_speaker a \<and> sg_text g = trim (as_text a) \<and> trim (as_text a) \<noteq> []
         \<and> sg_start g = as_start a \<and> sg_end g = as_end a \<and> sg_confidence g = as_confidence a
         \<and> sg_language g = (if as_language a = None then ar_language resp else as_language a))
       (filter (\<lambda>a. trim (as_text a) \<noteq> []) segs)
       (map (\<lambda>s. \<lparr> sg_speaker_id = as_speaker s, sg_start = as_start s, sg_end = as_end s,
         sg_text = trim (as_text s),
         sg_language = (case as_language s of Some l \<Rightarrow> Some l | None \<Rightarrow> ar_language resp),
         sg_confidence = as_confidence s \<rparr>) (filter (\<lambda>s. trim (as_text s) \<noteq> []) segs))" for segs
    by (induction segs) (auto split: option.splits)
  then show ?thesis using d unfolding nonblank t response_to_transcript_def by auto
qed

definition demo_os :: "nat os" where
  "demo_os = \<lparr> os_exists = (\<lambda>_ n. (True, n)), os_create_dir_all = (\<lambda>_. okE ()),
     os_run = (\<lambda>_. okE \<lparr> po_success = True, po_status = [], po_stdout = [], po_stderr = [] \<rparr>),
     os_parse_f64 = (\<lambda>_. None) \<rparr>"

definition demo_http :: "nat http" where
  "demo_http = \<lparr> ht_post = (\<lambda>_ _. okE \<lparr> hr_success = True, hr_status = lit ''200'', hr_text = Inr [] \<rparr>),
     ht_get = (\<lambda>_. okE \<lparr> hr_success = True, hr_status = lit ''200'', hr_text = Inr [] \<rparr>) \<rparr>"

definition demo_asr_response :: asr_response where
  "demo_asr_response = \<lparr> ar_language = Some (lit ''en''), ar_segments =
     [\<lparr> as_start = Finite 0, as_end = Finite 1, as_text = lit ''hi'', as_speaker = None,
        as_confidence = None, as_language = None \<rparr>], ar_error = None \<rparr>"

theorem qwen3_transcribe_faithful_witness:
  "\<exists>t g. qwen3_transcribe demo_os demo_http (\<lambda>_. Inr demo_asr_response) (qwen3_asr_new [] []) (audio_input_new []) 0
     = (Inr t, 0) \<and> tr_segments t = [g] \<and> sg_speaker_id g = None"
proof -
  have "qwen3_transcribe demo_os demo_http (\<lambda>_. Inr demo_asr_response) (qwen3_asr_new [] []) (audio_input_new []) 0
      = (Inr (response_to_transcript demo_asr_response), 0)"
    by (simp add: qwen3_transcribe_def effect_defs demo_os_def demo_http_def Let_def) (simp add: demo_asr_response_def okE_def)
  from this and qwen3_transcribe_faithful [OF this] show ?thesis
    by (auto simp: demo_asr_response_def list_all2_Cons1 lit_def is_whitespace_def)
qed

end
