(* ===== verification/Storage.thy ===== *)
theory Storage
  imports Domain "HOL-Library.Multiset"
begin

text \<open>
  The persistence layer (\<open>engine/src/storage\<close>). A table is the list of its rows in insertion order,
  keyed by its primary key; \<open>INSERT ... ON CONFLICT DO UPDATE\<close> is \<open>upsert\<close>. Contents are JSON text:
  the encoder and decoder of \<open>serde_json\<close> are the parameter \<open>store_json\<close>; what a read answers after a
  write is the stored text read back (\<open>reread\<close>), which is the value itself when that is \<open>intact\<close>. Every operation takes the outcome of the
  database call, \<open>Some\<close> message when the backend fails; a failed statement changes nothing.
  \<open>keyed_store\<close> is the interface of everything that is stored under a key.
\<close>

section \<open>Tables\<close>

type_synonym ('k, 'r) table = "('k \<times> 'r) list"

text \<open>Insert a row, or replace the row of the key by what \<open>f\<close> makes of it.\<close>

fun upsert :: "'k \<Rightarrow> 'r \<Rightarrow> ('r \<Rightarrow> 'r) \<Rightarrow> ('k, 'r) table \<Rightarrow> ('k, 'r) table" where
  "upsert k r f [] = [(k, r)]"
| "upsert k r f ((k', r') # t) = (if k' = k then (k, f r') # t else (k', r') # upsert k r f t)"

definition keys :: "('k, 'r) table \<Rightarrow> 'k list" where
  "keys t = map fst t"

definition table_ok :: "('k, 'r) table \<Rightarrow> bool" where
  "table_ok t \<longleftrightarrow> distinct (keys t)"

lemma map_of_upsert [table_simps]:
  "map_of (upsert k r f t) j = (if j = k then Some (case map_of t k of None \<Rightarrow> r | Some r' \<Rightarrow> f r')
     else map_of t j)"
  by (induction t) auto

lemma keys_upsert [table_simps]:
  "keys (upsert k r f t) = (if k \<in> set (keys t) then keys t else keys t @ [k])"
  by (induction t) (force simp: keys_def)+

lemma table_ok_upsert: "table_ok t \<Longrightarrow> table_ok (upsert k r f t)"
  by (simp add: table_ok_def keys_upsert)

lemma table_ok_Nil [simp]: "table_ok []"
  by (simp add: table_ok_def keys_def)

lemma map_of_keys: "map_of t k = None \<longleftrightarrow> k \<notin> set (keys t)"
  by (simp add: keys_def map_of_eq_None_iff image_iff)

text \<open>A second upsert of the same row changes nothing when the update sets the same fields again.\<close>

lemma upsert_twice: "(\<And>x. f (f x) = f x) \<Longrightarrow> f r = r \<Longrightarrow> upsert k r f (upsert k r f t) = upsert k r f t"
  by (induction t) auto

text \<open>
  The interface: what is put under a key is got back, and other keys keep what they have. An
  element may be stored only in part (\<open>view\<close>).
\<close>

locale keyed_store =
  fixes put :: "'k \<Rightarrow> 'v \<Rightarrow> 'd \<Rightarrow> 'd" and get :: "'k \<Rightarrow> 'd \<Rightarrow> 'w option" and view :: "'v \<Rightarrow> 'w"
  assumes get_put: "get k (put k v d) = Some (view v)"
    and get_put_other: "j \<noteq> k \<Longrightarrow> get j (put k v d) = get j d"
begin

lemma get_put_iff: "get j (put k v d) = (if j = k then Some (view v) else get j d)"
  by (simp add: get_put get_put_other)

lemma put_shadow: "get j (put k v (put k w d)) = get j (put k v d)"
  by (simp add: get_put_iff)

lemma put_commute: "i \<noteq> k \<Longrightarrow> get j (put i v (put k w d)) = get j (put k w (put i v d))"
  by (simp add: get_put_iff)

text \<open>A sequence of puts leaves the last one per key.\<close>

lemma get_puts:
  "get k (fold (\<lambda>(k, v). put k v) kvs d)
     = (case map_of (rev kvs) k of Some v \<Rightarrow> Some (view v) | None \<Rightarrow> get k d)"
  by (induction kvs arbitrary: d) (auto simp: get_put_iff map_add_def split: option.splits)

end

section \<open>The database\<close>

datatype storage_error = StorageBackend ustr | StorageSerde ustr

fun storage_error_display :: "storage_error \<Rightarrow> ustr" where
  "storage_error_display (StorageBackend m) = lit ''storage backend error: '' @ m"
| "storage_error_display (StorageSerde m) = lit ''failed to (de)serialize stored data: '' @ m"

record meeting_row =
  mr_title :: ustr
  mr_created_at :: timestamp
  mr_data :: ustr

record store_db =
  sd_meetings :: "(ustr, meeting_row) table"
  sd_artifacts :: "(ustr \<times> ustr, ustr) table"

definition db_empty :: store_db where
  "db_empty = \<lparr> sd_meetings = [], sd_artifacts = [] \<rparr>"

record 'a codec =
  enc :: "'a \<Rightarrow> ustr + ustr"
  dec :: "ustr \<Rightarrow> ustr + 'a"

definition codec_ok :: "'a codec \<Rightarrow> bool" where
  "codec_ok c \<longleftrightarrow> (\<forall>x s. enc c x = Inr s \<longrightarrow> dec c s = Inr x)"

record store_json =
  sj_meeting :: "meeting codec"
  sj_transcript :: "transcript codec"
  sj_ir :: "meeting_ir codec"
  sj_status :: "processing_status codec"

definition ARTIFACT_TRANSCRIPT :: ustr where "ARTIFACT_TRANSCRIPT = lit ''transcript''"
definition ARTIFACT_MEETING_IR :: ustr where "ARTIFACT_MEETING_IR = lit ''meeting_ir''"
definition ARTIFACT_MOM :: ustr where "ARTIFACT_MOM = lit ''mom''"
definition ARTIFACT_PROCESSING_STATUS :: ustr where
  "ARTIFACT_PROCESSING_STATUS = lit ''processing_status''"

lemmas artifact_kinds = ARTIFACT_TRANSCRIPT_def ARTIFACT_MEETING_IR_def ARTIFACT_MOM_def
  ARTIFACT_PROCESSING_STATUS_def

lemma artifact_kinds_distinct [simp]:
  "ARTIFACT_TRANSCRIPT \<noteq> ARTIFACT_MEETING_IR" "ARTIFACT_TRANSCRIPT \<noteq> ARTIFACT_MOM"
  "ARTIFACT_TRANSCRIPT \<noteq> ARTIFACT_PROCESSING_STATUS" "ARTIFACT_MEETING_IR \<noteq> ARTIFACT_TRANSCRIPT"
  "ARTIFACT_MEETING_IR \<noteq> ARTIFACT_MOM" "ARTIFACT_MEETING_IR \<noteq> ARTIFACT_PROCESSING_STATUS"
  "ARTIFACT_MOM \<noteq> ARTIFACT_TRANSCRIPT" "ARTIFACT_MOM \<noteq> ARTIFACT_MEETING_IR"
  "ARTIFACT_MOM \<noteq> ARTIFACT_PROCESSING_STATUS" "ARTIFACT_PROCESSING_STATUS \<noteq> ARTIFACT_TRANSCRIPT"
  "ARTIFACT_PROCESSING_STATUS \<noteq> ARTIFACT_MEETING_IR" "ARTIFACT_PROCESSING_STATUS \<noteq> ARTIFACT_MOM"
  by (simp_all add: artifact_kinds lit_def)

text \<open>\<open>with_conn\<close>: a failing backend answers with its message and the statement has no effect.\<close>

definition with_conn :: "ustr option \<Rightarrow> (store_db \<Rightarrow> 'a \<times> store_db) \<Rightarrow> (store_db, storage_error, 'a) effect" where
  "with_conn fault f d = (case fault of Some m \<Rightarrow> (Inl (StorageBackend m), d)
     | None \<Rightarrow> (case f d of (x, d') \<Rightarrow> (Inr x, d')))"

text \<open>\<open>serde_json::to_string(..).map_err(se)?\<close> and \<open>from_str(..).map_err(se)?\<close>.\<close>

definition encodeE :: "'a codec \<Rightarrow> 'a \<Rightarrow> (store_db, storage_error, ustr) effect" where
  "encodeE c x d = (map_err StorageSerde (enc c x), d)"

definition decodeE :: "'a codec \<Rightarrow> ustr option \<Rightarrow> (store_db, storage_error, 'a option) effect" where
  "decodeE c row d = (case row of None \<Rightarrow> (Inr None, d)
     | Some json \<Rightarrow> (map_err StorageSerde (map_result Some (dec c json)), d))"

definition artifacts_put :: "ustr \<times> ustr \<Rightarrow> ustr \<Rightarrow> store_db \<Rightarrow> store_db" where
  "artifacts_put k content d = d\<lparr> sd_artifacts := upsert k content (\<lambda>_. content) (sd_artifacts d) \<rparr>"

definition artifacts_get :: "ustr \<times> ustr \<Rightarrow> store_db \<Rightarrow> ustr option" where
  "artifacts_get k d = map_of (sd_artifacts d) k"

definition meetings_put :: "ustr \<Rightarrow> meeting_row \<Rightarrow> store_db \<Rightarrow> store_db" where
  "meetings_put k row d = d\<lparr> sd_meetings := upsert k row
     (\<lambda>old. old\<lparr> mr_title := mr_title row, mr_data := mr_data row \<rparr>) (sd_meetings d) \<rparr>"

definition meetings_get :: "ustr \<Rightarrow> store_db \<Rightarrow> ustr option" where
  "meetings_get k d = map_option mr_data (map_of (sd_meetings d) k)"

definition put_artifact :: "ustr option \<Rightarrow> meeting_id \<Rightarrow> ustr \<Rightarrow> ustr
    \<Rightarrow> (store_db, storage_error, unit) effect" where
  "put_artifact fault i kind content =
     with_conn fault (\<lambda>d. ((), artifacts_put (meeting_id_str i, kind) content d))"

definition get_artifact :: "ustr option \<Rightarrow> meeting_id \<Rightarrow> ustr
    \<Rightarrow> (store_db, storage_error, ustr option) effect" where
  "get_artifact fault i kind = with_conn fault (\<lambda>d. (artifacts_get (meeting_id_str i, kind) d, d))"

section \<open>The store's operations\<close>

definition save_meeting :: "store_json \<Rightarrow> ustr option \<Rightarrow> meeting \<Rightarrow> (store_db, storage_error, unit) effect" where
  "save_meeting js fault m = bindE (encodeE (sj_meeting js) m) (\<lambda>data.
     with_conn fault (\<lambda>d. ((), meetings_put (meeting_id_str (mt_id m))
       \<lparr> mr_title = mt_title m, mr_created_at = mt_created_at m, mr_data = data \<rparr> d)))"

definition get_meeting :: "store_json \<Rightarrow> ustr option \<Rightarrow> meeting_id
    \<Rightarrow> (store_db, storage_error, meeting option) effect" where
  "get_meeting js fault i = bindE (with_conn fault (\<lambda>d. (meetings_get (meeting_id_str i) d, d)))
     (decodeE (sj_meeting js))"

text \<open>\<open>collect()\<close> of an iterator of results: the first error, or all the values.\<close>

fun collect_results :: "('e + 'a) list \<Rightarrow> 'e + 'a list" where
  "collect_results [] = Inr []"
| "collect_results (Inl e # rs) = Inl e"
| "collect_results (Inr x # rs) = map_result (Cons x) (collect_results rs)"

definition cmp_created_desc :: "ustr \<times> meeting_row \<Rightarrow> ustr \<times> meeting_row \<Rightarrow> ordering" where
  "cmp_created_desc a b = (if mr_created_at (snd a) > mr_created_at (snd b) then Less
     else if mr_created_at (snd a) < mr_created_at (snd b) then Greater else Equal)"

definition list_meetings :: "store_json \<Rightarrow> ustr option \<Rightarrow> (store_db, storage_error, meeting list) effect" where
  "list_meetings js fault = bindE
     (with_conn fault (\<lambda>d. (map (mr_data \<circ> snd) (sort_by cmp_created_desc (sd_meetings d)), d)))
     (\<lambda>rows d. (map_err StorageSerde (collect_results (map (dec (sj_meeting js)) rows)), d))"

definition save_transcript :: "store_json \<Rightarrow> ustr option \<Rightarrow> meeting_id \<Rightarrow> transcript
    \<Rightarrow> (store_db, storage_error, unit) effect" where
  "save_transcript js fault i t = bindE (encodeE (sj_transcript js) t)
     (put_artifact fault i ARTIFACT_TRANSCRIPT)"

definition get_transcript :: "store_json \<Rightarrow> ustr option \<Rightarrow> meeting_id
    \<Rightarrow> (store_db, storage_error, transcript option) effect" where
  "get_transcript js fault i = bindE (get_artifact fault i ARTIFACT_TRANSCRIPT) (decodeE (sj_transcript js))"

definition save_meeting_ir :: "store_json \<Rightarrow> ustr option \<Rightarrow> meeting_id \<Rightarrow> meeting_ir
    \<Rightarrow> (store_db, storage_error, unit) effect" where
  "save_meeting_ir js fault i ir = bindE (encodeE (sj_ir js) ir) (put_artifact fault i ARTIFACT_MEETING_IR)"

definition get_meeting_ir :: "store_json \<Rightarrow> ustr option \<Rightarrow> meeting_id
    \<Rightarrow> (store_db, storage_error, meeting_ir option) effect" where
  "get_meeting_ir js fault i = bindE (get_artifact fault i ARTIFACT_MEETING_IR) (decodeE (sj_ir js))"

definition save_mom :: "ustr option \<Rightarrow> meeting_id \<Rightarrow> ustr \<Rightarrow> (store_db, storage_error, unit) effect" where
  "save_mom fault i mom = put_artifact fault i ARTIFACT_MOM mom"

definition get_mom :: "ustr option \<Rightarrow> meeting_id \<Rightarrow> (store_db, storage_error, ustr option) effect" where
  "get_mom fault i = get_artifact fault i ARTIFACT_MOM"

definition save_processing_status :: "store_json \<Rightarrow> ustr option \<Rightarrow> meeting_id \<Rightarrow> processing_status
    \<Rightarrow> (store_db, storage_error, unit) effect" where
  "save_processing_status js fault i st = bindE (encodeE (sj_status js) st)
     (put_artifact fault i ARTIFACT_PROCESSING_STATUS)"

definition get_processing_status :: "store_json \<Rightarrow> ustr option \<Rightarrow> meeting_id
    \<Rightarrow> (store_db, storage_error, processing_status option) effect" where
  "get_processing_status js fault i = bindE (get_artifact fault i ARTIFACT_PROCESSING_STATUS)
     (decodeE (sj_status js))"

definition list_processing_statuses :: "store_json \<Rightarrow> ustr option
    \<Rightarrow> (store_db, storage_error, (meeting_id \<times> processing_status) list) effect" where
  "list_processing_statuses js fault = bindE
     (with_conn fault (\<lambda>d. (filter (\<lambda>((i, kind), c). kind = ARTIFACT_PROCESSING_STATUS) (sd_artifacts d), d)))
     (\<lambda>rows d. (map_err StorageSerde (collect_results
        (map (\<lambda>((i, kind), c). map_result (Pair (MeetingId i)) (dec (sj_status js) c)) rows)), d))"

section \<open>The tables are keyed stores\<close>

interpretation artifacts: keyed_store artifacts_put artifacts_get id
  by unfold_locales (simp_all add: artifacts_put_def artifacts_get_def table_simps split: option.splits)

interpretation meetings: keyed_store meetings_put meetings_get mr_data
  by unfold_locales (simp_all add: meetings_put_def meetings_get_def table_simps split: option.splits)

lemma store_frames [table_simps]:
  "meetings_get k (artifacts_put a c d) = meetings_get k d"
  "artifacts_get a (meetings_put k row d) = artifacts_get a d"
  by (simp_all add: artifacts_put_def artifacts_get_def meetings_put_def meetings_get_def)

text \<open>What a client can observe of the store: the answer of each read.\<close>

record store_view =
  sv_meeting :: "meeting_id \<Rightarrow> storage_error + meeting option"
  sv_transcript :: "meeting_id \<Rightarrow> storage_error + transcript option"
  sv_ir :: "meeting_id \<Rightarrow> storage_error + meeting_ir option"
  sv_mom :: "meeting_id \<Rightarrow> storage_error + ustr option"
  sv_status :: "meeting_id \<Rightarrow> storage_error + processing_status option"

definition view_store :: "store_json \<Rightarrow> store_db \<Rightarrow> store_view" where
  "view_store js d = \<lparr> sv_meeting = (\<lambda>i. fst (get_meeting js None i d)),
     sv_transcript = (\<lambda>i. fst (get_transcript js None i d)),
     sv_ir = (\<lambda>i. fst (get_meeting_ir js None i d)),
     sv_mom = (\<lambda>i. fst (get_mom None i d)),
     sv_status = (\<lambda>i. fst (get_processing_status js None i d)) \<rparr>"

definition read_row :: "'a codec \<Rightarrow> ustr option \<Rightarrow> storage_error + 'a option" where
  "read_row c row = (case row of None \<Rightarrow> Inr None
     | Some json \<Rightarrow> map_err StorageSerde (map_result Some (dec c json)))"

lemma view_store_eq:
  "view_store js d = \<lparr>
     sv_meeting = (\<lambda>i. read_row (sj_meeting js) (meetings_get (meeting_id_str i) d)),
     sv_transcript = (\<lambda>i. read_row (sj_transcript js) (artifacts_get (meeting_id_str i, ARTIFACT_TRANSCRIPT) d)),
     sv_ir = (\<lambda>i. read_row (sj_ir js) (artifacts_get (meeting_id_str i, ARTIFACT_MEETING_IR) d)),
     sv_mom = (\<lambda>i. Inr (artifacts_get (meeting_id_str i, ARTIFACT_MOM) d)),
     sv_status = (\<lambda>i. read_row (sj_status js) (artifacts_get (meeting_id_str i, ARTIFACT_PROCESSING_STATUS) d)) \<rparr>"
  unfolding view_store_def get_meeting_def get_transcript_def get_meeting_ir_def get_mom_def
    get_processing_status_def get_artifact_def read_row_def with_conn_def bindE_def decodeE_def
  by (auto split: option.splits)

text \<open>
  What a read answers after a value was written: the value as its text preserves it. JSON text holds
  no NaN and no infinity, and \<open>serde_json\<close> may read a double back one unit off, so this need not be the
  value itself; it is for an \<open>intact\<close> one.
\<close>

definition reread :: "'a codec \<Rightarrow> 'a \<Rightarrow> storage_error + 'a option" where
  "reread c x = (case enc c x of Inr s \<Rightarrow> read_row c (Some s) | Inl e \<Rightarrow> Inl (StorageSerde e))"

definition intact :: "'a codec \<Rightarrow> 'a \<Rightarrow> bool" where
  "intact c x \<longleftrightarrow> (\<exists>s. enc c x = Inr s \<and> dec c s = Inr x)"

lemma reread_enc: "enc c x = Inr s \<Longrightarrow> read_row c (Some s) = reread c x"
  by (simp add: reread_def)

lemma reread_intact [simp]: "intact c x \<Longrightarrow> reread c x = Inr (Some x)"
  by (auto simp: intact_def reread_def read_row_def)

lemma codec_ok_intact: "codec_ok c \<Longrightarrow> enc c x = Inr s \<Longrightarrow> intact c x"
  by (simp add: codec_ok_def intact_def)

text \<open>An operation either has the effect \<open>g\<close> on what can be observed, or fails and changes nothing.\<close>

definition atomic :: "store_json \<Rightarrow> (store_db, storage_error, unit) effect \<Rightarrow> (store_view \<Rightarrow> store_view) \<Rightarrow> bool" where
  "atomic js m g \<longleftrightarrow> (\<forall>d. case m d of (Inr _, d') \<Rightarrow> view_store js d' = g (view_store js d)
     | (Inl _, d') \<Rightarrow> d' = d)"

lemma atomic_ok: "atomic js m g \<Longrightarrow> m d = (Inr x, d') \<Longrightarrow> view_store js d' = g (view_store js d)"
  unfolding atomic_def by (drule spec [of _ d]) simp

lemma atomic_err: "atomic js m g \<Longrightarrow> m d = (Inl e, d') \<Longrightarrow> d' = d"
  unfolding atomic_def by (drule spec [of _ d]) simp

lemma meeting_id_str_eq_iff: "meeting_id_str i = meeting_id_str j \<longleftrightarrow> i = j"
  by (cases i; cases j) simp

lemmas store_op_defs = save_meeting_def save_transcript_def save_meeting_ir_def save_mom_def
  save_processing_status_def put_artifact_def with_conn_def encodeE_def bindE_def

lemmas view_simps = view_store_eq meetings.get_put_iff artifacts.get_put_iff table_simps
  meeting_id_str_eq_iff

lemma save_meeting_atomic:
  "atomic js (save_meeting js fault m)
     (\<lambda>v. v\<lparr> sv_meeting := (sv_meeting v)(mt_id m := reread (sj_meeting js) m) \<rparr>)"
  by (cases "enc (sj_meeting js) m"; cases fault)
    (auto simp: atomic_def store_op_defs view_simps reread_enc fun_eq_iff)

lemma save_transcript_atomic:
  "atomic js (save_transcript js fault i t)
     (\<lambda>v. v\<lparr> sv_transcript := (sv_transcript v)(i := reread (sj_transcript js) t) \<rparr>)"
  by (cases "enc (sj_transcript js) t"; cases fault)
    (auto simp: atomic_def store_op_defs view_simps reread_enc fun_eq_iff)

lemma save_meeting_ir_atomic:
  "atomic js (save_meeting_ir js fault i ir)
     (\<lambda>v. v\<lparr> sv_ir := (sv_ir v)(i := reread (sj_ir js) ir) \<rparr>)"
  by (cases "enc (sj_ir js) ir"; cases fault)
    (auto simp: atomic_def store_op_defs view_simps reread_enc fun_eq_iff)

lemma save_mom_atomic:
  "atomic js (save_mom fault i mom) (\<lambda>v. v\<lparr> sv_mom := (sv_mom v)(i := Inr (Some mom)) \<rparr>)"
  by (cases fault) (auto simp: atomic_def store_op_defs view_simps fun_eq_iff)

lemma save_processing_status_atomic:
  "atomic js (save_processing_status js fault i st)
     (\<lambda>v. v\<lparr> sv_status := (sv_status v)(i := reread (sj_status js) st) \<rparr>)"
  by (cases "enc (sj_status js) st"; cases fault)
    (auto simp: atomic_def store_op_defs view_simps reread_enc fun_eq_iff)

lemma store_writes_atomic:
  shows "atomic js (save_meeting js fault m) (\<lambda>v. v\<lparr> sv_meeting := (sv_meeting v)(mt_id m := reread (sj_meeting js) m) \<rparr>)"
    "atomic js (save_transcript js fault i t) (\<lambda>v. v\<lparr> sv_transcript := (sv_transcript v)(i := reread (sj_transcript js) t) \<rparr>)"
    "atomic js (save_meeting_ir js fault i ir) (\<lambda>v. v\<lparr> sv_ir := (sv_ir v)(i := reread (sj_ir js) ir) \<rparr>)"
    "atomic js (save_mom fault i mom) (\<lambda>v. v\<lparr> sv_mom := (sv_mom v)(i := Inr (Some mom)) \<rparr>)"
    "atomic js (save_processing_status js fault i st) (\<lambda>v. v\<lparr> sv_status := (sv_status v)(i := reread (sj_status js) st) \<rparr>)"
  by (simp_all add: save_meeting_atomic save_transcript_atomic
      save_meeting_ir_atomic save_mom_atomic save_processing_status_atomic)

text \<open>C18. The store refines its abstract specification: each write either updates exactly the
  entry of its own meeting and kind in what the reads answer, to what the stored text of the value reads
  back as, or fails and leaves the database as it was; no write disturbs another meeting or another
  kind of artifact.\<close>

theorem store_refines_view:
  "atomic js (save_meeting js fault m)
      (\<lambda>v. v\<lparr> sv_meeting := (sv_meeting v)(mt_id m := reread (sj_meeting js) m) \<rparr>)
    \<and> atomic js (save_transcript js fault i t)
      (\<lambda>v. v\<lparr> sv_transcript := (sv_transcript v)(i := reread (sj_transcript js) t) \<rparr>)
    \<and> atomic js (save_meeting_ir js fault i ir)
      (\<lambda>v. v\<lparr> sv_ir := (sv_ir v)(i := reread (sj_ir js) ir) \<rparr>)
    \<and> atomic js (save_mom fault i mom) (\<lambda>v. v\<lparr> sv_mom := (sv_mom v)(i := Inr (Some mom)) \<rparr>)
    \<and> atomic js (save_processing_status js fault i st)
      (\<lambda>v. v\<lparr> sv_status := (sv_status v)(i := reread (sj_status js) st) \<rparr>)"
  by (intro conjI store_writes_atomic)

text \<open>A codec for a single value, the smallest that satisfies the law.\<close>

definition single_codec :: "'a \<Rightarrow> 'a codec" where
  "single_codec x = \<lparr> enc = (\<lambda>y. if y = x then Inr [] else Inl []), dec = (\<lambda>_. Inr x) \<rparr>"

lemma codec_ok_single [simp]: "codec_ok (single_codec x)"
  by (simp add: codec_ok_def single_codec_def)

lemma enc_single [simp]: "enc (single_codec x) x = Inr []"
  by (simp add: single_codec_def)

lemma intact_single [simp]: "intact (single_codec x) x"
  by (simp add: intact_def single_codec_def)

definition demo_meeting :: meeting where
  "demo_meeting = meeting_new (MeetingId (lit ''m1'')) 5 (lit ''Planning'')"

definition demo_transcript :: transcript where
  "demo_transcript = \<lparr> tr_segments = [] \<rparr>"

definition demo_store_json :: store_json where
  "demo_store_json = \<lparr> sj_meeting = single_codec demo_meeting, sj_transcript = single_codec demo_transcript,
     sj_ir = single_codec meeting_ir_default, sj_status = single_codec (status_ready 0) \<rparr>"

section \<open>Listing the meetings\<close>

text \<open>
  The invariant of the database: one row per key, and a meeting row decodes to a meeting of that
  id and title. Every write keeps it.
\<close>

definition row_ok :: "store_json \<Rightarrow> ustr \<times> meeting_row \<Rightarrow> bool" where
  "row_ok js r \<longleftrightarrow> (\<exists>m. dec (sj_meeting js) (mr_data (snd r)) = Inr m
     \<and> mt_id m = MeetingId (fst r) \<and> mt_title m = mr_title (snd r))"

text \<open>What the meeting column needs of the codec: text and identity survive, numbers need not.\<close>

definition meeting_law :: "store_json \<Rightarrow> bool" where
  "meeting_law js \<longleftrightarrow> (\<forall>m s. enc (sj_meeting js) m = Inr s \<longrightarrow> (\<exists>m'. dec (sj_meeting js) s = Inr m'
     \<and> mt_id m' = mt_id m \<and> mt_title m' = mt_title m))"

lemma meeting_law_demo: "meeting_law demo_store_json"
  by (simp add: meeting_law_def demo_store_json_def single_codec_def)

definition db_ok :: "store_json \<Rightarrow> store_db \<Rightarrow> bool" where
  "db_ok js d \<longleftrightarrow> table_ok (sd_meetings d) \<and> table_ok (sd_artifacts d)
     \<and> (\<forall>r \<in> set (sd_meetings d). row_ok js r)"

lemma db_ok_empty: "db_ok js db_empty"
  by (simp add: db_ok_def db_empty_def)

lemma set_upsert: "x \<in> set (upsert k r f t) \<Longrightarrow> x \<in> set t \<or> x = (k, r) \<or> (\<exists>r'. (k, r') \<in> set t \<and> x = (k, f r'))"
  by (induction t) (auto split: if_splits)

lemma db_ok_artifacts_put: "db_ok js d \<Longrightarrow> db_ok js (artifacts_put k c d)"
  by (simp add: db_ok_def artifacts_put_def table_ok_upsert)

lemma db_ok_meetings_put:
  assumes "db_ok js d" "row_ok js (k, row)"
  shows "db_ok js (meetings_put k row d)"
proof -
  have "row_ok js r" if "r \<in> set (sd_meetings (meetings_put k row d))" for r
    using set_upsert [OF that [unfolded meetings_put_def, simplified]] assms
    by (auto simp: db_ok_def row_ok_def)
  then show ?thesis using assms by (simp add: db_ok_def meetings_put_def table_ok_upsert)
qed

definition keeps :: "('s \<Rightarrow> bool) \<Rightarrow> ('s, 'e, 'a) effect \<Rightarrow> bool" where
  "keeps I m \<longleftrightarrow> (\<forall>d. I d \<longrightarrow> I (snd (m d)))"

lemma put_artifact_keeps: "keeps (db_ok js) (put_artifact fault i kind content)"
  by (auto simp: keeps_def put_artifact_def with_conn_def db_ok_artifacts_put split: option.splits)

lemma put_after_encode_keeps:
  "(\<And>x. keeps I (m x)) \<Longrightarrow> keeps I (bindE (encodeE c v) m)"
  by (auto simp: keeps_def bindE_def encodeE_def split: sum.splits prod.splits)

text \<open>C40. The database invariant - one row per primary key, every meeting row decodes to the meeting
  of that id and title - holds initially and is kept by every write, whatever the backend does.\<close>

theorem store_invariant:
  assumes "meeting_law js"
  shows "db_ok js db_empty
    \<and> keeps (db_ok js) (save_meeting js fault m)
    \<and> keeps (db_ok js) (save_transcript js fault i t)
    \<and> keeps (db_ok js) (save_meeting_ir js fault i ir)
    \<and> keeps (db_ok js) (save_mom fault i mom)
    \<and> keeps (db_ok js) (save_processing_status js fault i st)"
proof (intro conjI)
  show "db_ok js db_empty" by (rule db_ok_empty)
  have "row_ok js (meeting_id_str (mt_id m),
      \<lparr> mr_title = mt_title m, mr_created_at = mt_created_at m, mr_data = s \<rparr>)"
    if "enc (sj_meeting js) m = Inr s" for s
    using that assms by (cases "mt_id m") (fastforce simp: meeting_law_def row_ok_def)
  then have "db_ok js (snd (save_meeting js fault m d))" if "db_ok js d" for d
    using that
    by (cases "enc (sj_meeting js) m"; cases fault; simp add: store_op_defs db_ok_meetings_put)
  then show "keeps (db_ok js) (save_meeting js fault m)" by (simp add: keeps_def)
  show "keeps (db_ok js) (save_transcript js fault i t)" "keeps (db_ok js) (save_meeting_ir js fault i ir)"
    "keeps (db_ok js) (save_processing_status js fault i st)"
    by (auto simp only: save_transcript_def save_meeting_ir_def save_processing_status_def
        intro!: put_after_encode_keeps put_artifact_keeps)
  show "keeps (db_ok js) (save_mom fault i mom)"
    by (simp add: save_mom_def put_artifact_keeps)
qed

theorem store_invariant_witness:
  "db_ok demo_store_json (snd (save_meeting demo_store_json None demo_meeting db_empty))
   \<and> sd_meetings (snd (save_meeting demo_store_json None demo_meeting db_empty)) \<noteq> []"
proof -
  have "db_ok demo_store_json (snd (save_meeting demo_store_json None demo_meeting db_empty))"
    using store_invariant [OF meeting_law_demo, of None demo_meeting] by (simp add: keeps_def)
  moreover have "sd_meetings (snd (save_meeting demo_store_json None demo_meeting db_empty)) \<noteq> []"
    by (simp add: store_op_defs demo_store_json_def single_codec_def meetings_put_def db_empty_def)
  ultimately show ?thesis by blast
qed

lemma collect_results_ok: "collect_results (map Inr xs) = Inr xs"
  by (induction xs) auto

lemma collect_results_map:
  "(\<And>x. x \<in> set xs \<Longrightarrow> f x = Inr (g x)) \<Longrightarrow> collect_results (map f xs) = Inr (map g xs)"
  by (induction xs) auto

interpretation created_order: cmp_order cmp_created_desc "\<lambda>_. True"
  by unfold_locales (auto simp: cmp_created_desc_def split: if_splits)

lemma sort_by_mset: "mset (sort_by cmp xs) = mset xs"
proof (induction xs)
  case (Cons x xs)
  have "mset (insert_by cmp x ys) = add_mset x (mset ys)" for ys
    by (induction ys) auto
  then show ?case using Cons by simp
qed simp

text \<open>The meeting a row holds.\<close>

definition row_meeting :: "store_json \<Rightarrow> ustr \<times> meeting_row \<Rightarrow> meeting" where
  "row_meeting js r = (case dec (sj_meeting js) (mr_data (snd r)) of Inr m \<Rightarrow> m | Inl _ \<Rightarrow> undefined)"

lemma row_meeting_ok:
  "row_ok js r \<Longrightarrow> dec (sj_meeting js) (mr_data (snd r)) = Inr (row_meeting js r)
     \<and> mt_id (row_meeting js r) = MeetingId (fst r)"
  by (auto simp: row_ok_def row_meeting_def)

lemma list_meetings_rows:
  assumes "db_ok js d"
  shows "list_meetings js None d = (Inr (map (row_meeting js) (sort_by cmp_created_desc (sd_meetings d))), d)"
proof -
  have "collect_results (map (\<lambda>r. dec (sj_meeting js) (mr_data (snd r))) (sort_by cmp_created_desc (sd_meetings d)))
      = Inr (map (row_meeting js) (sort_by cmp_created_desc (sd_meetings d)))"
    by (rule collect_results_map) (use assms in \<open>auto simp: db_ok_def row_meeting_ok\<close>)
  then show ?thesis by (simp add: list_meetings_def bindE_def with_conn_def comp_def)
qed

lemma map_of_sorted:
  assumes "table_ok t"
  shows "distinct (keys (sort_by cmp t))" "map_of (sort_by cmp t) = map_of t"
proof -
  have m: "mset (keys (sort_by cmp t)) = mset (keys t)"
    by (simp add: keys_def sort_by_mset)
  show d: "distinct (keys (sort_by cmp t))"
    using assms m by (metis table_ok_def mset_eq_imp_distinct_iff)
  show "map_of (sort_by cmp t) = map_of t"
    using d assms by (intro map_of_eqI) (auto simp: keys_def table_ok_def)
qed

text \<open>C33. Listing never fails on a healthy backend and is complete: it returns exactly the meetings
  that can be read by id, each once, and newest first by the creation time of their rows.\<close>

theorem list_meetings_complete:
  assumes "db_ok js d"
  shows "\<exists>ms. list_meetings js None d = (Inr ms, d) \<and> distinct (map mt_id ms)
    \<and> (\<forall>i m. m \<in> set ms \<and> mt_id m = i \<longleftrightarrow> fst (get_meeting js None i d) = Inr (Some m))
    \<and> sorted_wrt (\<lambda>a b. a \<ge> b) (map (\<lambda>m. mr_created_at (the (map_of (sd_meetings d) (meeting_id_str (mt_id m))))) ms)"
proof -
  let ?rows = "sort_by cmp_created_desc (sd_meetings d)"
  let ?ms = "map (row_meeting js) ?rows"
  have rows: "\<forall>r \<in> set ?rows. row_ok js r" using assms by (simp add: db_ok_def)
  have t: "table_ok (sd_meetings d)" using assms by (simp add: db_ok_def)
  have ids: "map mt_id ?ms = map MeetingId (keys ?rows)"
    using rows row_meeting_ok by (auto simp: keys_def)
  have dist: "distinct (map mt_id ?ms)"
    unfolding ids using map_of_sorted(1) [OF t] by (simp add: distinct_map inj_on_def)
  have lookup: "map_of (sd_meetings d) k = Some row \<longleftrightarrow> (k, row) \<in> set ?rows" for k row
    using t by (simp add: table_ok_def keys_def)
  have "m \<in> set ?ms \<and> mt_id m = i \<longleftrightarrow> fst (get_meeting js None i d) = Inr (Some m)" for i m
  proof (cases "map_of (sd_meetings d) (meeting_id_str i)")
    case None
    then have "\<forall>r \<in> set ?rows. fst r \<noteq> meeting_id_str i"
      by (force simp: map_of_eq_None_iff)
    then have "\<not> (m \<in> set ?ms \<and> mt_id m = i)" using rows row_meeting_ok by fastforce
    then show ?thesis using None
      by (simp add: get_meeting_def meetings_get_def bindE_def with_conn_def decodeE_def)
  next
    case (Some row)
    then have in_rows: "(meeting_id_str i, row) \<in> set ?rows" by (simp add: lookup)
    then have ok: "row_ok js (meeting_id_str i, row)" using rows by blast
    have g: "fst (get_meeting js None i d) = Inr (Some (row_meeting js (meeting_id_str i, row)))"
      using Some row_meeting_ok [OF ok]
      by (simp add: get_meeting_def meetings_get_def bindE_def with_conn_def decodeE_def)
    have "m \<in> set ?ms \<and> mt_id m = i \<longleftrightarrow> m = row_meeting js (meeting_id_str i, row)"
    proof
      assume "m \<in> set ?ms \<and> mt_id m = i"
      then obtain r where r: "r \<in> set ?rows" "m = row_meeting js r" "mt_id m = i" by auto
      then have "fst r = meeting_id_str i" using rows row_meeting_ok by fastforce
      then have "r = (meeting_id_str i, row)"
        using r(1) Some lookup by (metis option.inject prod.collapse)
      then show "m = row_meeting js (meeting_id_str i, row)" using r by simp
    next
      assume "m = row_meeting js (meeting_id_str i, row)"
      then show "m \<in> set ?ms \<and> mt_id m = i" using in_rows row_meeting_ok [OF ok] by simp
    qed
    then show ?thesis using g by auto
  qed
  moreover have created: "map (\<lambda>m. mr_created_at (the (map_of (sd_meetings d) (meeting_id_str (mt_id m))))) ?ms
      = map (mr_created_at \<circ> snd) ?rows"
  proof -
    have "mr_created_at (the (map_of (sd_meetings d) (meeting_id_str (mt_id (row_meeting js r))))) = mr_created_at (snd r)"
      if "r \<in> set ?rows" for r
      using that lookup [of "fst r" "snd r"] rows row_meeting_ok by fastforce
    then show ?thesis by simp
  qed
  moreover have "sorted_wrt (\<lambda>a b. a \<ge> b) (map (mr_created_at \<circ> snd) ?rows)"
    using created_order.sort_by_sorted [of "sd_meetings d"]
    unfolding sorted_wrt_map by (rule sorted_wrt_mono_rel [rotated]) (auto simp: cmp_created_desc_def split: if_splits)
  ultimately show ?thesis
    using dist list_meetings_rows [OF assms]
    by (intro exI [of _ ?ms] conjI) (simp_all only: created simp_thms)
qed

theorem list_meetings_complete_witness:
  "\<exists>ms. list_meetings demo_store_json None
      (snd (save_meeting demo_store_json None demo_meeting db_empty)) = (Inr ms,
       snd (save_meeting demo_store_json None demo_meeting db_empty))
     \<and> demo_meeting \<in> set ms"
proof -
  let ?d = "snd (save_meeting demo_store_json None demo_meeting db_empty)"
  have d: "?d = meetings_put (lit ''m1'') \<lparr> mr_title = mt_title demo_meeting,
      mr_created_at = mt_created_at demo_meeting, mr_data = [] \<rparr> db_empty"
    by (simp add: store_op_defs demo_store_json_def single_codec_def demo_meeting_def meeting_new_def)
  have "row_ok demo_store_json (lit ''m1'', \<lparr> mr_title = mt_title demo_meeting,
      mr_created_at = mt_created_at demo_meeting, mr_data = [] \<rparr>)"
    by (simp add: row_ok_def demo_store_json_def single_codec_def demo_meeting_def meeting_new_def)
  then have ok: "db_ok demo_store_json ?d"
    unfolding d by (rule db_ok_meetings_put [OF db_ok_empty])
  have "fst (get_meeting demo_store_json None (MeetingId (lit ''m1'')) ?d) = Inr (Some demo_meeting)"
    unfolding d by (simp add: get_meeting_def bindE_def with_conn_def decodeE_def meetings.get_put
        demo_store_json_def single_codec_def)
  then show ?thesis using list_meetings_complete [OF ok] by blast
qed

end
