(* ===== verification/Jobs.thy ===== *)
theory Jobs
  imports Storage "HOL-Library.Word"
begin

text \<open>
  The job registry and its durable mirror (\<open>engine/src/pipeline/jobs.rs\<close>, \<open>job_store.rs\<close>). The
  in-memory map and the SQLite table are separate parts of the state: every change of a job is
  written to the table best-effort, so a failing table never stops the registry. A job's
  cancellation flag lives in its entry of the map. The SQL text columns hold the snake_case tokens
  of the enums; \<open>attempts\<close> is a \<open>u32\<close> stored as an \<open>i64\<close>.
\<close>

section \<open>The job model\<close>

datatype job_id = JobId (job_id_str: ustr)

datatype job_kind = Process | Reprocess | Embedding
datatype job_status = Queued | Running | Completed | JobFailedStatus | Cancelled
datatype job_stage = Created | MediaProcessing | Transcription | Chunking | Extraction | Synthesis
  | Validation | Rendering | Storing | Done

definition is_terminal :: "job_status \<Rightarrow> bool" where
  "is_terminal s = (case s of Completed \<Rightarrow> True | JobFailedStatus \<Rightarrow> True | Cancelled \<Rightarrow> True | _ \<Rightarrow> False)"

record job =
  jb_id :: job_id
  jb_kind :: job_kind
  jb_status :: job_status
  jb_stage :: job_stage
  jb_meeting_id :: "meeting_id option"
  jb_error :: "ustr option"
  jb_attempts :: "32 word"

definition job_new :: "job_id \<Rightarrow> job_kind \<Rightarrow> job" where
  "job_new i k = \<lparr> jb_id = i, jb_kind = k, jb_status = Queued, jb_stage = Created,
     jb_meeting_id = None, jb_error = None, jb_attempts = 0 \<rparr>"

section \<open>The stored tokens\<close>

fun job_kind_token :: "job_kind \<Rightarrow> ustr" where
  "job_kind_token Process = lit ''process''"
| "job_kind_token Reprocess = lit ''reprocess''"
| "job_kind_token Embedding = lit ''embedding''"

fun job_status_token :: "job_status \<Rightarrow> ustr" where
  "job_status_token Queued = lit ''queued''"
| "job_status_token Running = lit ''running''"
| "job_status_token Completed = lit ''completed''"
| "job_status_token JobFailedStatus = lit ''failed''"
| "job_status_token Cancelled = lit ''cancelled''"

fun job_stage_token :: "job_stage \<Rightarrow> ustr" where
  "job_stage_token Created = lit ''created''"
| "job_stage_token MediaProcessing = lit ''media_processing''"
| "job_stage_token Transcription = lit ''transcription''"
| "job_stage_token Chunking = lit ''chunking''"
| "job_stage_token Extraction = lit ''extraction''"
| "job_stage_token Synthesis = lit ''synthesis''"
| "job_stage_token Validation = lit ''validation''"
| "job_stage_token Rendering = lit ''rendering''"
| "job_stage_token Storing = lit ''storing''"
| "job_stage_token Done = lit ''done''"

definition job_kinds :: "job_kind list" where
  "job_kinds = [Process, Reprocess, Embedding]"

definition job_statuses :: "job_status list" where
  "job_statuses = [Queued, Running, Completed, JobFailedStatus, Cancelled]"

definition job_stages :: "job_stage list" where
  "job_stages = [Created, MediaProcessing, Transcription, Chunking, Extraction, Synthesis, Validation,
     Rendering, Storing, Done]"

text \<open>\<open>parse_enum\<close>: the variant whose token it is.\<close>

definition parse_enum :: "'e list \<Rightarrow> ('e \<Rightarrow> ustr) \<Rightarrow> ustr \<Rightarrow> 'e option" where
  "parse_enum variants token s = find (\<lambda>v. token v = s) variants"

lemma parse_enum_token:
  "v \<in> set variants \<Longrightarrow> inj_on token (set variants) \<Longrightarrow> parse_enum variants token (token v) = Some v"
  unfolding parse_enum_def by (induction variants) (auto simp: inj_on_def)

lemma job_kind_token_inj [simp]: "job_kind_token a = job_kind_token b \<longleftrightarrow> a = b"
  by (cases a; cases b; simp add: lit_def)

lemma job_status_token_inj [simp]: "job_status_token a = job_status_token b \<longleftrightarrow> a = b"
  by (cases a; cases b; simp add: lit_def)

lemma job_stage_token_inj [simp]: "job_stage_token a = job_stage_token b \<longleftrightarrow> a = b"
  by (cases a; cases b; simp add: lit_def)

lemma job_kinds_complete [simp]: "k \<in> set job_kinds"
  by (cases k; simp add: job_kinds_def)

lemma job_statuses_complete [simp]: "s \<in> set job_statuses"
  by (cases s; simp add: job_statuses_def)

lemma job_stages_complete [simp]: "g \<in> set job_stages"
  by (cases g; simp add: job_stages_def)

lemma token_roundtrip [simp]:
  "parse_enum job_kinds job_kind_token (job_kind_token k) = Some k"
  "parse_enum job_statuses job_status_token (job_status_token s) = Some s"
  "parse_enum job_stages job_stage_token (job_stage_token g) = Some g"
  by (simp_all add: parse_enum_token inj_on_def)

section \<open>The job table\<close>

record job_row =
  jr_kind :: ustr
  jr_meeting_id :: "ustr option"
  jr_state :: ustr
  jr_stage :: ustr
  jr_attempts :: int
  jr_error :: "ustr option"
  jr_created_at :: timestamp
  jr_updated_at :: timestamp

definition job_to_row :: "timestamp \<Rightarrow> job \<Rightarrow> job_row" where
  "job_to_row now j = \<lparr> jr_kind = job_kind_token (jb_kind j),
     jr_meeting_id = map_option meeting_id_str (jb_meeting_id j),
     jr_state = job_status_token (jb_status j), jr_stage = job_stage_token (jb_stage j),
     jr_attempts = uint (jb_attempts j), jr_error = jb_error j,
     jr_created_at = now, jr_updated_at = now \<rparr>"

text \<open>\<open>JobStore::upsert\<close>: everything but the creation time is replaced.\<close>

definition job_store_upsert :: "timestamp \<Rightarrow> job \<Rightarrow> (ustr, job_row) table \<Rightarrow> (ustr, job_row) table" where
  "job_store_upsert now j t = upsert (job_id_str (jb_id j)) (job_to_row now j)
     (\<lambda>old. (job_to_row now j)\<lparr> jr_created_at := jr_created_at old \<rparr>) t"

definition or_default :: "'a option \<Rightarrow> 'a \<Rightarrow> 'a" where
  "or_default v d = (case v of Some x \<Rightarrow> x | None \<Rightarrow> d)"

definition job_from_row :: "ustr \<times> job_row \<Rightarrow> job" where
  "job_from_row r = (case r of (i, row) \<Rightarrow> \<lparr> jb_id = JobId i,
     jb_kind = or_default (parse_enum job_kinds job_kind_token (jr_kind row)) Process,
     jb_status = or_default (parse_enum job_statuses job_status_token (jr_state row)) Queued,
     jb_stage = or_default (parse_enum job_stages job_stage_token (jr_stage row)) Created,
     jb_meeting_id = map_option MeetingId (jr_meeting_id row),
     jb_error = jr_error row,
     jb_attempts = word_of_int (max (jr_attempts row) 0) \<rparr>)"

definition cmp_job_created :: "ustr \<times> job_row \<Rightarrow> ustr \<times> job_row \<Rightarrow> ordering" where
  "cmp_job_created a b = (if jr_created_at (snd a) < jr_created_at (snd b) then Less
     else if jr_created_at (snd a) > jr_created_at (snd b) then Greater else Equal)"

text \<open>\<open>SELECT ... WHERE state IN ('queued','running') ORDER BY created_at\<close>.\<close>

definition list_unfinished :: "(ustr, job_row) table \<Rightarrow> job list" where
  "list_unfinished t = map job_from_row (sort_by cmp_job_created
     (filter (\<lambda>r. jr_state (snd r) \<in> {lit ''queued'', lit ''running''}) t))"

section \<open>The registry\<close>

record job_entry =
  je_job :: job
  je_cancel :: bool

record registry =
  rg_jobs :: "job_id \<rightharpoonup> job_entry"
  rg_store :: "(ustr, job_row) table option"

definition registry_new :: registry where
  "registry_new = \<lparr> rg_jobs = Map.empty, rg_store = None \<rparr>"

definition registry_with_store :: "(ustr, job_row) table \<Rightarrow> registry" where
  "registry_with_store t = \<lparr> rg_jobs = Map.empty, rg_store = Some t \<rparr>"

text \<open>The outcome of a table write: the time it is made at, and whether the backend fails.\<close>

record job_write =
  jw_now :: timestamp
  jw_fails :: bool

definition persist :: "job_write \<Rightarrow> job \<Rightarrow> registry \<Rightarrow> registry" where
  "persist w j r = (case rg_store r of None \<Rightarrow> r
     | Some t \<Rightarrow> if jw_fails w then r else r\<lparr> rg_store := Some (job_store_upsert (jw_now w) j t) \<rparr>)"

text \<open>\<open>create\<close>, with the random id as an argument.\<close>

definition registry_create :: "job_write \<Rightarrow> job_id \<Rightarrow> job_kind \<Rightarrow> registry \<Rightarrow> registry" where
  "registry_create w i kind r =
     (let j = job_new i kind; r = persist w j r
      in r\<lparr> rg_jobs := (rg_jobs r)(i \<mapsto> \<lparr> je_job = j, je_cancel = False \<rparr>) \<rparr>)"

definition registry_reinsert :: "job_write \<Rightarrow> job \<Rightarrow> registry \<Rightarrow> registry" where
  "registry_reinsert w j r =
     (let r = persist w j r
      in r\<lparr> rg_jobs := (rg_jobs r)(jb_id j \<mapsto> \<lparr> je_job = j, je_cancel = False \<rparr>) \<rparr>)"

definition registry_get :: "job_id \<Rightarrow> registry \<Rightarrow> job option" where
  "registry_get i r = map_option je_job (rg_jobs r i)"

definition request_cancel :: "job_id \<Rightarrow> registry \<Rightarrow> bool \<times> registry" where
  "request_cancel i r = (case rg_jobs r i of
     Some e \<Rightarrow> (True, r\<lparr> rg_jobs := (rg_jobs r)(i \<mapsto> e\<lparr> je_cancel := True \<rparr>) \<rparr>)
   | None \<Rightarrow> (False, r))"

definition is_cancelled :: "job_id \<Rightarrow> registry \<Rightarrow> bool" where
  "is_cancelled i r = (case rg_jobs r i of Some e \<Rightarrow> je_cancel e | None \<Rightarrow> False)"

definition registry_update :: "job_write \<Rightarrow> job_id \<Rightarrow> (job \<Rightarrow> job) \<Rightarrow> registry \<Rightarrow> registry" where
  "registry_update w i f r = (case rg_jobs r i of
     Some e \<Rightarrow> persist w (f (je_job e))
        (r\<lparr> rg_jobs := (rg_jobs r)(i \<mapsto> e\<lparr> je_job := f (je_job e) \<rparr>) \<rparr>)
   | None \<Rightarrow> r)"

section \<open>The mirror\<close>

lemma job_row_roundtrip: "job_from_row (job_id_str (jb_id j), job_to_row now j) = j"
proof (cases "jb_meeting_id j")
  case None
  then show ?thesis
    by (cases "jb_id j") (simp add: job_from_row_def job_to_row_def or_default_def)
next
  case (Some m)
  then show ?thesis
    by (cases "jb_id j"; cases m) (simp add: job_from_row_def job_to_row_def or_default_def)
qed

text \<open>A row holds a job when it is the row some write of it made, up to the creation time.\<close>

definition row_holds :: "(ustr, job_row) table \<Rightarrow> job \<Rightarrow> bool" where
  "row_holds t j \<longleftrightarrow> (\<exists>now c. map_of t (job_id_str (jb_id j)) = Some ((job_to_row now j)\<lparr> jr_created_at := c \<rparr>))"

lemma job_from_row_created:
  "job_from_row (i, row\<lparr> jr_created_at := c \<rparr>) = job_from_row (i, row)"
  by (simp add: job_from_row_def)

lemma row_holds_upsert: "row_holds (job_store_upsert now j t) j"
proof (cases "map_of t (job_id_str (jb_id j))")
  case None
  then show ?thesis unfolding row_holds_def
    by (intro exI [of _ now] exI [of _ now]) (simp add: job_store_upsert_def table_simps job_to_row_def)
next
  case (Some old)
  then show ?thesis unfolding row_holds_def
    by (intro exI [of _ now] exI [of _ "jr_created_at old"]) (simp add: job_store_upsert_def table_simps)
qed

lemma row_holds_upsert_other:
  "jb_id k \<noteq> jb_id j \<Longrightarrow> row_holds (job_store_upsert now j t) k \<longleftrightarrow> row_holds t k"
  by (cases "jb_id j"; cases "jb_id k") (simp add: row_holds_def job_store_upsert_def table_simps)

lemma table_ok_job_upsert: "table_ok t \<Longrightarrow> table_ok (job_store_upsert now j t)"
  by (simp add: job_store_upsert_def table_ok_upsert)

text \<open>
  The mirror invariant: the table has one row per job id, entries are filed under their own id, and
  every job of the registry is held by its row. A failing write breaks the last part only for the
  job it concerns.
\<close>

definition entries_ok :: "registry \<Rightarrow> bool" where
  "entries_ok r \<longleftrightarrow> (\<forall>i e. rg_jobs r i = Some e \<longrightarrow> jb_id (je_job e) = i)"

definition mirrored :: "registry \<Rightarrow> bool" where
  "mirrored r \<longleftrightarrow> entries_ok r
     \<and> (\<exists>t. rg_store r = Some t \<and> table_ok t \<and> (\<forall>i e. rg_jobs r i = Some e \<longrightarrow> row_holds t (je_job e)))"

lemma persist_jobs [simp]: "rg_jobs (persist w j r) = rg_jobs r"
  by (simp add: persist_def split: option.splits)

lemma persist_mirrors:
  assumes "\<not> jw_fails w" "rg_store r = Some t" "table_ok t"
    and "\<And>i e. i \<noteq> jb_id j \<Longrightarrow> rg_jobs r i = Some e \<Longrightarrow> jb_id (je_job e) = i \<and> row_holds t (je_job e)"
    and "jb_id (je_job e0) = jb_id j" "je_job e0 = j"
  shows "mirrored ((persist w j r)\<lparr> rg_jobs := (rg_jobs r)(jb_id j \<mapsto> e0) \<rparr>)"
  using assms
  by (auto simp: mirrored_def entries_ok_def persist_def row_holds_upsert row_holds_upsert_other
      table_ok_job_upsert)

lemma mirrored_create:
  "mirrored r \<Longrightarrow> \<not> jw_fails w \<Longrightarrow> mirrored (registry_create w i k r)"
  using persist_mirrors [of w r _ "job_new i k" "\<lparr> je_job = job_new i k, je_cancel = False \<rparr>"]
  by (auto simp: mirrored_def [of r] entries_ok_def registry_create_def Let_def job_new_def)

lemma mirrored_reinsert:
  "mirrored r \<Longrightarrow> \<not> jw_fails w \<Longrightarrow> mirrored (registry_reinsert w j r)"
  using persist_mirrors [of w r _ j "\<lparr> je_job = j, je_cancel = False \<rparr>"]
  by (auto simp: mirrored_def [of r] entries_ok_def registry_reinsert_def Let_def)

lemma mirrored_request_cancel: "mirrored r \<Longrightarrow> mirrored (snd (request_cancel i r))"
  by (auto simp: mirrored_def entries_ok_def request_cancel_def split: option.splits)

lemma persist_update_jobs:
  "persist w j (r\<lparr> rg_jobs := m \<rparr>) = (persist w j r)\<lparr> rg_jobs := m \<rparr>"
  by (simp add: persist_def split: option.splits)

lemma mirrored_update:
  assumes "mirrored r" "\<not> jw_fails w" "\<And>j. jb_id (f j) = jb_id j"
  shows "mirrored (registry_update w i f r)"
proof (cases "rg_jobs r i")
  case None
  then show ?thesis using assms by (simp add: registry_update_def)
next
  case (Some e)
  then have i: "jb_id (f (je_job e)) = i" using assms by (auto simp: mirrored_def entries_ok_def)
  obtain t where t: "rg_store r = Some t" "table_ok t" using assms by (auto simp: mirrored_def)
  have "mirrored ((persist w (f (je_job e)) r)
      \<lparr> rg_jobs := (rg_jobs r)(jb_id (f (je_job e)) \<mapsto> e\<lparr> je_job := f (je_job e) \<rparr>) \<rparr>)"
    by (rule persist_mirrors [OF assms(2) t])
      (use assms(1) t in \<open>auto simp: mirrored_def entries_ok_def\<close>)
  then show ?thesis using Some i by (simp add: registry_update_def persist_update_jobs)
qed

interpretation job_order: cmp_order cmp_job_created "\<lambda>_. True"
  by unfold_locales (auto simp: cmp_job_created_def split: if_splits)

lemma unfinished_token:
  "job_status_token s \<in> {lit ''queued'', lit ''running''} \<longleftrightarrow> \<not> is_terminal s"
  using job_status_token_inj [of s Queued] job_status_token_inj [of s Running]
  by (cases s) (simp_all add: is_terminal_def)

lemma list_unfinished_iff:
  assumes "table_ok t" "row_holds t j"
  shows "j \<in> set (list_unfinished t) \<longleftrightarrow> \<not> is_terminal (jb_status j)"
proof -
  obtain now c where row: "map_of t (job_id_str (jb_id j)) = Some ((job_to_row now j)\<lparr> jr_created_at := c \<rparr>)"
    using assms(2) by (auto simp: row_holds_def)
  let ?row = "(job_to_row now j)\<lparr> jr_created_at := c \<rparr>"
  have j: "job_from_row (job_id_str (jb_id j), ?row) = j"
    by (simp only: job_from_row_created job_row_roundtrip)
  have state: "jr_state ?row = job_status_token (jb_status j)" by (simp add: job_to_row_def)
  have unique: "r = (job_id_str (jb_id j), ?row)" if "r \<in> set t" "job_from_row r = j" for r
  proof -
    have "fst r = job_id_str (jb_id j)"
      using that(2) by (cases r) (auto simp: job_from_row_def)
    then show ?thesis using that(1) row assms(1)
      by (metis map_of_is_SomeI option.inject prod.collapse table_ok_def keys_def)
  qed
  define live where "live r \<longleftrightarrow> jr_state (snd r) \<in> {lit ''queued'', lit ''running''}" for r :: "ustr \<times> job_row"
  have "set (list_unfinished t) = job_from_row ` {r \<in> set t. live r}"
    by (simp only: list_unfinished_def live_def set_map set_sort_by set_filter)
  moreover have "j \<in> job_from_row ` {r \<in> set t. live r} \<longleftrightarrow> live (job_id_str (jb_id j), ?row)"
  proof
    assume "j \<in> job_from_row ` {r \<in> set t. live r}"
    then obtain r where r: "r \<in> set t" "live r" "job_from_row r = j" by blast
    show "live (job_id_str (jb_id j), ?row)" using unique [OF r(1,3)] r(2) by metis
  next
    assume l: "live (job_id_str (jb_id j), ?row)"
    have "(job_id_str (jb_id j), ?row) \<in> {r \<in> set t. live r}"
      using l map_of_SomeD [OF row] by (simp only: mem_Collect_eq simp_thms)
    then have "job_from_row (job_id_str (jb_id j), ?row) \<in> job_from_row ` {r \<in> set t. live r}"
      by (rule imageI)
    then show "j \<in> job_from_row ` {r \<in> set t. live r}" unfolding j .
  qed
  ultimately have "j \<in> set (list_unfinished t)
      \<longleftrightarrow> jr_state ?row \<in> {lit ''queued'', lit ''running''}"
    by (simp only: live_def snd_conv)
  then show ?thesis unfolding state unfinished_token .
qed

lemma distinct_list_unfinished:
  assumes "table_ok t"
  shows "distinct (map jb_id (list_unfinished t))"
proof -
  let ?rows = "filter (\<lambda>r. jr_state (snd r) \<in> {lit ''queued'', lit ''running''}) t"
  have "distinct (map fst ?rows)"
    using assms unfolding table_ok_def keys_def by (rule distinct_map_filter)
  moreover have same: "mset (map fst (sort_by cmp_job_created ?rows)) = mset (map fst ?rows)"
    unfolding mset_map sort_by_mset ..
  ultimately have "distinct (map fst (sort_by cmp_job_created ?rows))"
    unfolding mset_eq_imp_distinct_iff [OF same] by blast
  then have "distinct (map JobId (map fst (sort_by cmp_job_created ?rows)))"
    unfolding distinct_map [of JobId] by (simp add: inj_on_def)
  moreover have "map jb_id (list_unfinished t) = map JobId (map fst (sort_by cmp_job_created ?rows))"
    by (simp add: list_unfinished_def job_from_row_def split: prod.splits)
  ultimately show ?thesis by simp
qed

section \<open>Reachable registries\<close>

text \<open>The operations of the registry as steps, with table writes that do not fail.\<close>

inductive reg_step :: "registry \<Rightarrow> registry \<Rightarrow> bool" where
  create: "\<not> jw_fails w \<Longrightarrow> reg_step r (registry_create w i k r)"
| reinsert: "\<not> jw_fails w \<Longrightarrow> reg_step r (registry_reinsert w j r)"
| cancel: "reg_step r (snd (request_cancel i r))"
| update: "\<not> jw_fails w \<Longrightarrow> (\<And>j. jb_id (f j) = jb_id j) \<Longrightarrow> reg_step r (registry_update w i f r)"

lemma reg_step_mirrored: "reg_step r r' \<Longrightarrow> mirrored r \<Longrightarrow> mirrored r'"
  by (induction rule: reg_step.induct)
    (auto intro: mirrored_create mirrored_reinsert mirrored_request_cancel mirrored_update)

lemma reg_steps_mirrored: "reg_step\<^sup>*\<^sup>* r r' \<Longrightarrow> mirrored r \<Longrightarrow> mirrored r'"
  by (induction rule: rtranclp_induct) (auto intro: reg_step_mirrored)

lemma mirrored_start: "table_ok t \<Longrightarrow> mirrored (registry_with_store t)"
  by (simp add: mirrored_def entries_ok_def registry_with_store_def)


definition demo_registry :: registry where
  "demo_registry = registry_create \<lparr> jw_now = 7, jw_fails = False \<rparr> (JobId (lit ''j1'')) Reprocess
     (registry_with_store [])"


text \<open>Persistence is best-effort: what the registry holds in memory after an operation - jobs,
  statuses and cancellation flags - does not depend on whether the table exists or its write fails.\<close>

theorem registry_ignores_store:
  "rg_jobs (registry_create w i k (r\<lparr> rg_store := s \<rparr>)) = rg_jobs (registry_create w' i k r)
   \<and> rg_jobs (registry_reinsert w j (r\<lparr> rg_store := s \<rparr>)) = rg_jobs (registry_reinsert w' j r)
   \<and> rg_jobs (registry_update w i f (r\<lparr> rg_store := s \<rparr>)) = rg_jobs (registry_update w' i f r)
   \<and> fst (request_cancel i (r\<lparr> rg_store := s \<rparr>)) = fst (request_cancel i r)"
  by (simp add: registry_create_def registry_reinsert_def registry_update_def request_cancel_def Let_def
      split: option.splits)

end
