(* ===== verification/Ipc_Events.thy ===== *)
theory Ipc_Events
  imports Jobs
begin

text \<open>
  The progress events of a job (\<open>engine/src/ipc/events.rs\<close>).
\<close>

datatype event =
    EvJobCreated job_id
  | EvProcessingStarted job_id meeting_id
  | EvMediaProcessingStarted job_id
  | EvMediaProcessingCompleted job_id
  | EvTranscriptionStarted job_id
  | EvTranscriptionProgress job_id "32 word"
  | EvTranscriptionCompleted job_id
  | EvChunkingStarted job_id
  | EvChunkingCompleted job_id nat
  | EvExtractionStarted job_id nat
  | EvExtractionProgress job_id nat nat
  | EvExtractionCompleted job_id
  | EvSynthesisStarted job_id
  | EvSynthesisCompleted job_id
  | EvValidationStarted job_id
  | EvValidationCompleted job_id
  | EvRenderingStarted job_id
  | EvRenderingCompleted job_id
  | EvJobCompleted job_id meeting_id
  | EvJobFailed job_id ustr

fun event_job_id :: "event \<Rightarrow> job_id" where
  "event_job_id (EvJobCreated j) = j"
| "event_job_id (EvProcessingStarted j m) = j"
| "event_job_id (EvMediaProcessingStarted j) = j"
| "event_job_id (EvMediaProcessingCompleted j) = j"
| "event_job_id (EvTranscriptionStarted j) = j"
| "event_job_id (EvTranscriptionProgress j p) = j"
| "event_job_id (EvTranscriptionCompleted j) = j"
| "event_job_id (EvChunkingStarted j) = j"
| "event_job_id (EvChunkingCompleted j n) = j"
| "event_job_id (EvExtractionStarted j n) = j"
| "event_job_id (EvExtractionProgress j c n) = j"
| "event_job_id (EvExtractionCompleted j) = j"
| "event_job_id (EvSynthesisStarted j) = j"
| "event_job_id (EvSynthesisCompleted j) = j"
| "event_job_id (EvValidationStarted j) = j"
| "event_job_id (EvValidationCompleted j) = j"
| "event_job_id (EvRenderingStarted j) = j"
| "event_job_id (EvRenderingCompleted j) = j"
| "event_job_id (EvJobCompleted j m) = j"
| "event_job_id (EvJobFailed j e) = j"

text \<open>The events that end a job.\<close>

fun terminal_event :: "event \<Rightarrow> bool" where
  "terminal_event (EvJobCompleted _ _) = True"
| "terminal_event (EvJobFailed _ _) = True"
| "terminal_event _ = False"

record event_envelope =
  ee_protocol_version :: "32 word"
  ee_event :: event

end
