(* ===== verification/Orchestrator.thy ===== *)
theory Orchestrator
  imports Ai_Analyze Renderer Media_Asr Ipc_Events
begin

text \<open>
  The pipeline (\<open>engine/src/pipeline/orchestrator.rs\<close>). The world is the database, the job registry,
  the events sent so far, the state of the external services (media, ASR, LLM) and a tick that
  numbers the operations on the outside. What other threads and the environment decide is indexed
  by the tick: the outcome of each database call and job-table write, the clock, the fresh ids and
  whether a cancellation request arrived.
\<close>

section \<open>The world\<close>

record 's world =
  wd_db :: store_db
  wd_jobs :: registry
  wd_events :: "event list"
  wd_tick :: nat
  wd_ext :: 's

record env =
  en_now :: "nat \<Rightarrow> timestamp"
  en_meeting_id :: "nat \<Rightarrow> meeting_id"
  en_db_fault :: "nat \<Rightarrow> ustr option"
  en_job_write_fails :: "nat \<Rightarrow> bool"
  en_cancel_request :: "nat \<Rightarrow> job_id \<Rightarrow> bool"

datatype pipeline_error = PipeCancelled | PipeMedia media_error | PipeAsr asr_error | PipeAi ai_error
  | PipeStorage storage_error

fun pipeline_error_display :: "pipeline_error \<Rightarrow> ustr" where
  "pipeline_error_display PipeCancelled = lit ''job was cancelled''"
| "pipeline_error_display (PipeMedia e) = media_error_display e"
| "pipeline_error_display (PipeAsr e) = asr_error_display e"
| "pipeline_error_display (PipeAi e) = ai_error_display e"
| "pipeline_error_display (PipeStorage e) = storage_error_display e"

datatype meeting_input = InputTranscript "ustr option" transcript | InputAudio "ustr option" path

fun input_title :: "meeting_input \<Rightarrow> ustr" where
  "input_title (InputTranscript t _) = (case t of Some s \<Rightarrow> s | None \<Rightarrow> lit ''Untitled meeting'')"
| "input_title (InputAudio t _) = (case t of Some s \<Rightarrow> s | None \<Rightarrow> lit ''Untitled meeting'')"

record 's orchestrator =
  or_media :: "path \<Rightarrow> path \<Rightarrow> extract_options \<Rightarrow> ('s, media_error, prepared_audio) effect"
  or_asr :: "'s asr_transcribe"
  or_ai :: "'s ai_analyzer"
  or_json :: store_json
  or_data_dir :: path
  or_chunking :: chunking_config
  or_env :: env

type_synonym ('s, 'a) pipe = "('s world, pipeline_error, 'a) effect"

section \<open>The steps the pipeline is made of\<close>

text \<open>A call of an external service.\<close>

definition call_ext :: "('e \<Rightarrow> pipeline_error) \<Rightarrow> ('s, 'e, 'a) effect \<Rightarrow> ('s, 'a) pipe" where
  "call_ext err m w = (case m (wd_ext w) of (r, s') \<Rightarrow> (map_err err r, w\<lparr> wd_ext := s' \<rparr>))"

text \<open>A call of the store; its outcome is decided by the environment at the current tick.\<close>

definition call_store :: "env \<Rightarrow> (ustr option \<Rightarrow> (store_db, storage_error, 'a) effect) \<Rightarrow> ('s, 'a) pipe" where
  "call_store en oper w = (case oper (en_db_fault en (wd_tick w)) (wd_db w) of
     (r, d') \<Rightarrow> (map_err PipeStorage r, w\<lparr> wd_db := d', wd_tick := Suc (wd_tick w) \<rparr>))"

definition job_update :: "env \<Rightarrow> job_id \<Rightarrow> (job \<Rightarrow> job) \<Rightarrow> ('s, unit) pipe" where
  "job_update en i f = doE (\<lambda>w. w\<lparr>
     wd_jobs := registry_update \<lparr> jw_now = en_now en (wd_tick w),
       jw_fails = en_job_write_fails en (wd_tick w) \<rparr> i f (wd_jobs w),
     wd_tick := Suc (wd_tick w) \<rparr>)"

definition emit :: "event \<Rightarrow> ('s, unit) pipe" where
  "emit ev = doE (\<lambda>w. w\<lparr> wd_events := wd_events w @ [ev] \<rparr>)"

text \<open>\<open>check_cancel\<close>: a request that has arrived sets the job's flag, which is then read.\<close>

definition check_cancel :: "env \<Rightarrow> job_id \<Rightarrow> ('s, unit) pipe" where
  "check_cancel en i w =
     (let w = (if en_cancel_request en (wd_tick w) i
          then w\<lparr> wd_jobs := snd (request_cancel i (wd_jobs w)) \<rparr> else w);
          w = w\<lparr> wd_tick := Suc (wd_tick w) \<rparr>
      in (if is_cancelled i (wd_jobs w) then Inl PipeCancelled else Inr (), w))"

definition stage :: "env \<Rightarrow> job_id \<Rightarrow> job_stage \<Rightarrow> ('s, unit) pipe" where
  "stage en i g = job_update en i (\<lambda>j. j\<lparr> jb_stage := g \<rparr>)"

text \<open>\<open>persist_status\<close>: the status is stamped with the current time and a failing write is swallowed.\<close>

definition persist_status :: "'s orchestrator \<Rightarrow> meeting_id \<Rightarrow> (timestamp \<Rightarrow> processing_status)
    \<Rightarrow> ('s, unit) pipe" where
  "persist_status orch i st w =
     (case call_store (or_env orch) (\<lambda>fault. save_processing_status (or_json orch) fault i
         (st (en_now (or_env orch) (wd_tick w)))) w of
        (_, w') \<Rightarrow> (Inr (), w'))"

section \<open>The stages\<close>

definition media_and_asr :: "'s orchestrator \<Rightarrow> job_id \<Rightarrow> path \<Rightarrow> ('s, transcript) pipe" where
  "media_and_asr orch i p =
     bindE (stage (or_env orch) i MediaProcessing) (\<lambda>_.
     bindE (emit (EvMediaProcessingStarted i)) (\<lambda>_.
     let out_dir = path_join (path_join (or_data_dir orch) (lit ''work'')) (job_id_str i) in
     bindE (call_ext PipeMedia (or_media orch p out_dir extract_options_default)) (\<lambda>prepared_audio.
     bindE (emit (EvMediaProcessingCompleted i)) (\<lambda>_.
     bindE (check_cancel (or_env orch) i) (\<lambda>_.
     bindE (stage (or_env orch) i Transcription) (\<lambda>_.
     bindE (emit (EvTranscriptionStarted i)) (\<lambda>_.
     bindE (call_ext PipeAsr (or_asr orch (audio_input_new (pa_path prepared_audio)))) (\<lambda>transcript.
     bindE (emit (EvTranscriptionCompleted i)) (\<lambda>_.
     okE transcript)))))))))"

definition validate_stage :: "'s orchestrator \<Rightarrow> job_id \<Rightarrow> meeting_ir \<Rightarrow> ('s, unit) pipe" where
  "validate_stage orch i ir =
     bindE (stage (or_env orch) i Validation) (\<lambda>_.
     bindE (emit (EvValidationStarted i)) (\<lambda>_.
     case validate ir of
       Inl errs \<Rightarrow> errE (PipeAi (AiValidation (str_join (lit ''; '') errs)))
     | Inr _ \<Rightarrow> emit (EvValidationCompleted i)))"

text \<open>The extraction loop: \<open>k\<close> chunks are done, of \<open>chunk_total\<close>.\<close>

fun extraction_loop :: "'s orchestrator \<Rightarrow> job_id \<Rightarrow> analysis_context \<Rightarrow> nat \<Rightarrow> nat \<Rightarrow> chunk list
    \<Rightarrow> ('s, chunk_findings list) pipe" where
  "extraction_loop orch i context chunk_total k [] = okE []"
| "extraction_loop orch i context chunk_total k (chunk # chunks) =
     bindE (check_cancel (or_env orch) i) (\<lambda>_.
     bindE (call_ext PipeAi (extract_chunk (or_ai orch) chunk context)) (\<lambda>f.
     bindE (emit (EvExtractionProgress i (k + 1) chunk_total)) (\<lambda>_.
     bindE (extraction_loop orch i context chunk_total (k + 1) chunks) (\<lambda>fs.
     okE (f # fs)))))"

definition analyze_stage :: "'s orchestrator \<Rightarrow> job_id \<Rightarrow> prepared_transcript \<Rightarrow> analysis_context
    \<Rightarrow> ('s, meeting_ir) pipe" where
  "analyze_stage orch i prepared context =
     (let chunk_total = length (pr_chunks prepared) in
      if chunk_total = 0 then
        let ir = empty_ir in
        bindE (validate_stage orch i ir) (\<lambda>_. okE ir)
      else
        bindE (stage (or_env orch) i Extraction) (\<lambda>_.
        bindE (emit (EvExtractionStarted i chunk_total)) (\<lambda>_.
        bindE (extraction_loop orch i context chunk_total 0 (pr_chunks prepared)) (\<lambda>findings.
        bindE (emit (EvExtractionCompleted i)) (\<lambda>_.
        bindE (check_cancel (or_env orch) i) (\<lambda>_.
        bindE (stage (or_env orch) i Synthesis) (\<lambda>_.
        bindE (emit (EvSynthesisStarted i)) (\<lambda>_.
        bindE (call_ext PipeAi (synthesize (or_ai orch) findings (pr_normalized prepared) context)) (\<lambda>ir.
        bindE (emit (EvSynthesisCompleted i)) (\<lambda>_.
        bindE (check_cancel (or_env orch) i) (\<lambda>_.
        bindE (validate_stage orch i ir) (\<lambda>_.
        okE ir))))))))))))"

definition enrich :: "'s orchestrator \<Rightarrow> job_id \<Rightarrow> meeting \<Rightarrow> transcript \<Rightarrow> analysis_context
    \<Rightarrow> ('s, unit) pipe" where
  "enrich orch i meeting transcript context =
     bindE (stage (or_env orch) i Chunking) (\<lambda>_.
     bindE (emit (EvChunkingStarted i)) (\<lambda>_.
     let prepared = prepare transcript (or_chunking orch) in
     bindE (emit (EvChunkingCompleted i (length (pr_chunks prepared)))) (\<lambda>_.
     bindE (check_cancel (or_env orch) i) (\<lambda>_.
     bindE (analyze_stage orch i prepared context) (\<lambda>ir.
     bindE (call_store (or_env orch) (\<lambda>fault. save_meeting_ir (or_json orch) fault (mt_id meeting) ir)) (\<lambda>_.
     bindE (stage (or_env orch) i Rendering) (\<lambda>_.
     bindE (emit (EvRenderingStarted i)) (\<lambda>_.
     let mom = render_with_title ir (mt_title meeting) in
     bindE (emit (EvRenderingCompleted i)) (\<lambda>_.
     bindE (stage (or_env orch) i Storing) (\<lambda>_.
     bindE (call_store (or_env orch) (\<lambda>fault. save_mom fault (mt_id meeting) mom)) (\<lambda>_.
     call_store (or_env orch) (\<lambda>fault. save_meeting (or_json orch) fault
       (meeting\<lparr> mt_participants := ir_participants ir \<rparr>)))))))))))))"

section \<open>First processing and retry\<close>

definition run :: "'s orchestrator \<Rightarrow> job_id \<Rightarrow> meeting_input \<Rightarrow> ('s, meeting_id) pipe" where
  "run orch i input =
     bindE (job_update (or_env orch) i (\<lambda>j. j\<lparr> jb_status := Running \<rparr>)) (\<lambda>_.
     bindE (readE wd_tick) (\<lambda>n.
     let meeting = meeting_new (en_meeting_id (or_env orch) n) (en_now (or_env orch) n) (input_title input);
         context = \<lparr> cx_title = Some (mt_title meeting) \<rparr> in
     bindE (call_store (or_env orch) (\<lambda>fault. save_meeting (or_json orch) fault meeting)) (\<lambda>_.
     bindE (job_update (or_env orch) i (\<lambda>j. j\<lparr> jb_meeting_id := Some (mt_id meeting) \<rparr>)) (\<lambda>_.
     bindE (emit (EvProcessingStarted i (mt_id meeting))) (\<lambda>_.
     bindE (check_cancel (or_env orch) i) (\<lambda>_.
     bindE (case input of InputTranscript _ transcript \<Rightarrow> okE transcript
       | InputAudio _ p \<Rightarrow> media_and_asr orch i p) (\<lambda>raw_transcript.
     bindE (call_store (or_env orch) (\<lambda>fault. save_transcript (or_json orch) fault (mt_id meeting) raw_transcript)) (\<lambda>_.
     bindE (persist_status orch (mt_id meeting) status_processing) (\<lambda>_.
     bindE (check_cancel (or_env orch) i) (\<lambda>_.
     bindE (enrich orch i meeting raw_transcript context) (\<lambda>_.
     okE (mt_id meeting))))))))))))"

text \<open>\<open>Option::ok_or_else\<close> of a loaded value.\<close>

definition required :: "'a option \<Rightarrow> ustr \<Rightarrow> ('s, 'a) pipe" where
  "required v message = (case v of Some x \<Rightarrow> okE x | None \<Rightarrow> errE (PipeStorage (StorageBackend message)))"

definition rerun :: "'s orchestrator \<Rightarrow> job_id \<Rightarrow> meeting_id \<Rightarrow> ('s, meeting_id) pipe" where
  "rerun orch i m =
     bindE (job_update (or_env orch) i (\<lambda>j. j\<lparr> jb_status := Running, jb_meeting_id := Some m \<rparr>)) (\<lambda>_.
     bindE (call_store (or_env orch) (\<lambda>fault. get_meeting (or_json orch) fault m)) (\<lambda>found.
     bindE (required found (lit ''cannot reprocess unknown meeting: '' @ meeting_id_str m)) (\<lambda>meeting.
     bindE (call_store (or_env orch) (\<lambda>fault. get_transcript (or_json orch) fault m)) (\<lambda>found.
     bindE (required found (lit ''cannot reprocess meeting without a stored transcript: '' @ meeting_id_str m)) (\<lambda>transcript.
     bindE (persist_status orch m status_processing) (\<lambda>_.
     bindE (emit (EvProcessingStarted i m)) (\<lambda>_.
     bindE (check_cancel (or_env orch) i) (\<lambda>_.
     let context = \<lparr> cx_title = Some (mt_title meeting) \<rparr> in
     bindE (enrich orch i meeting transcript context) (\<lambda>_.
     okE (mt_id meeting))))))))))"

text \<open>\<open>finalize\<close>: the job's outcome, the durable status and the terminal event. It cannot fail.\<close>

definition persist_if_known :: "'s orchestrator \<Rightarrow> meeting_id option \<Rightarrow> (timestamp \<Rightarrow> processing_status)
    \<Rightarrow> ('s, unit) pipe" where
  "persist_if_known orch m st = (case m of Some i \<Rightarrow> persist_status orch i st | None \<Rightarrow> okE ())"

definition failure_status :: "pipeline_error \<Rightarrow> timestamp \<Rightarrow> processing_status" where
  "failure_status err now = (case err of PipeStorage _ \<Rightarrow> status_failed now (pipeline_error_display err)
     | _ \<Rightarrow> status_deferred now (pipeline_error_display err))"

definition finalize :: "'s orchestrator \<Rightarrow> job_id \<Rightarrow> pipeline_error + meeting_id \<Rightarrow> ('s, unit) pipe" where
  "finalize orch i result =
     bindE (readE (\<lambda>w. Option.bind (registry_get i (wd_jobs w)) jb_meeting_id)) (\<lambda>meeting_id.
     case result of
       Inr m \<Rightarrow>
         bindE (job_update (or_env orch) i (\<lambda>j. j\<lparr> jb_status := Completed, jb_stage := Done,
           jb_meeting_id := Some m \<rparr>)) (\<lambda>_.
         bindE (persist_status orch m status_ready) (\<lambda>_.
         emit (EvJobCompleted i m)))
     | Inl PipeCancelled \<Rightarrow>
         bindE (job_update (or_env orch) i (\<lambda>j. j\<lparr> jb_status := Cancelled \<rparr>)) (\<lambda>_.
         bindE (persist_if_known orch meeting_id (\<lambda>now. status_deferred now (lit ''cancelled''))) (\<lambda>_.
         emit (EvJobFailed i (lit ''cancelled''))))
     | Inl err \<Rightarrow>
         bindE (job_update (or_env orch) i (\<lambda>j. j\<lparr> jb_status := JobFailedStatus,
           jb_error := Some (pipeline_error_display err) \<rparr>)) (\<lambda>_.
         bindE (persist_if_known orch meeting_id (failure_status err)) (\<lambda>_.
         emit (EvJobFailed i (pipeline_error_display err)))))"

definition then_finalize :: "'s orchestrator \<Rightarrow> job_id \<Rightarrow> ('s, meeting_id) pipe \<Rightarrow> ('s, meeting_id) pipe" where
  "then_finalize orch i m w = (case m w of (result, w') \<Rightarrow>
     (case finalize orch i result w' of (_, w'') \<Rightarrow> (result, w'')))"

definition process :: "'s orchestrator \<Rightarrow> job_id \<Rightarrow> meeting_input \<Rightarrow> ('s, meeting_id) pipe" where
  "process orch i input = then_finalize orch i (run orch i input)"

definition reprocess :: "'s orchestrator \<Rightarrow> job_id \<Rightarrow> meeting_id \<Rightarrow> ('s, meeting_id) pipe" where
  "reprocess orch i m = then_finalize orch i (rerun orch i m)"

end
