(* ===== verification/Pipeline_Thread.thy ===== *)
theory Pipeline_Thread
  imports Interleave Orchestrator
begin

text \<open>
  The pipeline cut into the steps between which other tasks run (\<open>engine/src/pipeline/orchestrator.rs\<close>):
  every \<open>await\<close> of the source lies between two of them, and each call of the store, the registry, the event
  channel or an external service is one. Run alone, the threads are the effects of \<open>Orchestrator\<close>.
\<close>

type_synonym ('s, 'a) job_thread = "('s world, pipeline_error, 'a) thread"

section \<open>The stages\<close>

definition media_and_asr_thread :: "'s orchestrator \<Rightarrow> job_id \<Rightarrow> path \<Rightarrow> ('s, transcript) job_thread" where
  "media_and_asr_thread orch i p =
     bindT (atom (stage (or_env orch) i MediaProcessing)) (\<lambda>_.
     bindT (atom (emit (EvMediaProcessingStarted i))) (\<lambda>_.
     let out_dir = path_join (path_join (or_data_dir orch) (lit ''work'')) (job_id_str i) in
     bindT (atom (call_ext PipeMedia (or_media orch p out_dir extract_options_default))) (\<lambda>prepared_audio.
     bindT (atom (emit (EvMediaProcessingCompleted i))) (\<lambda>_.
     bindT (atom (check_cancel (or_env orch) i)) (\<lambda>_.
     bindT (atom (stage (or_env orch) i Transcription)) (\<lambda>_.
     bindT (atom (emit (EvTranscriptionStarted i))) (\<lambda>_.
     bindT (atom (call_ext PipeAsr (or_asr orch (audio_input_new (pa_path prepared_audio))))) (\<lambda>transcript.
     bindT (atom (emit (EvTranscriptionCompleted i))) (\<lambda>_.
     okT transcript)))))))))"

definition validate_stage_thread :: "'s orchestrator \<Rightarrow> job_id \<Rightarrow> meeting_ir \<Rightarrow> ('s, unit) job_thread" where
  "validate_stage_thread orch i ir =
     bindT (atom (stage (or_env orch) i Validation)) (\<lambda>_.
     bindT (atom (emit (EvValidationStarted i))) (\<lambda>_.
     case validate ir of
       Inl errs \<Rightarrow> errT (PipeAi (AiValidation (str_join (lit ''; '') errs)))
     | Inr _ \<Rightarrow> atom (emit (EvValidationCompleted i))))"

text \<open>The extraction loop: \<open>k\<close> chunks are done, of \<open>chunk_total\<close>.\<close>

fun extraction_loop_thread :: "'s orchestrator \<Rightarrow> job_id \<Rightarrow> analysis_context \<Rightarrow> nat \<Rightarrow> nat \<Rightarrow> chunk list
    \<Rightarrow> ('s, chunk_findings list) job_thread" where
  "extraction_loop_thread orch i context chunk_total k [] = okT []"
| "extraction_loop_thread orch i context chunk_total k (chunk # chunks) =
     bindT (atom (check_cancel (or_env orch) i)) (\<lambda>_.
     bindT (atom (call_ext PipeAi (extract_chunk (or_ai orch) chunk context))) (\<lambda>f.
     bindT (atom (emit (EvExtractionProgress i (k + 1) chunk_total))) (\<lambda>_.
     bindT (extraction_loop_thread orch i context chunk_total (k + 1) chunks) (\<lambda>fs.
     okT (f # fs)))))"

definition analyze_stage_thread :: "'s orchestrator \<Rightarrow> job_id \<Rightarrow> prepared_transcript \<Rightarrow> analysis_context
    \<Rightarrow> ('s, meeting_ir) job_thread" where
  "analyze_stage_thread orch i prepared context =
     (let chunk_total = length (pr_chunks prepared) in
      if chunk_total = 0 then
        let ir = empty_ir in
        bindT (validate_stage_thread orch i ir) (\<lambda>_. okT ir)
      else
        bindT (atom (stage (or_env orch) i Extraction)) (\<lambda>_.
        bindT (atom (emit (EvExtractionStarted i chunk_total))) (\<lambda>_.
        bindT (extraction_loop_thread orch i context chunk_total 0 (pr_chunks prepared)) (\<lambda>findings.
        bindT (atom (emit (EvExtractionCompleted i))) (\<lambda>_.
        bindT (atom (check_cancel (or_env orch) i)) (\<lambda>_.
        bindT (atom (stage (or_env orch) i Synthesis)) (\<lambda>_.
        bindT (atom (emit (EvSynthesisStarted i))) (\<lambda>_.
        bindT (atom (call_ext PipeAi (synthesize (or_ai orch) findings (pr_normalized prepared) context))) (\<lambda>ir.
        bindT (atom (emit (EvSynthesisCompleted i))) (\<lambda>_.
        bindT (atom (check_cancel (or_env orch) i)) (\<lambda>_.
        bindT (validate_stage_thread orch i ir) (\<lambda>_.
        okT ir))))))))))))"

definition enrich_thread :: "'s orchestrator \<Rightarrow> job_id \<Rightarrow> meeting \<Rightarrow> transcript \<Rightarrow> analysis_context
    \<Rightarrow> ('s, unit) job_thread" where
  "enrich_thread orch i meeting transcript context =
     bindT (atom (stage (or_env orch) i Chunking)) (\<lambda>_.
     bindT (atom (emit (EvChunkingStarted i))) (\<lambda>_.
     let prepared = prepare transcript (or_chunking orch) in
     bindT (atom (emit (EvChunkingCompleted i (length (pr_chunks prepared))))) (\<lambda>_.
     bindT (atom (check_cancel (or_env orch) i)) (\<lambda>_.
     bindT (analyze_stage_thread orch i prepared context) (\<lambda>ir.
     bindT (atom (call_store (or_env orch) (\<lambda>fault. save_meeting_ir (or_json orch) fault (mt_id meeting) ir))) (\<lambda>_.
     bindT (atom (stage (or_env orch) i Rendering)) (\<lambda>_.
     bindT (atom (emit (EvRenderingStarted i))) (\<lambda>_.
     let mom = render_with_title ir (mt_title meeting) in
     bindT (atom (emit (EvRenderingCompleted i))) (\<lambda>_.
     bindT (atom (stage (or_env orch) i Storing)) (\<lambda>_.
     bindT (atom (call_store (or_env orch) (\<lambda>fault. save_mom fault (mt_id meeting) mom))) (\<lambda>_.
     atom (call_store (or_env orch) (\<lambda>fault. save_meeting (or_json orch) fault
       (meeting\<lparr> mt_participants := ir_participants ir \<rparr>))))))))))))))"

section \<open>First processing and retry\<close>

definition run_thread :: "'s orchestrator \<Rightarrow> job_id \<Rightarrow> meeting_input \<Rightarrow> ('s, meeting_id) job_thread" where
  "run_thread orch i input =
     bindT (atom (job_update (or_env orch) i (\<lambda>j. j\<lparr> jb_status := Running \<rparr>))) (\<lambda>_.
     bindT (atom (readE wd_tick)) (\<lambda>n.
     let meeting = meeting_new (en_meeting_id (or_env orch) n) (en_now (or_env orch) n) (input_title input);
         context = \<lparr> cx_title = Some (mt_title meeting) \<rparr> in
     bindT (atom (call_store (or_env orch) (\<lambda>fault. save_meeting (or_json orch) fault meeting))) (\<lambda>_.
     bindT (atom (job_update (or_env orch) i (\<lambda>j. j\<lparr> jb_meeting_id := Some (mt_id meeting) \<rparr>))) (\<lambda>_.
     bindT (atom (emit (EvProcessingStarted i (mt_id meeting)))) (\<lambda>_.
     bindT (atom (check_cancel (or_env orch) i)) (\<lambda>_.
     bindT (case input of InputTranscript _ transcript \<Rightarrow> okT transcript
       | InputAudio _ p \<Rightarrow> media_and_asr_thread orch i p) (\<lambda>raw_transcript.
     bindT (atom (call_store (or_env orch) (\<lambda>fault. save_transcript (or_json orch) fault (mt_id meeting) raw_transcript))) (\<lambda>_.
     bindT (atom (persist_status orch (mt_id meeting) status_processing)) (\<lambda>_.
     bindT (atom (check_cancel (or_env orch) i)) (\<lambda>_.
     bindT (enrich_thread orch i meeting raw_transcript context) (\<lambda>_.
     okT (mt_id meeting))))))))))))"

definition rerun_thread :: "'s orchestrator \<Rightarrow> job_id \<Rightarrow> meeting_id \<Rightarrow> ('s, meeting_id) job_thread" where
  "rerun_thread orch i m =
     bindT (atom (job_update (or_env orch) i (\<lambda>j. j\<lparr> jb_status := Running, jb_meeting_id := Some m \<rparr>))) (\<lambda>_.
     bindT (atom (call_store (or_env orch) (\<lambda>fault. get_meeting (or_json orch) fault m))) (\<lambda>found.
     bindT (atom (required found (lit ''cannot reprocess unknown meeting: '' @ meeting_id_str m))) (\<lambda>meeting.
     bindT (atom (call_store (or_env orch) (\<lambda>fault. get_transcript (or_json orch) fault m))) (\<lambda>found.
     bindT (atom (required found (lit ''cannot reprocess meeting without a stored transcript: '' @ meeting_id_str m))) (\<lambda>transcript.
     bindT (atom (persist_status orch m status_processing)) (\<lambda>_.
     bindT (atom (emit (EvProcessingStarted i m))) (\<lambda>_.
     bindT (atom (check_cancel (or_env orch) i)) (\<lambda>_.
     let context = \<lparr> cx_title = Some (mt_title meeting) \<rparr> in
     bindT (enrich_thread orch i meeting transcript context) (\<lambda>_.
     okT (mt_id meeting))))))))))"

definition finalize_thread :: "'s orchestrator \<Rightarrow> job_id \<Rightarrow> pipeline_error + meeting_id \<Rightarrow> ('s, unit) job_thread" where
  "finalize_thread orch i result =
     bindT (atom (readE (\<lambda>w. Option.bind (registry_get i (wd_jobs w)) jb_meeting_id))) (\<lambda>meeting_id.
     case result of
       Inr m \<Rightarrow>
         bindT (atom (job_update (or_env orch) i (\<lambda>j. j\<lparr> jb_status := Completed, jb_stage := Done,
           jb_meeting_id := Some m \<rparr>))) (\<lambda>_.
         bindT (atom (persist_status orch m status_ready)) (\<lambda>_.
         atom (emit (EvJobCompleted i m))))
     | Inl PipeCancelled \<Rightarrow>
         bindT (atom (job_update (or_env orch) i (\<lambda>j. j\<lparr> jb_status := Cancelled \<rparr>))) (\<lambda>_.
         bindT (atom (persist_if_known orch meeting_id (\<lambda>now. status_deferred now (lit ''cancelled'')))) (\<lambda>_.
         atom (emit (EvJobFailed i (lit ''cancelled'')))))
     | Inl err \<Rightarrow>
         bindT (atom (job_update (or_env orch) i (\<lambda>j. j\<lparr> jb_status := JobFailedStatus,
           jb_error := Some (pipeline_error_display err) \<rparr>))) (\<lambda>_.
         bindT (atom (persist_if_known orch meeting_id (failure_status err))) (\<lambda>_.
         atom (emit (EvJobFailed i (pipeline_error_display err))))))"

definition then_finalize_thread :: "'s orchestrator \<Rightarrow> job_id \<Rightarrow> ('s, meeting_id) job_thread \<Rightarrow> ('s, meeting_id) job_thread" where
  "then_finalize_thread orch i p = thenT p (\<lambda>result. thenT (finalize_thread orch i result) (\<lambda>_. Ended result))"

definition process_thread :: "'s orchestrator \<Rightarrow> job_id \<Rightarrow> meeting_input \<Rightarrow> ('s, meeting_id) job_thread" where
  "process_thread orch i input = then_finalize_thread orch i (run_thread orch i input)"

definition reprocess_thread :: "'s orchestrator \<Rightarrow> job_id \<Rightarrow> meeting_id \<Rightarrow> ('s, meeting_id) job_thread" where
  "reprocess_thread orch i m = then_finalize_thread orch i (rerun_thread orch i m)"

section \<open>Run alone\<close>

lemma alone_if: "alone (if b then p else q) = (if b then alone p else alone q)"
  by simp

lemmas alone_cases = alone_if sum.case_distrib [of alone] meeting_input.case_distrib [of alone]
  pipeline_error.case_distrib [of alone]

lemma alone_validate [simp]: "alone (validate_stage_thread orch i ir) = validate_stage orch i ir"
  by (simp add: validate_stage_thread_def validate_stage_def alone_cases cong: sum.case_cong)

lemma alone_extraction_loop [simp]:
  "alone (extraction_loop_thread orch i cx n k chunks) = extraction_loop orch i cx n k chunks"
  by (induction chunks arbitrary: k) simp_all

lemma alone_media_and_asr [simp]: "alone (media_and_asr_thread orch i p) = media_and_asr orch i p"
  by (simp add: media_and_asr_thread_def media_and_asr_def Let_def)

lemma alone_analyze_stage [simp]: "alone (analyze_stage_thread orch i prepared cx) = analyze_stage orch i prepared cx"
  by (simp add: analyze_stage_thread_def analyze_stage_def Let_def)

lemma alone_enrich [simp]: "alone (enrich_thread orch i m t cx) = enrich orch i m t cx"
  by (simp add: enrich_thread_def enrich_def Let_def)

lemma alone_run [simp]: "alone (run_thread orch i input) = run orch i input"
  by (cases input) (simp_all add: run_thread_def run_def Let_def)

lemma alone_rerun [simp]: "alone (rerun_thread orch i m) = rerun orch i m"
  by (simp add: rerun_thread_def rerun_def Let_def)

lemma alone_finalize [simp]: "alone (finalize_thread orch i result) = finalize orch i result"
  by (simp add: finalize_thread_def finalize_def alone_cases cong: sum.case_cong pipeline_error.case_cong)

lemma alone_then_finalize: "alone (then_finalize_thread orch i p) = then_finalize orch i (alone p)"
  by (simp add: then_finalize_thread_def then_finalize_def alone_then fun_eq_iff split_beta)

lemma alone_jobs:
  "alone (process_thread orch i input) = process orch i input" "alone (reprocess_thread orch i m) = reprocess orch i m"
  by (simp_all add: process_thread_def reprocess_thread_def alone_then_finalize process_def reprocess_def)

section \<open>What a job's steps may do\<close>

text \<open>
  A job sends its own events, updates its own entry of the registry, reads its cancellation flag, and calls
  the store and the services. A relation on the world that these keep holds along every step of its thread.
\<close>

locale thread_frame =
  fixes orch :: "'s orchestrator" and k :: job_id and G :: "'s world \<Rightarrow> 's world \<Rightarrow> bool"
  assumes frame_idle: "G w w" and frame_emit: "event_job_id ev = k \<Longrightarrow> G w (snd (emit ev w))"
    and frame_job: "(\<And>j. jb_id (f j) = jb_id j) \<Longrightarrow> G w (snd (job_update (or_env orch) k f w))"
    and frame_cancel_check: "G w (snd (check_cancel (or_env orch) k w))"
    and frame_store: "G w (w\<lparr> wd_db := d, wd_tick := n \<rparr>)" and frame_ext: "G w (w\<lparr> wd_ext := x \<rparr>)"
begin

lemma call_store: "G w (snd (call_store (or_env orch) oper w))"
  by (simp add: call_store_def frame_store split_beta)

lemma persist_status: "G w (snd (persist_status orch m f w))"
  using call_store by (simp add: persist_status_def split_beta)

lemma steps:
  "event_job_id ev = k \<Longrightarrow> steps_in G (atom (emit ev))" "steps_in G (atom (readE g))"
  "(\<And>j. jb_id (f j) = jb_id j) \<Longrightarrow> steps_in G (atom (job_update (or_env orch) k f))"
  "steps_in G (atom (stage (or_env orch) k g2))" "steps_in G (atom (check_cancel (or_env orch) k))"
  "steps_in G (atom (call_store (or_env orch) oper))" "steps_in G (atom (call_ext err m1))"
  "steps_in G (atom (persist_status orch m sf))" "steps_in G (atom (persist_if_known orch mo sf))"
  "steps_in G (atom (required v msg))" "steps_in G (Ended r)"
  for m :: meeting_id
  by (simp_all add: steps_in_atom frame_emit frame_idle frame_job frame_cancel_check call_store persist_status
      stage_def call_ext_def frame_ext readE_def persist_if_known_def required_def okE_def errE_def split_beta
      split: option.split)

lemmas frame_steps = steps_in_bind steps

lemma media_and_asr: "steps_in G (media_and_asr_thread orch k p)"
  unfolding media_and_asr_thread_def Let_def by (intro frame_steps) simp_all

lemma validate_stage: "steps_in G (validate_stage_thread orch k ir)"
  unfolding validate_stage_thread_def by (intro frame_steps) (simp_all add: steps split: sum.splits)

lemma extraction_loop: "steps_in G (extraction_loop_thread orch k cx n c chunks)"
  by (induction chunks arbitrary: c) (auto intro!: frame_steps)

lemma analyze_stage: "steps_in G (analyze_stage_thread orch k prepared cx)"
  unfolding analyze_stage_thread_def Let_def by (auto intro!: frame_steps extraction_loop validate_stage)

lemma enrich: "steps_in G (enrich_thread orch k m t cx)"
  unfolding enrich_thread_def Let_def by (intro frame_steps analyze_stage) simp_all

lemma run_thread: "steps_in G (run_thread orch k input)"
  unfolding run_thread_def Let_def
  by (intro frame_steps enrich; (cases input)?; simp add: steps media_and_asr)

lemma rerun_thread: "steps_in G (rerun_thread orch k m)"
  unfolding rerun_thread_def Let_def by (intro frame_steps enrich) simp_all

lemma finalize_thread: "steps_in G (finalize_thread orch k r)"
  unfolding finalize_thread_def
  by (auto intro!: frame_steps split: sum.splits pipeline_error.splits)

lemma then_finalize: "steps_in G p \<Longrightarrow> steps_in G (then_finalize_thread orch k p)"
  unfolding then_finalize_thread_def by (intro steps_in_then finalize_thread) simp_all

lemma process_thread: "steps_in G (process_thread orch k input)"
  unfolding process_thread_def by (rule then_finalize [OF run_thread])

lemma reprocess_thread: "steps_in G (reprocess_thread orch k m)"
  unfolding reprocess_thread_def by (rule then_finalize [OF rerun_thread])

end

end
