(* ===== verification/Orchestrator_Events.thy ===== *)
theory Orchestrator_Events
  imports Pipeline_Thread
begin

text \<open>
  The event stream of a job, whatever other jobs send in between. \<open>emits heard p S\<close> says that of the events
  one listens to, the thread sends a prefix of one of the schedules in \<open>S\<close>, and all of it when it succeeds,
  as long as the others send none of them; it composes along \<open>bindT\<close>, so the schedule of a whole job is read
  off its stages.
\<close>

section \<open>Schedules\<close>

definition seen :: "(event \<Rightarrow> bool) \<Rightarrow> 's world \<Rightarrow> event list" where
  "seen heard w = filter heard (wd_events w)"

definition unheard :: "(event \<Rightarrow> bool) \<Rightarrow> 's world \<Rightarrow> 's world \<Rightarrow> bool" where
  "unheard heard w w' \<longleftrightarrow> seen heard w' = seen heard w"

definition emits :: "(event \<Rightarrow> bool) \<Rightarrow> ('s, 'a) job_thread \<Rightarrow> event list set \<Rightarrow> bool" where
  "emits heard p S \<longleftrightarrow> S \<noteq> {} \<and> (\<forall>w r w'. runs (unheard heard) p w r w' \<longrightarrow>
     (\<exists>out evs. seen heard w' = seen heard w @ out \<and> evs \<in> S \<and> prefix out evs \<and> (is_ok r \<longrightarrow> out = evs)))"

definition silent :: "('s, 'a) pipe \<Rightarrow> bool" where
  "silent m \<longleftrightarrow> (\<forall>w. wd_events (snd (m w)) = wd_events w)"

definition seqs :: "event list set \<Rightarrow> event list set \<Rightarrow> event list set" where
  "seqs A B = {a @ b | a b. a \<in> A \<and> b \<in> B}"

lemma seqs_single: "seqs {a} B = (@) a ` B"
  by (auto simp: seqs_def)

lemma emits_mono: "emits heard p S \<Longrightarrow> S \<subseteq> T \<Longrightarrow> emits heard p T"
  unfolding emits_def by (meson subsetD subset_empty)

lemma emits_ne: "emits heard p S \<Longrightarrow> S \<noteq> {}"
  unfolding emits_def by blast

lemma emitsD:
  assumes "emits heard p S" "runs (unheard heard) p w r w'"
  obtains out evs where "seen heard w' = seen heard w @ out" "evs \<in> S" "prefix out evs" "is_ok r \<Longrightarrow> out = evs"
  using assms unfolding emits_def by blast

text \<open>Before a step the others leave what was heard.\<close>

lemma unheard_steps: "(unheard heard)\<^sup>*\<^sup>* w w' \<Longrightarrow> seen heard w' = seen heard w"
  by (induction rule: rtranclp_induct) (simp_all add: unheard_def)

lemma silent_emits: "silent m \<Longrightarrow> emits heard (atom m) {[]}"
  unfolding emits_def runs_atom silent_def seen_def [abs_def]
  by (auto dest!: unheard_steps simp: seen_def) (metis snd_conv)

lemma emits_errT: "S \<noteq> {} \<Longrightarrow> emits heard (errT e) S"
  by (auto simp: emits_def)

lemma emits_okT: "emits heard (okT x) {[]}"
  by (simp add: emits_def)

lemma emits_emit: "heard ev \<Longrightarrow> emits heard (atom (emit ev)) {[ev]}"
  by (auto simp: emits_def runs_atom emit_def doE_def seen_def dest!: unheard_steps)

lemma emits_bind:
  assumes p: "emits heard p A" and f: "\<And>x. emits heard (f x) B"
  shows "emits heard (bindT p f) (seqs A B)"
proof -
  have "\<exists>out evs. seen heard w' = seen heard w @ out \<and> evs \<in> seqs A B \<and> prefix out evs \<and> (is_ok r \<longrightarrow> out = evs)"
    if run: "runs (unheard heard) (bindT p f) w r w'" for w r w'
  proof -
    from run obtain r1 w1 where 1: "runs (unheard heard) p w r1 w1"
      and 2: "case r1 of Inl e \<Rightarrow> r = Inl e \<and> w' = w1 | Inr x \<Rightarrow> runs (unheard heard) (f x) w1 r w'"
      unfolding runs_bind by blast
    from emitsD [OF p 1] obtain out evs where o: "seen heard w1 = seen heard w @ out" "evs \<in> A" "prefix out evs"
      "is_ok r1 \<Longrightarrow> out = evs" by blast
    show ?thesis
    proof (cases r1)
      case (Inl e)
      obtain b where "b \<in> B" using emits_ne [OF f] by blast
      then have "evs @ b \<in> seqs A B" using o(2) unfolding seqs_def by blast
      moreover have "prefix out (evs @ b)" using o(3) by (rule prefix_order.order_trans) simp
      ultimately show ?thesis using 2 Inl o(1) by auto
    next
      case (Inr x)
      then have "runs (unheard heard) (f x) w1 r w'" using 2 by simp
      from emitsD [OF f this] obtain out' evs' where o': "seen heard w' = seen heard w1 @ out'" "evs' \<in> B"
        "prefix out' evs'" "is_ok r \<Longrightarrow> out' = evs'" by blast
      have "evs @ evs' \<in> seqs A B" using o(2) o'(2) unfolding seqs_def by blast
      moreover have "out = evs" using o(4) Inr by simp
      ultimately show ?thesis using o(1) o'(1,3,4)
        by (intro exI [of _ "evs @ out'"] exI [of _ "evs @ evs'"]) simp
    qed
  qed
  moreover have "seqs A B \<noteq> {}" using emits_ne [OF p] emits_ne [OF f] by (auto simp: seqs_def)
  ultimately show ?thesis unfolding emits_def by blast
qed

lemma emits_bind_silent:
  assumes "silent m" "\<And>x. emits heard (f x) B"
  shows "emits heard (bindT (atom m) f) B"
  using emits_bind [OF silent_emits [OF assms(1)] assms(2)] by (simp add: seqs_def)

lemma emits_bind_emit:
  assumes "heard ev" "\<And>x. emits heard (f x) B"
  shows "emits heard (bindT (atom (emit ev)) f) ((#) ev ` B)"
proof -
  have "emits heard (atom (emit ev)) {[ev]}" by (rule emits_emit) (rule assms(1))
  from emits_bind [OF this assms(2)] show ?thesis by (rule emits_mono) (auto simp: seqs_def)
qed

lemma bindT_okT [simp]: "bindT (okT x) f = f x"
  by (simp add: bindT_def)

lemma bindE_okE [simp]: "bindE (okE x) f = f x"
  by (simp add: bindE_def okE_def fun_eq_iff)

lemma silent_call_ext: "silent (call_ext err m)"
  by (simp add: silent_def call_ext_def split: prod.splits)

lemma silent_call_store: "silent (call_store en oper)"
  by (simp add: silent_def call_store_def split: prod.splits)

lemma silent_job_update: "silent (job_update en i f)"
  by (simp add: silent_def job_update_def doE_def)

lemma silent_stage: "silent (stage en i g)"
  by (simp add: stage_def silent_job_update)

lemma silent_check_cancel: "silent (check_cancel en i)"
  by (simp add: silent_def check_cancel_def Let_def)

lemma silent_persist_status: "silent (persist_status orch m st)"
  using silent_call_store unfolding silent_def persist_status_def
  by (metis (no_types, lifting) case_prod_beta snd_conv)

lemma silent_persist_if_known: "silent (persist_if_known orch m st)"
  by (cases m) (simp_all add: persist_if_known_def silent_persist_status silent_def [of "okE ()"] okE_def)

lemma silent_readE: "silent (readE f)"
  by (simp add: silent_def readE_def)

lemma silent_required: "silent (required v msg)"
  by (simp add: silent_def required_def okE_def errE_def split: option.splits)

lemmas silent_steps = silent_call_ext silent_call_store silent_stage silent_job_update silent_check_cancel
  silent_persist_status silent_persist_if_known silent_readE silent_required


section \<open>The schedule of a job\<close>

definition validation_events :: "job_id \<Rightarrow> event list" where
  "validation_events i = [EvValidationStarted i, EvValidationCompleted i]"

definition analysis_events :: "job_id \<Rightarrow> nat \<Rightarrow> event list" where
  "analysis_events i n =
     (if n = 0 then []
      else EvExtractionStarted i n # map (\<lambda>k. EvExtractionProgress i (k + 1) n) [0..<n]
        @ [EvExtractionCompleted i, EvSynthesisStarted i, EvSynthesisCompleted i])
     @ validation_events i"

definition enrich_events :: "job_id \<Rightarrow> nat \<Rightarrow> event list" where
  "enrich_events i n = [EvChunkingStarted i, EvChunkingCompleted i n] @ analysis_events i n
     @ [EvRenderingStarted i, EvRenderingCompleted i]"

definition media_events :: "job_id \<Rightarrow> event list" where
  "media_events i = [EvMediaProcessingStarted i, EvMediaProcessingCompleted i, EvTranscriptionStarted i,
     EvTranscriptionCompleted i]"

text \<open>The schedules of a first processing and of a retry, for some meeting and chunk count.\<close>

definition run_schedules :: "job_id \<Rightarrow> meeting_input \<Rightarrow> chunking_config \<Rightarrow> event list set" where
  "run_schedules i input config = (case input of
       InputTranscript _ t \<Rightarrow> {EvProcessingStarted i m # enrich_events i (length (pr_chunks (prepare t config))) | m. True}
     | InputAudio _ _ \<Rightarrow> {EvProcessingStarted i m # media_events i @ enrich_events i n | m n. True})"

text \<open>The terminal event.\<close>

definition finalize_event :: "job_id \<Rightarrow> pipeline_error + meeting_id \<Rightarrow> event" where
  "finalize_event i result = (case result of Inr m \<Rightarrow> EvJobCompleted i m
     | Inl PipeCancelled \<Rightarrow> EvJobFailed i (lit ''cancelled'')
     | Inl err \<Rightarrow> EvJobFailed i (pipeline_error_display err))"

text \<open>The events a schedule consists of belong to the job and do not end it.\<close>

lemma enrich_events_ok: "e \<in> set (enrich_events i n) \<Longrightarrow> event_job_id e = i \<and> \<not> terminal_event e"
  by (auto simp: enrich_events_def analysis_events_def validation_events_def split: if_splits)

lemma run_schedules_ok:
  "evs \<in> run_schedules i input config \<Longrightarrow> e \<in> set evs \<Longrightarrow> event_job_id e = i \<and> \<not> terminal_event e"
  by (auto simp: run_schedules_def media_events_def split: meeting_input.splits dest: enrich_events_ok)

section \<open>The threads\<close>

text \<open>One who listens to the events of the job, and possibly to others.\<close>

locale listener =
  fixes i :: job_id and heard :: "event \<Rightarrow> bool"
  assumes own: "event_job_id e = i \<Longrightarrow> heard e"
begin

lemma emits_own:
  "event_job_id ev = i \<Longrightarrow> (\<And>x. emits heard (f x) B) \<Longrightarrow> emits heard (bindT (atom (emit ev)) f) ((#) ev ` B)"
  by (rule emits_bind_emit [OF own])

lemmas emits_steps = silent_steps [THEN emits_bind_silent] emits_own event_job_id.simps

lemma emits_media_and_asr: "emits heard (media_and_asr_thread orch i p) {media_events i}"
proof -
  have "emits heard (media_and_asr_thread orch i p) ((#) (EvMediaProcessingStarted i) ` (#) (EvMediaProcessingCompleted i)
      ` (#) (EvTranscriptionStarted i) ` (#) (EvTranscriptionCompleted i) ` {[]})"
    unfolding media_and_asr_thread_def Let_def
    by (intro emits_steps emits_okT)
  then show ?thesis by (simp add: media_events_def)
qed

lemma emits_validate_stage: "emits heard (validate_stage_thread orch i ir) {validation_events i}"
proof -
  have "emits heard (case validate ir of Inl errs \<Rightarrow> errT (PipeAi (AiValidation (str_join (lit ''; '') errs)))
     | Inr _ \<Rightarrow> atom (emit (EvValidationCompleted i))) {[EvValidationCompleted i]}"
    by (cases "validate ir") (simp_all add: emits_errT emits_emit own)
  then have "emits heard (validate_stage_thread orch i ir) ((#) (EvValidationStarted i) ` {[EvValidationCompleted i]})"
    unfolding validate_stage_thread_def by (intro emits_steps)
  then show ?thesis by (simp add: validation_events_def)
qed

lemma emits_extraction_loop:
  "emits heard (extraction_loop_thread orch i context n k chunks)
     {map (\<lambda>j. EvExtractionProgress i (j + 1) n) [k..<k + length chunks]}"
proof (induction chunks arbitrary: k)
  case Nil
  then show ?case by (simp add: emits_okT)
next
  case (Cons chunk chunks)
  let ?rest = "map (\<lambda>j. EvExtractionProgress i (j + 1) n) [Suc k..<Suc k + length chunks]"
  have ih: "emits heard (bindT (extraction_loop_thread orch i context n (k + 1) chunks) (\<lambda>fs. okT (f # fs))) {?rest}" for f
    using emits_bind [OF Cons [of "k + 1"] emits_okT] by (rule emits_mono) (auto simp: seqs_def)
  have "emits heard (extraction_loop_thread orch i context n k (chunk # chunks))
      ((#) (EvExtractionProgress i (k + 1) n) ` {?rest})"
    unfolding extraction_loop_thread.simps by (intro emits_steps ih)
  moreover have "[k..<k + length (chunk # chunks)] = k # [Suc k..<Suc k + length chunks]"
    using upt_conv_Cons [of k "k + length (chunk # chunks)"] by (simp del: upt_Suc)
  ultimately show ?case by (simp del: upt_Suc)
qed

lemma emits_validated: "emits heard (bindT (validate_stage_thread orch i ir) (\<lambda>_. okT ir)) {validation_events i}"
  using emits_bind [OF emits_validate_stage emits_okT] by (rule emits_mono) (auto simp: seqs_def)

lemma emits_analyze_stage:
  "emits heard (analyze_stage_thread orch i prepared context) {analysis_events i (length (pr_chunks prepared))}"
proof (cases "length (pr_chunks prepared) = 0")
  case True
  then show ?thesis using emits_validated [of orch empty_ir]
    by (simp add: analyze_stage_thread_def analysis_events_def)
next
  case False
  let ?n = "length (pr_chunks prepared)"
  let ?progress = "map (\<lambda>k. EvExtractionProgress i (k + 1) ?n) [0..<?n]"
  have loop: "emits heard (extraction_loop_thread orch i context ?n 0 (pr_chunks prepared)) {?progress}"
    using emits_extraction_loop [of orch "context" "?n" "0" "pr_chunks prepared"] by simp
  have "emits heard (analyze_stage_thread orch i prepared context) ((#) (EvExtractionStarted i ?n) ` seqs {?progress}
      ((#) (EvExtractionCompleted i) ` (#) (EvSynthesisStarted i) ` (#) (EvSynthesisCompleted i)
        ` {validation_events i}))"
    unfolding analyze_stage_thread_def Let_def if_not_P [OF False]
    by (intro emits_steps emits_bind [OF loop] emits_validated)
  then show ?thesis
    by (rule emits_mono) (use False in \<open>auto simp: analysis_events_def seqs_def\<close>)
qed

lemma emits_enrich:
  "emits heard (enrich_thread orch i meeting t context) {enrich_events i (length (pr_chunks (prepare t (or_chunking orch))))}"
proof -
  let ?n = "length (pr_chunks (prepare t (or_chunking orch)))"
  have "emits heard (enrich_thread orch i meeting t context) ((#) (EvChunkingStarted i) ` (#) (EvChunkingCompleted i ?n)
      ` seqs {analysis_events i ?n} ((#) (EvRenderingStarted i) ` (#) (EvRenderingCompleted i) ` {[]}))"
    unfolding enrich_thread_def Let_def
    by (intro emits_steps emits_bind [OF emits_analyze_stage]) (rule silent_emits [OF silent_call_store])
  then show ?thesis unfolding seqs_single by (simp add: enrich_events_def)
qed

lemma emits_enriched:
  "emits heard (bindT (enrich_thread orch i meeting t context) (\<lambda>_. okT m))
     {enrich_events i (length (pr_chunks (prepare t (or_chunking orch))))}"
  using emits_bind [OF emits_enrich emits_okT] by (rule emits_mono) (auto simp: seqs_def)

lemma emits_read:
  assumes "\<And>x. emits heard (f x) (S x)"
  shows "emits heard (bindT (atom (readE g)) f) (\<Union>x. S x)"
  by (rule emits_bind_silent [OF silent_readE], rule emits_mono [OF assms]) blast

lemma emits_run: "emits heard (run_thread orch i input) (run_schedules i input (or_chunking orch))"
proof (cases input)
  case (InputTranscript title t)
  let ?n = "length (pr_chunks (prepare t (or_chunking orch)))"
  have "emits heard (run_thread orch i input)
      (\<Union>k. (#) (EvProcessingStarted i (en_meeting_id (or_env orch) k)) ` {enrich_events i ?n})"
    unfolding run_thread_def Let_def InputTranscript meeting_input.case bindT_okT
    by (rule emits_bind_silent, rule silent_steps, rule emits_read)
      (simp only: meeting_new_def meeting.simps, intro emits_steps emits_enriched)
  then show ?thesis by (rule emits_mono) (auto simp: run_schedules_def InputTranscript)
next
  case (InputAudio title p)
  have "emits heard (bindT (enrich_thread orch i meeting t cx) (\<lambda>_. okT m)) (range (enrich_events i))"
    for meeting :: meeting and t cx m
    using emits_enriched by (rule emits_mono) auto
  note enriched = this
  have "emits heard (run_thread orch i input)
      (\<Union>k. (#) (EvProcessingStarted i (en_meeting_id (or_env orch) k))
         ` seqs {media_events i} (range (enrich_events i)))"
    unfolding run_thread_def Let_def InputAudio meeting_input.case
    by (intro silent_job_update [THEN emits_bind_silent], intro emits_read)
      (simp only: meeting_new_def meeting.simps, intro emits_steps
        emits_bind [OF emits_media_and_asr] enriched)
  then show ?thesis by (rule emits_mono) (auto simp: run_schedules_def InputAudio seqs_def)
qed

lemma emits_rerun:
  "emits heard (rerun_thread orch i m) {EvProcessingStarted i m # enrich_events i n | n. True}"
proof -
  have "emits heard (bindT (enrich_thread orch i meeting t cx) (\<lambda>_. okT m')) (range (enrich_events i))"
    for meeting :: meeting and t cx m'
    using emits_enriched by (rule emits_mono) auto
  note enriched = this
  have "emits heard (rerun_thread orch i m) ((#) (EvProcessingStarted i m) ` (range (enrich_events i)))"
    unfolding rerun_thread_def Let_def by (intro emits_steps enriched)
  then show ?thesis by (rule emits_mono) auto
qed

lemma emits_finalize: "emits heard (finalize_thread orch i result) {[finalize_event i result]}"
  unfolding finalize_thread_def
proof (intro emits_steps)
  fix m
  have last: "emits heard (atom (emit ev)) {[ev]}" if "event_job_id ev = i" for ev
    by (rule emits_emit) (rule own [OF that])
  note steps = emits_steps last
  show "emits heard (case result of
       Inr m \<Rightarrow> bindT (atom (job_update (or_env orch) i (\<lambda>j. j\<lparr> jb_status := Completed, jb_stage := Done,
           jb_meeting_id := Some m \<rparr>))) (\<lambda>_.
         bindT (atom (persist_status orch m status_ready)) (\<lambda>_. atom (emit (EvJobCompleted i m))))
     | Inl PipeCancelled \<Rightarrow>
         bindT (atom (job_update (or_env orch) i (\<lambda>j. j\<lparr> jb_status := Cancelled \<rparr>))) (\<lambda>_.
         bindT (atom (persist_if_known orch m (\<lambda>now. status_deferred now (lit ''cancelled'')))) (\<lambda>_.
         atom (emit (EvJobFailed i (lit ''cancelled'')))))
     | Inl err \<Rightarrow>
         bindT (atom (job_update (or_env orch) i (\<lambda>j. j\<lparr> jb_status := JobFailedStatus,
           jb_error := Some (pipeline_error_display err) \<rparr>))) (\<lambda>_.
         bindT (atom (persist_if_known orch m (failure_status err))) (\<lambda>_.
         atom (emit (EvJobFailed i (pipeline_error_display err)))))) {[finalize_event i result]}"
  proof (cases result)
    case (Inr m')
    then show ?thesis by (simp add: finalize_event_def) (intro steps)
  next
    case (Inl err)
    then show ?thesis by (cases err) (simp_all add: finalize_event_def, (intro steps)+)
  qed
qed

end

section \<open>The bookkeeping cannot fail\<close>

lemma finalize_ends: "ends_in (\<lambda>r. r = Inr ()) (finalize_thread orch i result)"
proof -
  have p: "fst (persist_status orch m st w) = Inr ()" "fst (persist_if_known orch mo st w) = Inr ()"
    for m mo st and w :: "'a world"
    by (simp_all add: persist_if_known_def persist_status_def okE_def split: prod.splits option.splits)
  show ?thesis unfolding finalize_thread_def
    by (auto intro!: ends_in_bind ends_in_atom split: sum.splits pipeline_error.splits
        simp: p readE_def job_update_def doE_def emit_def)
qed

lemma finalize_ok: "fst (finalize orch i result w) = Inr ()"
  using finalize_ends runs_alone unfolding ends_in_def by (metis alone_finalize)

section \<open>The events of a job\<close>

context listener
begin

lemma then_finalize_events:
  assumes "emits heard p S" "runs (unheard heard) (then_finalize_thread orch i p) w r w'"
  shows "\<exists>out evs. seen heard w' = seen heard w @ out @ [finalize_event i r]
    \<and> evs \<in> S \<and> prefix out evs \<and> (is_ok r \<longrightarrow> out = evs)"
proof -
  from assms(2) obtain u w1 where 1: "runs (unheard heard) p w r w1"
    and 2: "runs (unheard heard) (finalize_thread orch i r) w1 u w'"
    unfolding then_finalize_thread_def runs_then by auto
  from emitsD [OF assms(1) 1] obtain out evs where o: "seen heard w1 = seen heard w @ out" "evs \<in> S"
    "prefix out evs" "is_ok r \<Longrightarrow> out = evs" by blast
  have "u = Inr ()" using finalize_ends 2 unfolding ends_in_def by blast
  then have "seen heard w' = seen heard w1 @ [finalize_event i r]"
    using emitsD [OF emits_finalize 2] by (metis is_ok.simps(2) singletonD)
  then show ?thesis using o by (intro exI [of _ out] exI [of _ evs]) simp
qed

lemma process_schedule:
  assumes "runs (unheard heard) (process_thread orch i input) w r w'"
  shows "\<exists>out evs. seen heard w' = seen heard w @ out @ [finalize_event i r]
    \<and> evs \<in> run_schedules i input (or_chunking orch) \<and> prefix out evs \<and> (is_ok r \<longrightarrow> out = evs)
    \<and> list_all (\<lambda>e. event_job_id e = i \<and> \<not> terminal_event e) out"
proof -
  from then_finalize_events [OF emits_run assms [unfolded process_thread_def]] obtain out evs where
    e: "seen heard w' = seen heard w @ out @ [finalize_event i r]" "evs \<in> run_schedules i input (or_chunking orch)"
    "prefix out evs" "is_ok r \<longrightarrow> out = evs" by blast
  have "set out \<subseteq> set evs" using e(3) by (rule set_mono_prefix)
  then have "list_all (\<lambda>e. event_job_id e = i \<and> \<not> terminal_event e) out"
    unfolding list_all_iff using run_schedules_ok [OF e(2)] by blast
  with e show ?thesis by blast
qed

lemma reprocess_schedule:
  assumes "runs (unheard heard) (reprocess_thread orch i m) w r w'"
  shows "\<exists>out n. seen heard w' = seen heard w @ out @ [finalize_event i r]
    \<and> prefix out (EvProcessingStarted i m # enrich_events i n)
    \<and> (is_ok r \<longrightarrow> out = EvProcessingStarted i m # enrich_events i n)
    \<and> list_all (\<lambda>e. event_job_id e = i \<and> \<not> terminal_event e) out"
proof -
  from then_finalize_events [OF emits_rerun assms [unfolded reprocess_thread_def]] obtain out n where
    e: "seen heard w' = seen heard w @ out @ [finalize_event i r]"
    "prefix out (EvProcessingStarted i m # enrich_events i n)"
    "is_ok r \<longrightarrow> out = EvProcessingStarted i m # enrich_events i n" by blast
  have "set out \<subseteq> set (EvProcessingStarted i m # enrich_events i n)" using e(2) by (rule set_mono_prefix)
  then have "list_all (\<lambda>e. event_job_id e = i \<and> \<not> terminal_event e) out"
    unfolding list_all_iff using enrich_events_ok by fastforce
  with e show ?thesis by blast
qed

end

text \<open>One may listen to the job's own events, or, when it runs alone, to all events.\<close>

interpretation own_events: listener i "\<lambda>e. event_job_id e = i" for i
  by unfold_locales

interpretation all_events: listener i "\<lambda>_. True" for i
  by unfold_locales simp

text \<open>A job sends its own events only.\<close>

interpretation own_sent: thread_frame orch k "\<lambda>w w'. \<forall>i. i \<noteq> k \<longrightarrow> unheard (\<lambda>e. event_job_id e = i) w w'" for orch k
  by unfold_locales
    (simp_all add: unheard_def seen_def emit_def doE_def job_update_def check_cancel_def Let_def)

lemma others_unheard:
  assumes "k \<noteq> i"
  shows "steps_in (unheard (\<lambda>e. event_job_id e = i)) (process_thread orch k input)"
    and "steps_in (unheard (\<lambda>e. event_job_id e = i)) (reprocess_thread orch k m)"
proof -
  have 1: "unheard (\<lambda>e. event_job_id e = i) u v"
    if "\<forall>i. i \<noteq> k \<longrightarrow> unheard (\<lambda>e. event_job_id e = i) u v" for u v :: "'a world"
    using that [rule_format, OF assms [symmetric]] .
  show "steps_in (unheard (\<lambda>e. event_job_id e = i)) (process_thread orch k input)"
    by (rule steps_in_mono [OF own_sent.process_thread 1])
  show "steps_in (unheard (\<lambda>e. event_job_id e = i)) (reprocess_thread orch k m)"
    by (rule steps_in_mono [OF own_sent.reprocess_thread 1])
qed

section \<open>What a listener receives\<close>

lemma is_ok_case: "(is_ok r \<longrightarrow> P) \<longleftrightarrow> (case r of Inr _ \<Rightarrow> P | Inl _ \<Rightarrow> True)"
  by (cases r) simp_all

text \<open>The event stream of a processing job follows the documented schedule: the events sent are
  the whole schedule of the input - started, (media, transcription,) chunking, one progress event per
  chunk counting up, synthesis, validation, rendering - followed by \<open>JobCompleted\<close>, or a prefix of
  it followed by \<open>JobFailed\<close>; the terminal event comes exactly once, last, and agrees with the result,
  and every event carries the job's id.\<close>

theorem process_events:
  "\<exists>out evs. wd_events (snd (process orch i input w))
       = wd_events w @ out @ [finalize_event i (fst (process orch i input w))]
     \<and> evs \<in> run_schedules i input (or_chunking orch) \<and> prefix out evs
     \<and> (case fst (process orch i input w) of Inr _ \<Rightarrow> out = evs | Inl _ \<Rightarrow> True)
     \<and> list_all (\<lambda>e. event_job_id e = i \<and> \<not> terminal_event e) out"
  using all_events.process_schedule [OF runs_alone, of orch i input w]
  by (simp add: alone_jobs seen_def is_ok_case)

text \<open>The event stream of a retry follows the same schedule without media and transcription.\<close>

theorem reprocess_events:
  "\<exists>out n. wd_events (snd (reprocess orch i m w))
       = wd_events w @ out @ [finalize_event i (fst (reprocess orch i m w))]
     \<and> prefix out (EvProcessingStarted i m # enrich_events i n)
     \<and> (case fst (reprocess orch i m w) of Inr _ \<Rightarrow> out = EvProcessingStarted i m # enrich_events i n
        | Inl _ \<Rightarrow> True)
     \<and> list_all (\<lambda>e. event_job_id e = i \<and> \<not> terminal_event e) out"
  using all_events.reprocess_schedule [OF runs_alone, of orch i m w]
  by (simp add: alone_jobs seen_def is_ok_case)

text \<open>The schedules of a retry.\<close>

definition rerun_schedules :: "job_id \<Rightarrow> meeting_id \<Rightarrow> event list set" where
  "rerun_schedules i m = {EvProcessingStarted i m # enrich_events i n | n. True}"

text \<open>C9. The event stream of a job follows the documented schedule whatever runs beside it: if between
  the steps of a job - a first processing or a retry - others do anything but send events of this job, then
  of its events exactly a prefix of one of the schedules of its input, or of the retry, is added (all of it
  when the job succeeds), none of them terminal, and then one terminal event that agrees with the result.
  And no step of another job, a first processing or a retry, sends an event of this one, from whatever state
  it is made.\<close>

theorem interleaved_events:
  assumes "runs (unheard (\<lambda>e. event_job_id e = i)) p w r w'"
    and "p = process_thread orch i input \<and> S = run_schedules i input (or_chunking orch)
      \<or> p = reprocess_thread orch i meeting \<and> S = rerun_schedules i meeting"
  shows "(\<exists>out evs. filter (\<lambda>e. event_job_id e = i) (wd_events w')
         = filter (\<lambda>e. event_job_id e = i) (wd_events w) @ out @ [finalize_event i r]
       \<and> evs \<in> S \<and> prefix out evs
       \<and> (case r of Inr _ \<Rightarrow> out = evs | Inl _ \<Rightarrow> True) \<and> list_all (\<lambda>e. \<not> terminal_event e) out)
    \<and> (\<forall>k other m. k \<noteq> i \<longrightarrow> steps_in (unheard (\<lambda>e. event_job_id e = i)) (process_thread orch k other)
         \<and> steps_in (unheard (\<lambda>e. event_job_id e = i)) (reprocess_thread orch k m))"
proof
  have "\<exists>out evs. seen (\<lambda>e. event_job_id e = i) w' = seen (\<lambda>e. event_job_id e = i) w @ out @ [finalize_event i r]
      \<and> evs \<in> S \<and> prefix out evs \<and> (is_ok r \<longrightarrow> out = evs) \<and> list_all (\<lambda>e. event_job_id e = i \<and> \<not> terminal_event e) out"
    using assms(2)
  proof
    assume "p = process_thread orch i input \<and> S = run_schedules i input (or_chunking orch)"
    with assms(1) own_events.process_schedule [of i orch input w r w'] show ?thesis by blast
  next
    assume "p = reprocess_thread orch i meeting \<and> S = rerun_schedules i meeting"
    with assms(1) own_events.reprocess_schedule [of i orch meeting w r w'] show ?thesis
      unfolding rerun_schedules_def by blast
  qed
  then obtain out evs where
    e: "seen (\<lambda>e. event_job_id e = i) w' = seen (\<lambda>e. event_job_id e = i) w @ out @ [finalize_event i r]"
    "evs \<in> S" "prefix out evs" "is_ok r \<longrightarrow> out = evs"
    "list_all (\<lambda>e. event_job_id e = i \<and> \<not> terminal_event e) out" by blast
  have "list_all (\<lambda>e. \<not> terminal_event e) out" using e(5) by (simp add: list_all_iff)
  then show "\<exists>out evs. filter (\<lambda>e. event_job_id e = i) (wd_events w')
         = filter (\<lambda>e. event_job_id e = i) (wd_events w) @ out @ [finalize_event i r]
       \<and> evs \<in> S \<and> prefix out evs
       \<and> (case r of Inr _ \<Rightarrow> out = evs | Inl _ \<Rightarrow> True) \<and> list_all (\<lambda>e. \<not> terminal_event e) out"
    using e(1-4) unfolding seen_def is_ok_case by blast
  show "\<forall>k other m. k \<noteq> i \<longrightarrow> steps_in (unheard (\<lambda>e. event_job_id e = i)) (process_thread orch k other)
         \<and> steps_in (unheard (\<lambda>e. event_job_id e = i)) (reprocess_thread orch k m)"
    using others_unheard by blast
qed

text \<open>Between the steps of a job, a first processing or a retry, another one reports the start of its
  processing.\<close>

lemma demo_events_beside:
  assumes "p = process_thread orch (JobId (lit ''a'')) (InputAudio None [])
    \<or> p = reprocess_thread orch (JobId (lit ''a'')) (MeetingId (lit ''n''))"
  shows "\<exists>r w'. runs (unheard (\<lambda>e. event_job_id e = JobId (lit ''a''))) p w r w'
    \<and> EvProcessingStarted (JobId (lit ''b'')) (MeetingId (lit ''m'')) \<in> set (wd_events w')"
proof -
  let ?w1 = "w\<lparr> wd_events := wd_events w @ [EvProcessingStarted (JobId (lit ''b'')) (MeetingId (lit ''m''))] \<rparr>"
  have "unheard (\<lambda>e. event_job_id e = JobId (lit ''a'')) w ?w1" by (simp add: unheard_def seen_def lit_def)
  moreover have "runs (unheard (\<lambda>e. event_job_id e = JobId (lit ''a''))) p ?w1 (fst (alone p ?w1)) (snd (alone p ?w1))"
    by (rule runs_alone)
  ultimately have run: "runs (unheard (\<lambda>e. event_job_id e = JobId (lit ''a''))) p w (fst (alone p ?w1)) (snd (alone p ?w1))"
    using assms unfolding process_thread_def reprocess_thread_def then_finalize_thread_def run_thread_def rerun_thread_def
    by (elim disjE) (simp_all add: bind_atom, (erule runs_before [OF r_into_rtranclp], assumption)+)
  have "EvProcessingStarted (JobId (lit ''b'')) (MeetingId (lit ''m'')) \<in> set (wd_events (snd (alone p ?w1)))"
    using assms all_events.process_schedule [OF runs_alone, of orch "JobId (lit ''a'')" "InputAudio None []" ?w1]
      all_events.reprocess_schedule [OF runs_alone, of orch "JobId (lit ''a'')" "MeetingId (lit ''n'')" ?w1]
    by (auto simp: seen_def)
  with run show ?thesis by blast
qed

theorem interleaved_events_witness:
  "\<forall>(orch :: 's orchestrator) w. (\<exists>r w' out.
      runs (unheard (\<lambda>e. event_job_id e = JobId (lit ''a''))) (process_thread orch (JobId (lit ''a'')) (InputAudio None [])) w r w'
    \<and> EvProcessingStarted (JobId (lit ''b'')) (MeetingId (lit ''m'')) \<in> set (wd_events w')
    \<and> filter (\<lambda>e. event_job_id e = JobId (lit ''a'')) (wd_events w')
        = filter (\<lambda>e. event_job_id e = JobId (lit ''a'')) (wd_events w) @ out @ [finalize_event (JobId (lit ''a'')) r])
    \<and> (\<exists>r w' out.
      runs (unheard (\<lambda>e. event_job_id e = JobId (lit ''a''))) (reprocess_thread orch (JobId (lit ''a'')) (MeetingId (lit ''n''))) w r w'
    \<and> EvProcessingStarted (JobId (lit ''b'')) (MeetingId (lit ''m'')) \<in> set (wd_events w')
    \<and> filter (\<lambda>e. event_job_id e = JobId (lit ''a'')) (wd_events w')
        = filter (\<lambda>e. event_job_id e = JobId (lit ''a'')) (wd_events w) @ out @ [finalize_event (JobId (lit ''a'')) r])"
  (is "\<forall>orch w. ?P orch w \<and> ?R orch w")
proof (intro allI conjI)
  fix orch :: "'s orchestrator" and w :: "'s world"
  obtain r w' where run: "runs (unheard (\<lambda>e. event_job_id e = JobId (lit ''a''))) (process_thread orch (JobId (lit ''a'')) (InputAudio None [])) w r w'"
    and b: "EvProcessingStarted (JobId (lit ''b'')) (MeetingId (lit ''m'')) \<in> set (wd_events w')"
    using demo_events_beside [OF disjI1, OF refl, of orch w] by blast
  from interleaved_events [OF run disjI1, OF conjI, OF refl refl] show "?P orch w"
    using run b by blast
  obtain r w' where run: "runs (unheard (\<lambda>e. event_job_id e = JobId (lit ''a''))) (reprocess_thread orch (JobId (lit ''a'')) (MeetingId (lit ''n''))) w r w'"
    and b: "EvProcessingStarted (JobId (lit ''b'')) (MeetingId (lit ''m'')) \<in> set (wd_events w')"
    using demo_events_beside [OF disjI2, OF refl, of orch w] by blast
  from interleaved_events [OF run disjI2, OF conjI, OF refl refl] show "?R orch w"
    using run b by blast
qed

end
