(* ===== verification/Orchestrator_Observed.thy ===== *)
theory Orchestrator_Observed
  imports Orchestrator_Events
begin

text \<open>
  What a job does to the store while others run beside it (\<open>engine/src/pipeline/orchestrator.rs\<close>). One
  observes the entries of some meetings \<open>M\<close> and the meeting job \<open>i\<close> is linked to; the others are taken to
  leave those alone. The steps that do not write keep what is observed, and the writes change it by their
  abstract effect, so every stage is an \<open>outR\<close> triple over it. With all meetings observed and nobody else
  running these are the triples of the pipeline on its own.
\<close>

section \<open>The observed state\<close>

type_synonym obs = "store_view \<times> meeting_id option option"

abbreviation view :: "'s orchestrator \<Rightarrow> 's world \<Rightarrow> store_view" where
  "view orch w \<equiv> view_store (or_json orch) (wd_db w)"

definition job_meeting :: "job_id \<Rightarrow> 's world \<Rightarrow> meeting_id option option" where
  "job_meeting i w = map_option jb_meeting_id (registry_get i (wd_jobs w))"

definition same_on :: "meeting_id set \<Rightarrow> store_view \<Rightarrow> store_view \<Rightarrow> bool" where
  "same_on M v v' \<longleftrightarrow> (\<forall>j \<in> M. sv_meeting v' j = sv_meeting v j
     \<and> sv_transcript v' j = sv_transcript v j \<and> sv_ir v' j = sv_ir v j \<and> sv_mom v' j = sv_mom v j
     \<and> sv_status v' j = sv_status v j)"

lemma same_on_refl [simp]: "same_on M v v"
  by (simp add: same_on_def)

lemma same_on_trans: "same_on M u v \<Longrightarrow> same_on M v w \<Longrightarrow> same_on M u w"
  by (simp add: same_on_def)

lemma same_on_UNIV: "same_on UNIV v v' \<longleftrightarrow> v' = v"
  by (cases v; cases v') (auto simp: same_on_def)

definition sees :: "meeting_id set \<Rightarrow> 's orchestrator \<Rightarrow> job_id \<Rightarrow> obs \<Rightarrow> 's world \<Rightarrow> bool" where
  "sees M orch i s w \<longleftrightarrow> same_on M (fst s) (view orch w) \<and> job_meeting i w = snd s"

lemma sees_now: "sees M orch i (view orch w, job_meeting i w) w"
  by (simp add: sees_def)

definition kept :: "meeting_id set \<Rightarrow> 's orchestrator \<Rightarrow> job_id \<Rightarrow> 's world \<Rightarrow> 's world \<Rightarrow> bool" where
  "kept M orch i w w' \<longleftrightarrow> same_on M (view orch w) (view orch w') \<and> job_meeting i w' = job_meeting i w"

lemma kept_refl: "kept M orch i w w"
  by (simp add: kept_def)

lemma kept_trans: "kept M orch i u v \<Longrightarrow> kept M orch i v w \<Longrightarrow> kept M orch i u w"
  unfolding kept_def using same_on_trans by metis

lemma sees_kept: "sees M orch i s w \<Longrightarrow> kept M orch i w w' \<Longrightarrow> sees M orch i s w'"
  unfolding kept_def sees_def using same_on_trans by metis

abbreviation quiet :: "meeting_id set \<Rightarrow> 's orchestrator \<Rightarrow> job_id \<Rightarrow> ('s, 'a) job_thread \<Rightarrow> bool" where
  "quiet M orch i p \<equiv> steps_in (kept M orch i) p"

abbreviation outK :: "meeting_id set \<Rightarrow> 's orchestrator \<Rightarrow> job_id \<Rightarrow> ('s world \<Rightarrow> bool) \<Rightarrow> ('s, 'a) job_thread
    \<Rightarrow> ('a \<Rightarrow> 's world \<Rightarrow> bool) \<Rightarrow> (pipeline_error \<Rightarrow> 's world \<Rightarrow> bool) \<Rightarrow> bool" where
  "outK M orch i \<equiv> outR (kept M orch i)"

lemma registry_get_update:
  "registry_get j (registry_update w i f r) = (if j = i then map_option f (registry_get i r) else registry_get j r)"
  by (auto simp: registry_get_def registry_update_def split: option.splits)

lemma registry_get_cancel: "registry_get j (snd (request_cancel i r)) = registry_get j r"
  by (auto simp: registry_get_def request_cancel_def split: option.splits)

lemma quiet_emit: "quiet M orch i (atom (emit ev))"
  by (simp add: steps_in_atom kept_def emit_def doE_def job_meeting_def registry_get_def)

lemma quiet_readE: "quiet M orch i (atom (readE f))"
  by (simp add: steps_in_atom readE_def kept_refl)

lemma quiet_call_ext: "quiet M orch i (atom (call_ext err m))"
  by (simp add: steps_in_atom kept_def call_ext_def job_meeting_def registry_get_def split: prod.splits)

lemma quiet_job_update: "(\<And>j. jb_meeting_id (f j) = jb_meeting_id j) \<Longrightarrow> quiet M orch i (atom (job_update en k f))"
  by (auto simp: steps_in_atom kept_def job_update_def doE_def job_meeting_def registry_get_update
      option.map_comp comp_def)

lemma quiet_stage: "quiet M orch i (atom (stage en k g))"
  unfolding stage_def by (rule quiet_job_update) simp

lemma quiet_check_cancel: "quiet M orch i (atom (check_cancel en k))"
  by (simp add: steps_in_atom kept_def check_cancel_def Let_def job_meeting_def registry_get_cancel)

lemma quiet_required: "quiet M orch i (atom (required v msg))"
  by (simp add: steps_in_atom required_def kept_refl okE_def errE_def split: option.splits)

lemma quiet_Ended: "quiet M orch i (Ended r)"
  by simp

lemmas quiet_steps = quiet_emit quiet_readE quiet_call_ext quiet_stage quiet_check_cancel quiet_required

lemmas quiet_parts = steps_in_bind quiet_steps quiet_Ended

lemma quiet_media_and_asr: "quiet M orch i (media_and_asr_thread orch k p)"
  unfolding media_and_asr_thread_def Let_def by (intro quiet_parts)

lemma quiet_validate_stage: "quiet M orch i (validate_stage_thread orch k ir)"
  unfolding validate_stage_thread_def by (intro quiet_parts) (simp add: quiet_steps split: sum.splits)

lemma quiet_extraction_loop: "quiet M orch i (extraction_loop_thread orch k cx n c chunks)"
  by (induction chunks arbitrary: c) (auto intro!: quiet_parts)

lemma quiet_analyze_stage: "quiet M orch i (analyze_stage_thread orch k prepared cx)"
  unfolding analyze_stage_thread_def Let_def
  by (auto intro!: quiet_parts quiet_extraction_loop quiet_validate_stage)

section \<open>Triples over the observed state\<close>

lemma quiet_runs: "quiet M orch i p \<Longrightarrow> runs (kept M orch i) p w r w' \<Longrightarrow> kept M orch i w w'"
  by (rule runs_kept) (auto intro: kept_refl kept_trans)

lemma seq_quiet_value:
  assumes "quiet M orch i p" "ends_in (\<lambda>r. case r of Inl _ \<Rightarrow> True | Inr x \<Rightarrow> R x) p"
    and "\<And>x. R x \<Longrightarrow> outK M orch i (sees M orch i s) (f x) Q E"
    and "\<And>e w. sees M orch i s w \<Longrightarrow> E e w"
  shows "outK M orch i (sees M orch i s) (bindT p f) Q E"
proof (rule outR_bind [where T = "\<lambda>x w. R x \<and> sees M orch i s w"])
  show "outK M orch i (sees M orch i s) p (\<lambda>x w. R x \<and> sees M orch i s w) E"
    unfolding outR_def
  proof (intro allI impI)
    fix w r w' assume s: "sees M orch i s w" and r: "runs (kept M orch i) p w r w'"
    have "sees M orch i s w'" using s quiet_runs [OF assms(1) r] by (rule sees_kept)
    moreover have "case r of Inl _ \<Rightarrow> True | Inr x \<Rightarrow> R x" using assms(2) r unfolding ends_in_def by blast
    ultimately show "case r of Inl e \<Rightarrow> E e w' | Inr x \<Rightarrow> R x \<and> sees M orch i s w'"
      using assms(4) by (cases r) simp_all
  qed
  show "outK M orch i (\<lambda>w. R x \<and> sees M orch i s w) (f x) Q E" for x
    using assms(3) unfolding outR_def by blast
qed

lemma seq_quiet:
  assumes "quiet M orch i p" "\<And>x. outK M orch i (sees M orch i s) (f x) Q E"
    and "\<And>e w. sees M orch i s w \<Longrightarrow> E e w"
  shows "outK M orch i (sees M orch i s) (bindT p f) Q E"
  by (rule seq_quiet_value [where R = "\<lambda>_. True", OF assms(1) _ assms(2,3)]) (auto simp: ends_in_def split: sum.split)

lemmas seq_steps = quiet_steps [THEN seq_quiet]

text \<open>A write changes the entry of its own key only, so what is observed afterwards depends on what was
  observed before.\<close>

definition pointwise :: "(store_view \<Rightarrow> store_view) \<Rightarrow> bool" where
  "pointwise g \<longleftrightarrow> (\<forall>M v v'. same_on M v v' \<longrightarrow> same_on M (g v) (g v'))"

lemma pointwise_writes:
  "pointwise (\<lambda>v. v\<lparr> sv_meeting := (sv_meeting v)(m := x1) \<rparr>)"
  "pointwise (\<lambda>v. v\<lparr> sv_transcript := (sv_transcript v)(m := x2) \<rparr>)"
  "pointwise (\<lambda>v. v\<lparr> sv_ir := (sv_ir v)(m := x3) \<rparr>)"
  "pointwise (\<lambda>v. v\<lparr> sv_mom := (sv_mom v)(m := x4) \<rparr>)"
  "pointwise (\<lambda>v. v\<lparr> sv_status := (sv_status v)(m := x5) \<rparr>)"
  by (auto simp: pointwise_def same_on_def)

lemma call_store_sees:
  assumes "\<And>fault. atomic (or_json orch) (oper fault) g" "pointwise g" "sees M orch i (v, jm) w"
    and "call_store en oper w = (r, w')"
  shows "case r of Inr _ \<Rightarrow> sees M orch i (g v, jm) w' | Inl _ \<Rightarrow> sees M orch i (v, jm) w'"
proof -
  obtain r0 d' where o: "oper (en_db_fault en (wd_tick w)) (wd_db w) = (r0, d')" by (cases "oper (en_db_fault en (wd_tick w)) (wd_db w)")
  then have "r = map_err PipeStorage r0" "wd_db w' = d'" "wd_jobs w' = wd_jobs w"
    using assms(4) by (auto simp: call_store_def)
  moreover have "case r0 of Inr _ \<Rightarrow> view_store (or_json orch) d' = g (view orch w) | Inl _ \<Rightarrow> d' = wd_db w"
    using assms(1) [of "en_db_fault en (wd_tick w)"] o by (cases r0) (auto dest: atomic_ok atomic_err)
  ultimately show ?thesis using assms(2,3)
    by (cases r0) (auto simp: sees_def pointwise_def job_meeting_def registry_get_def)
qed

lemma last_save:
  assumes "\<And>fault. atomic (or_json orch) (oper fault) g" "pointwise g"
    and "\<And>w. sees M orch i (g v, jm) w \<Longrightarrow> Q () w" "\<And>e w. sees M orch i (v, jm) w \<Longrightarrow> E e w"
  shows "outK M orch i (sees M orch i (v, jm)) (atom (call_store en oper)) Q E"
  by (rule outR_atom, erule (1) sees_kept, rule outE_I)
    (use call_store_sees [OF assms(1,2)] assms(3,4) in fastforce)+

lemma seq_save:
  assumes "\<And>fault. atomic (or_json orch) (oper fault) g" "pointwise g"
    and "\<And>x. outK M orch i (sees M orch i (g v, jm)) (f x) Q E"
    and "\<And>e w. sees M orch i (v, jm) w \<Longrightarrow> E e w"
  shows "outK M orch i (sees M orch i (v, jm)) (bindT (atom (call_store en oper)) f) Q E"
  by (rule outR_bind [OF last_save [OF assms(1,2)] assms(3)]) (auto intro: assms(4))

section \<open>The analysis stage\<close>

lemma analyze_stage_valid:
  "ends_in (\<lambda>r. case r of Inl _ \<Rightarrow> True | Inr ir \<Rightarrow> validate ir = Inr ()) (analyze_stage_thread orch i prepared cx)"
proof -
  have valid: "ends_in (\<lambda>r. case r of Inl _ \<Rightarrow> True | Inr ir \<Rightarrow> validate ir = Inr ())
      (bindT (validate_stage_thread orch i ir) (\<lambda>_. okT ir))" for ir
  proof (cases "validate ir")
    case (Inl errs)
    have "ends_in (\<lambda>r. case r of Inl _ \<Rightarrow> True | Inr _ \<Rightarrow> False) (validate_stage_thread orch i ir)"
      unfolding validate_stage_thread_def Inl by (intro ends_in_last) (simp_all add: ends_in_err)
    then show ?thesis unfolding ends_in_def runs_bind by (fastforce split: sum.splits)
  next
    case (Inr u)
    then show ?thesis by (intro ends_in_last ends_in_ok) simp_all
  qed
  show ?thesis
  proof (cases "length (pr_chunks prepared) = 0")
    case True
    then show ?thesis unfolding analyze_stage_thread_def Let_def by (simp add: valid)
  next
    case False
    show ?thesis unfolding analyze_stage_thread_def Let_def if_not_P [OF False]
      by (intro ends_in_last valid) simp_all
  qed
qed

section \<open>Enrichment\<close>

text \<open>What a complete enrichment of a meeting writes.\<close>

definition enriched :: "store_json \<Rightarrow> meeting \<Rightarrow> meeting_ir \<Rightarrow> store_view \<Rightarrow> store_view" where
  "enriched js m ir v = v\<lparr> sv_ir := (sv_ir v)(mt_id m := reread (sj_ir js) ir),
     sv_mom := (sv_mom v)(mt_id m := Inr (Some (render_with_title ir (mt_title m)))),
     sv_meeting := (sv_meeting v)(mt_id m := reread (sj_meeting js) (m\<lparr> mt_participants := ir_participants ir \<rparr>)) \<rparr>"

text \<open>What an interrupted enrichment may have written.\<close>

definition partly_enriched :: "meeting_id \<Rightarrow> store_view \<Rightarrow> store_view \<Rightarrow> bool" where
  "partly_enriched i v v' \<longleftrightarrow> (\<exists>x y. v' = v\<lparr> sv_ir := (sv_ir v)(i := x), sv_mom := (sv_mom v)(i := y) \<rparr>)"

lemma partly_enriched_refl: "partly_enriched i v v"
  unfolding partly_enriched_def by (intro exI [of _ "sv_ir v i"] exI [of _ "sv_mom v i"]) simp

lemma partly_enriched_ir: "partly_enriched i v (v\<lparr> sv_ir := (sv_ir v)(i := x) \<rparr>)"
  unfolding partly_enriched_def by (intro exI [of _ x] exI [of _ "sv_mom v i"]) simp

lemma partly_enriched_ir_mom:
  "partly_enriched i v (v\<lparr> sv_ir := (sv_ir v)(i := x), sv_mom := (sv_mom v)(i := y) \<rparr>)"
  unfolding partly_enriched_def by blast

lemma enrich_triple:
  shows "outK M orch i (sees M orch i (v, jm)) (enrich_thread orch i m t cx)
    (\<lambda>_ w. \<exists>ir. validate ir = Inr () \<and> sees M orch i (enriched (or_json orch) m ir v, jm) w)
    (\<lambda>_ w. \<exists>v'. partly_enriched (mt_id m) v v' \<and> sees M orch i (v', jm) w)"
    (is "outR _ _ _ ?Q ?E")
proof -
  note store = store_writes_atomic
  have E: "sees M orch i (v', jm) w \<Longrightarrow> partly_enriched (mt_id m) v v' \<Longrightarrow> ?E e w" for e w v'
    by blast
  have q: "?E e w" if "sees M orch i (v, jm) w" for e w
    using that by (rule E) (rule partly_enriched_refl)
  have save_all: "outK M orch i (sees M orch i (v, jm))
      (bindT (atom (call_store en (\<lambda>fault. save_meeting_ir (or_json orch) fault (mt_id m) ir))) (\<lambda>_.
       bindT (atom (stage en i Rendering)) (\<lambda>_.
       bindT (atom (emit (EvRenderingStarted i))) (\<lambda>_.
       bindT (atom (emit (EvRenderingCompleted i))) (\<lambda>_.
       bindT (atom (stage en i Storing)) (\<lambda>_.
       bindT (atom (call_store en (\<lambda>fault. save_mom fault (mt_id m) (render_with_title ir (mt_title m))))) (\<lambda>_.
       atom (call_store en (\<lambda>fault. save_meeting (or_json orch) fault
         (m\<lparr> mt_participants := ir_participants ir \<rparr>))))))))))
      ?Q ?E" if "validate ir = Inr ()" for en ir
    apply (rule seq_save [OF store(3) pointwise_writes(3) _ q])
     apply (intro seq_steps)
         apply (rule seq_save [OF store(4) pointwise_writes(4)])
          apply (rule last_save [OF store(1) pointwise_writes(1)])
    subgoal using that by (intro exI [of _ ir]) (simp add: enriched_def)
    subgoal by (erule E) (simp add: partly_enriched_ir_mom)
    by (erule E, rule partly_enriched_ir)+
  show ?thesis unfolding enrich_thread_def Let_def
    by (intro seq_steps seq_quiet_value [OF quiet_analyze_stage analyze_stage_valid] save_all q)
qed

section \<open>First processing\<close>

lemma seq_link:
  assumes "\<And>j. jb_meeting_id (f j) = Some m"
    and "\<And>x. outK M orch i (sees M orch i (v, map_option (\<lambda>_. Some m) jm)) (g x) Q E"
  shows "outK M orch i (sees M orch i (v, jm)) (bindT (atom (job_update en i f)) g) Q E"
proof (rule outR_bind [OF _ assms(2)])
  show "outK M orch i (sees M orch i (v, jm)) (atom (job_update en i f))
      (\<lambda>_. sees M orch i (v, map_option (\<lambda>_. Some m) jm)) E"
    unfolding job_update_def
    by (rule outR_atom, erule (1) sees_kept, rule outE_doE)
      (auto simp: sees_def job_meeting_def registry_get_update option.map_comp comp_def assms(1))
qed

text \<open>The status write is best-effort: some status, or the old one, is there afterwards.\<close>

definition with_status :: "meeting_id \<Rightarrow> storage_error + processing_status option \<Rightarrow> store_view \<Rightarrow> store_view" where
  "with_status i x v = v\<lparr> sv_status := (sv_status v)(i := x) \<rparr>"

lemma with_status_old: "with_status i (sv_status v i) v = v"
  by (simp add: with_status_def)

lemma persist_status_sees:
  assumes "sees M orch i (v, jm) w" "persist_status orch m f w = (r, w')"
  shows "r = Inr () \<and> (\<exists>x. sees M orch i (with_status m x v, jm) w')"
proof -
  let ?oper = "\<lambda>fault. save_processing_status (or_json orch) fault m (f (en_now (or_env orch) (wd_tick w)))"
  obtain r0 where c: "call_store (or_env orch) ?oper w = (r0, w')" and r: "r = Inr ()"
    using assms(2) by (auto simp: persist_status_def split: prod.splits)
  have "case r0 of Inr _ \<Rightarrow> sees M orch i (v\<lparr> sv_status := (sv_status v)
      (m := reread (sj_status (or_json orch)) (f (en_now (or_env orch) (wd_tick w)))) \<rparr>, jm) w' | Inl _ \<Rightarrow> sees M orch i (v, jm) w'"
    by (rule call_store_sees [OF store_writes_atomic(5) pointwise_writes(5) assms(1) c])
  then show ?thesis using r with_status_old [of m v]
    by (cases r0) (auto simp: with_status_def intro: exI [of _ "sv_status v m"])
qed

lemma seq_status:
  assumes "\<And>x y. outK M orch i (sees M orch i (with_status m x v, jm)) (f y) Q E"
  shows "outK M orch i (sees M orch i (v, jm)) (bindT (atom (persist_status orch m g)) f) Q E"
proof (rule outR_bind [where T = "\<lambda>_ w. \<exists>x. sees M orch i (with_status m x v, jm) w"])
  show "outK M orch i (sees M orch i (v, jm)) (atom (persist_status orch m g))
      (\<lambda>_ w. \<exists>x. sees M orch i (with_status m x v, jm) w) E"
    by (rule outR_atom, erule (1) sees_kept, rule outE_I) (auto dest: persist_status_sees)
  show "outK M orch i (\<lambda>w. \<exists>x. sees M orch i (with_status m x v, jm) w) (f y) Q E" for y
    by (rule outR_ex) (rule assms)
qed

text \<open>What is in the store once the source of a capture is safe.\<close>

definition captured :: "store_json \<Rightarrow> meeting \<Rightarrow> transcript \<Rightarrow> store_view \<Rightarrow> store_view" where
  "captured js m t v = v\<lparr> sv_meeting := (sv_meeting v)(mt_id m := reread (sj_meeting js) m),
     sv_transcript := (sv_transcript v)(mt_id m := reread (sj_transcript js) t) \<rparr>"

text \<open>The errors that can end a job before its source is safe.\<close>

definition early_error :: "pipeline_error \<Rightarrow> bool" where
  "early_error e \<longleftrightarrow> (case e of PipeAi _ \<Rightarrow> False | _ \<Rightarrow> True)"

abbreviation errs_early :: "('s, 'a) job_thread \<Rightarrow> bool" where
  "errs_early p \<equiv> errs_in early_error p"

lemma errs_early_steps:
  "errs_early (atom (emit ev))" "errs_early (okT x)" "errs_early (atom (readE g))" "errs_early (atom (job_update en i f))"
  "errs_early (atom (stage en i s))" "errs_early (atom (check_cancel en i))" "errs_early (atom (call_store en oper))"
  "errs_early (atom (call_ext PipeMedia m1))" "errs_early (atom (call_ext PipeAsr m2))"
  by (auto intro!: ends_in_atom ends_in_ok simp: emit_def readE_def job_update_def stage_def doE_def check_cancel_def
      call_store_def call_ext_def early_error_def Let_def split: prod.splits if_splits sum.splits)

text \<open>The transcript an audio input captures: what the speech provider answered, in some state, to the audio
  file the media processor had prepared from the input in the working directory of the job.\<close>

definition transcribed :: "'s orchestrator \<Rightarrow> job_id \<Rightarrow> path \<Rightarrow> transcript \<Rightarrow> bool" where
  "transcribed orch i p t \<longleftrightarrow> (\<exists>x x' audio y y'.
     or_media orch p (path_join (path_join (or_data_dir orch) (lit ''work'')) (job_id_str i)) extract_options_default x
       = (Inr audio, x')
     \<and> or_asr orch (audio_input_new (pa_path audio)) y = (Inr t, y'))"

lemma early_call_ext:
  fixes m :: "('s, 'e, 'a) effect"
  assumes "\<And>x r x'. m x = (Inr r, x') \<Longrightarrow> R r" "\<And>e. early_error (err e)"
  shows "ends_in (\<lambda>r. case r of Inl e \<Rightarrow> early_error e | Inr x \<Rightarrow> R x) (atom (call_ext err m))"
proof (rule ends_in_atom)
  fix w :: "'s world"
  obtain r x' where m: "m (wd_ext w) = (r, x')" by (metis surj_pair)
  then show "case fst (call_ext err m w) of Inl e \<Rightarrow> early_error e | Inr x \<Rightarrow> R x"
    using assms by (cases r) (auto simp: call_ext_def)
qed

lemma early_skip:
  assumes "errs_early q" "\<And>x. ends_in (\<lambda>r. case r of Inl e \<Rightarrow> early_error e | Inr t \<Rightarrow> P t) (f x)"
  shows "ends_in (\<lambda>r. case r of Inl e \<Rightarrow> early_error e | Inr t \<Rightarrow> P t) (bindT q f)"
  by (rule ends_in_value [where R = "\<lambda>_. True"]) (simp_all only: sum.case assms)

lemma media_and_asr_ends:
  fixes orch :: "'s orchestrator"
  shows "ends_in (\<lambda>r. case r of Inl e \<Rightarrow> early_error e | Inr t \<Rightarrow> transcribed orch i p t) (media_and_asr_thread orch i p)"
proof -
  note skip = early_skip [where P = "transcribed orch i p"]
  have asr: "ends_in (\<lambda>r. case r of Inl e \<Rightarrow> early_error e | Inr t \<Rightarrow> transcribed orch i p t)
      (bindT (atom (call_ext PipeAsr (or_asr orch (audio_input_new (pa_path audio))))) (\<lambda>t.
       bindT (atom (emit (EvTranscriptionCompleted i))) (\<lambda>_. okT t)))"
    if "or_media orch p (path_join (path_join (or_data_dir orch) (lit ''work'')) (job_id_str i)) extract_options_default x
       = (Inr audio, x')" for audio x x'
  proof (rule ends_in_value)
    show "ends_in (\<lambda>r. case r of Inl e \<Rightarrow> case Inl e of Inl e \<Rightarrow> early_error e | Inr t \<Rightarrow> transcribed orch i p t
        | Inr t \<Rightarrow> transcribed orch i p t) (atom (call_ext PipeAsr (or_asr orch (audio_input_new (pa_path audio)))))"
      unfolding sum.case
      by (rule early_call_ext) (use that in \<open>unfold transcribed_def, blast\<close>, simp add: early_error_def)
    show "ends_in (\<lambda>r. case r of Inl e \<Rightarrow> early_error e | Inr t \<Rightarrow> transcribed orch i p t)
        (bindT (atom (emit (EvTranscriptionCompleted i))) (\<lambda>_. okT t))" if "transcribed orch i p t" for t
      by (rule skip, rule errs_early_steps, rule ends_in_ok) (simp add: that)
  qed
  show ?thesis unfolding media_and_asr_thread_def Let_def
  proof (rule skip, rule errs_early_steps, rule skip, rule errs_early_steps, rule ends_in_value)
    let ?prepared = "\<lambda>audio. \<exists>x x'. or_media orch p (path_join (path_join (or_data_dir orch) (lit ''work'')) (job_id_str i))
      extract_options_default x = (Inr audio, x')"
    show "ends_in (\<lambda>r. case r of Inl e \<Rightarrow> case Inl e of Inl e \<Rightarrow> early_error e | Inr t \<Rightarrow> transcribed orch i p t
        | Inr audio \<Rightarrow> ?prepared audio)
      (atom (call_ext PipeMedia (or_media orch p (path_join (path_join (or_data_dir orch) (lit ''work'')) (job_id_str i))
        extract_options_default)))"
      unfolding sum.case by (rule early_call_ext) (auto simp: early_error_def)
  qed (elim exE, intro asr skip errs_early_steps, assumption)
qed

lemma early_quiet_value:
  assumes "quiet M orch i p" "ends_in (\<lambda>r. case r of Inl e \<Rightarrow> early_error e | Inr x \<Rightarrow> R x) p"
    and "\<And>x. R x \<Longrightarrow> outK M orch i (sees M orch i s) (f x) Q (\<lambda>e w. early_error e \<or> E e w)"
  shows "outK M orch i (sees M orch i s) (bindT p f) Q (\<lambda>e w. early_error e \<or> E e w)"
proof (rule outR_bind [where T = "\<lambda>x w. R x \<and> sees M orch i s w"])
  show "outK M orch i (sees M orch i s) p (\<lambda>x w. R x \<and> sees M orch i s w) (\<lambda>e w. early_error e \<or> E e w)"
    unfolding outR_def
  proof (intro allI impI)
    fix w r w' assume s: "sees M orch i s w" and r: "runs (kept M orch i) p w r w'"
    have "sees M orch i s w'" using s quiet_runs [OF assms(1) r] by (rule sees_kept)
    moreover have "case r of Inl e \<Rightarrow> early_error e | Inr x \<Rightarrow> R x" using assms(2) r unfolding ends_in_def by blast
    ultimately show "case r of Inl e \<Rightarrow> early_error e \<or> E e w' | Inr x \<Rightarrow> R x \<and> sees M orch i s w'"
      by (cases r) simp_all
  qed
  show "outK M orch i (\<lambda>w. R x \<and> sees M orch i s w) (f x) Q (\<lambda>e w. early_error e \<or> E e w)" for x
    using assms(3) unfolding outR_def by blast
qed

lemma early_quiet:
  assumes "quiet M orch i p" "errs_early p"
    and "\<And>x. outK M orch i (sees M orch i s) (f x) Q (\<lambda>e w. early_error e \<or> E e w)"
  shows "outK M orch i (sees M orch i s) (bindT p f) Q (\<lambda>e w. early_error e \<or> E e w)"
  by (rule early_quiet_value [where R = "\<lambda>_. True", OF assms(1,2)]) (rule assms(3))

lemmas early_steps = early_quiet [OF quiet_emit errs_early_steps(1)]
  early_quiet [OF quiet_readE errs_early_steps(3)] early_quiet [OF quiet_check_cancel errs_early_steps(6)]

lemma early_save:
  assumes "\<And>fault. atomic (or_json orch) (oper fault) g" "pointwise g"
    and "\<And>x. outK M orch i (sees M orch i (g v, jm)) (f x) Q (\<lambda>e w. early_error e \<or> E e w)"
  shows "outK M orch i (sees M orch i (v, jm)) (bindT (atom (call_store en oper)) f) Q (\<lambda>e w. early_error e \<or> E e w)"
proof (rule outR_bind [OF _ assms(3)])
  have "case r of Inl e \<Rightarrow> early_error e | Inr _ \<Rightarrow> True" if "call_store en oper w = (r, w')"
    for r and w w' :: "'a world"
    using that by (auto simp: call_store_def early_error_def split: prod.splits sum.splits)
  note early = this
  show "outK M orch i (sees M orch i (v, jm)) (atom (call_store en oper)) (\<lambda>_. sees M orch i (g v, jm))
      (\<lambda>e w. early_error e \<or> E e w)"
    by (rule outR_atom, erule (1) sees_kept, rule outE_I)
      (use call_store_sees [OF assms(1,2)] early in fastforce)+
qed

definition started_with :: "meeting_id \<Rightarrow> timestamp \<Rightarrow> meeting_input \<Rightarrow> meeting" where
  "started_with m now input = meeting_new m now (input_title input)"

text \<open>The source a run captures: the given transcript, or the one the speech provider returned for the
  prepared audio.\<close>

definition source_of :: "'s orchestrator \<Rightarrow> job_id \<Rightarrow> meeting_input \<Rightarrow> transcript \<Rightarrow> bool" where
  "source_of orch i input t \<longleftrightarrow> (case input of InputTranscript _ t' \<Rightarrow> t = t' | InputAudio _ p \<Rightarrow> transcribed orch i p t)"

definition run_done :: "meeting_id set \<Rightarrow> 's orchestrator \<Rightarrow> job_id \<Rightarrow> meeting_input \<Rightarrow> obs \<Rightarrow> meeting_id \<Rightarrow> 's world \<Rightarrow> bool" where
  "run_done M orch i input s m w \<longleftrightarrow> (\<exists>now t x ir. source_of orch i input t \<and> validate ir = Inr ()
     \<and> sees M orch i (enriched (or_json orch) (started_with m now input) ir
         (with_status m x (captured (or_json orch) (started_with m now input) t (fst s))), map_option (\<lambda>_. Some m) (snd s)) w)"

definition run_interrupted :: "meeting_id set \<Rightarrow> 's orchestrator \<Rightarrow> job_id \<Rightarrow> meeting_input \<Rightarrow> obs \<Rightarrow> 's world \<Rightarrow> bool" where
  "run_interrupted M orch i input s w \<longleftrightarrow> (\<exists>m now t x v'. source_of orch i input t
     \<and> partly_enriched m (with_status m x (captured (or_json orch) (started_with m now input) t (fst s))) v'
     \<and> sees M orch i (v', map_option (\<lambda>_. Some m) (snd s)) w)"

text \<open>From the saved meeting record on.\<close>

lemma run_rest_triple:
  fixes orch :: "'s orchestrator"
  assumes m: "m = started_with (mt_id m) now input" and t: "source_of orch i input t"
  shows "outK M orch i (sees M orch i (v\<lparr> sv_meeting := (sv_meeting v)(mt_id m := reread (sj_meeting (or_json orch)) m) \<rparr>,
        map_option (\<lambda>_. Some (mt_id m)) jm))
      (bindT (atom (call_store (or_env orch) (\<lambda>fault. save_transcript (or_json orch) fault (mt_id m) t))) (\<lambda>_.
       bindT (atom (persist_status orch (mt_id m) status_processing)) (\<lambda>_.
       bindT (atom (check_cancel (or_env orch) i)) (\<lambda>_.
       bindT (enrich_thread orch i m t cx) (\<lambda>_.
       okT (mt_id m))))))
      (run_done M orch i input (v, jm)) (\<lambda>e w. early_error e \<or> run_interrupted M orch i input (v, jm) w)"
    (is "outR _ (sees M orch i (?v, ?jm)) _ ?Q ?E")
proof -
  let ?c = "captured (or_json orch) m t v"
  have safe: "sees M orch i (v', ?jm) w \<Longrightarrow> partly_enriched (mt_id m) (with_status (mt_id m) x ?c) v'
      \<Longrightarrow> ?E e w" for w v' x e
    unfolding run_interrupted_def
    by (intro disjI2 exI [of _ "mt_id m"] exI [of _ now] exI [of _ t] exI [of _ x] exI [of _ v'])
      (simp add: t flip: m)
  have safe0: "sees M orch i (with_status (mt_id m) x ?c, ?jm) w \<Longrightarrow> ?E e w" for w x e
    by (erule safe) (rule partly_enriched_refl)
  have fin: "outK M orch i (\<lambda>w. \<exists>ir. validate ir = Inr () \<and>
      sees M orch i (enriched (or_json orch) m ir (with_status (mt_id m) x ?c), ?jm) w) (okT (mt_id m)) ?Q ?E" for x
  proof (rule outR_okT, elim exE conjE)
    fix w ir assume "validate ir = Inr ()"
      "sees M orch i (enriched (or_json orch) m ir (with_status (mt_id m) x ?c), ?jm) w"
    then show "?Q (mt_id m) w" unfolding run_done_def
      by (intro exI [of _ now] exI [of _ t] exI [of _ x] exI [of _ ir]) (simp add: t flip: m)
  qed
  have cap: "?v\<lparr> sv_transcript := (sv_transcript ?v)(mt_id m := reread (sj_transcript (or_json orch)) t) \<rparr> = ?c"
    by (simp add: captured_def)
  have "outK M orch i (sees M orch i (with_status (mt_id m) x ?c, ?jm))
      (bindT (enrich_thread orch i m t cx) (\<lambda>_. okT (mt_id m))) ?Q ?E" for x
    by (rule outR_bind [OF _ fin], rule outR_conseq [OF enrich_triple])
      (assumption, assumption, elim exE conjE, erule (1) safe)
  then have "outK M orch i (sees M orch i (with_status (mt_id m) x ?c, ?jm))
      (bindT (atom (check_cancel (or_env orch) i)) (\<lambda>_. bindT (enrich_thread orch i m t cx) (\<lambda>_. okT (mt_id m)))) ?Q ?E" for x
    by (rule seq_quiet [OF quiet_check_cancel]) (rule safe0)
  then have "outK M orch i (sees M orch i (?c, ?jm))
      (bindT (atom (persist_status orch (mt_id m) status_processing)) (\<lambda>_.
       bindT (atom (check_cancel (or_env orch) i)) (\<lambda>_. bindT (enrich_thread orch i m t cx) (\<lambda>_. okT (mt_id m))))) ?Q ?E"
    by (rule seq_status)
  then show ?thesis
    by (intro early_save [OF store_writes_atomic(2) pointwise_writes(2)]) (simp only: cap)
qed

text \<open>The whole run.\<close>

lemma run_triple:
  fixes orch :: "'s orchestrator"
  shows "outK M orch i (sees M orch i (v, jm)) (run_thread orch i input) (run_done M orch i input (v, jm))
    (\<lambda>e w. early_error e \<or> run_interrupted M orch i input (v, jm) w)"
    (is "outR _ _ _ ?Q ?E")
proof -
  have start: "outK M orch i (sees M orch i (v, jm))
      (let meeting = meeting_new (en_meeting_id (or_env orch) n) (en_now (or_env orch) n) (input_title input);
         context = \<lparr> cx_title = Some (mt_title meeting) \<rparr> in
     bindT (atom (call_store (or_env orch) (\<lambda>fault. save_meeting (or_json orch) fault meeting))) (\<lambda>_.
     bindT (atom (job_update (or_env orch) i (\<lambda>j. j\<lparr> jb_meeting_id := Some (mt_id meeting) \<rparr>))) (\<lambda>_.
     bindT (atom (emit (EvProcessingStarted i (mt_id meeting)))) (\<lambda>_.
     bindT (atom (check_cancel (or_env orch) i)) (\<lambda>_.
     bindT (case input of InputTranscript _ transcript \<Rightarrow> okT transcript
       | InputAudio _ p \<Rightarrow> media_and_asr_thread orch i p) (\<lambda>raw_transcript.
     bindT (atom (call_store (or_env orch) (\<lambda>fault. save_transcript (or_json orch) fault (mt_id meeting) raw_transcript))) (\<lambda>_.
     bindT (atom (persist_status orch (mt_id meeting) status_processing)) (\<lambda>_.
     bindT (atom (check_cancel (or_env orch) i)) (\<lambda>_.
     bindT (enrich_thread orch i meeting raw_transcript context) (\<lambda>_.
     okT (mt_id meeting)))))))))))
      ?Q ?E" for n
  proof -
    let ?m = "meeting_new (en_meeting_id (or_env orch) n) (en_now (or_env orch) n) (input_title input)"
    let ?v = "v\<lparr> sv_meeting := (sv_meeting v)(mt_id ?m := reread (sj_meeting (or_json orch)) ?m) \<rparr>"
    have m: "?m = started_with (mt_id ?m) (en_now (or_env orch) n) input"
      by (simp add: started_with_def meeting_new_def)
    have obtain_source: "outK M orch i (sees M orch i (?v, map_option (\<lambda>_. Some (mt_id ?m)) jm))
      (bindT (case input of InputTranscript _ transcript \<Rightarrow> okT transcript
         | InputAudio _ p \<Rightarrow> media_and_asr_thread orch i p) (\<lambda>raw_transcript.
       bindT (atom (call_store (or_env orch) (\<lambda>fault. save_transcript (or_json orch) fault (mt_id ?m) raw_transcript))) (\<lambda>_.
       bindT (atom (persist_status orch (mt_id ?m) status_processing)) (\<lambda>_.
       bindT (atom (check_cancel (or_env orch) i)) (\<lambda>_.
       bindT (enrich_thread orch i ?m raw_transcript cx) (\<lambda>_. okT (mt_id ?m)))))))
      ?Q ?E" for cx
    proof (cases input)
      case (InputTranscript title t)
      then show ?thesis using run_rest_triple [OF m, where t = t and cx = cx] by (simp add: source_of_def)
    next
      case (InputAudio title p)
      then have "source_of orch i input t" if "transcribed orch i p t" for t using that by (simp add: source_of_def)
      from run_rest_triple [OF m this] show ?thesis unfolding InputAudio meeting_input.case
        by (rule early_quiet_value [OF quiet_media_and_asr media_and_asr_ends])
    qed
    show ?thesis unfolding Let_def
      by (rule early_save [OF store_writes_atomic(1) pointwise_writes(1)], rule seq_link, simp,
        intro early_steps obtain_source)
  qed
  show ?thesis unfolding run_thread_def
    by (rule early_quiet [OF quiet_job_update errs_early_steps(4)], simp, intro early_steps start)
qed

section \<open>The terminal bookkeeping\<close>

lemma seq_read:
  assumes "\<And>w. sees M orch i s w \<Longrightarrow> g w = c" "outK M orch i (sees M orch i s) (f c) Q E"
  shows "outK M orch i (sees M orch i s) (bindT (atom (readE g)) f) Q E"
proof (rule outR_bind [where T = "\<lambda>x w. x = c \<and> sees M orch i s w"])
  show "outK M orch i (sees M orch i s) (atom (readE g)) (\<lambda>x w. x = c \<and> sees M orch i s w) E"
    by (rule outR_atom, erule (1) sees_kept, rule outE_readE) (simp add: assms(1))
  show "outK M orch i (\<lambda>w. x = c \<and> sees M orch i s w) (f x) Q E" for x
    using assms(2) unfolding outR_def by blast
qed

text \<open>The meeting a job is linked to, for the status write.\<close>

definition linked :: "meeting_id option option \<Rightarrow> meeting_id option" where
  "linked jm = Option.bind jm id"

lemma linked_meeting:
  "sees M orch i (v, jm) w \<Longrightarrow> Option.bind (registry_get i (wd_jobs w)) jb_meeting_id = linked jm"
  by (cases "registry_get i (wd_jobs w)") (auto simp: sees_def job_meeting_def linked_def)

definition finalized :: "pipeline_error + meeting_id \<Rightarrow> obs \<Rightarrow> obs \<Rightarrow> bool" where
  "finalized result s s' \<longleftrightarrow> (case result of
       Inr m \<Rightarrow> \<exists>x. s' = (with_status m x (fst s), map_option (\<lambda>_. Some m) (snd s))
     | Inl _ \<Rightarrow> (case linked (snd s) of None \<Rightarrow> s' = s
         | Some m \<Rightarrow> \<exists>x. s' = (with_status m x (fst s), snd s)))"

lemma emit_triple: "(\<And>w. sees M orch i s w \<Longrightarrow> Q () w) \<Longrightarrow> outK M orch i (sees M orch i s) (atom (emit ev)) Q E"
  by (rule outR_atom, erule (1) sees_kept, rule outE_I)
    (auto simp: emit_def doE_def sees_def job_meeting_def registry_get_def)

lemma finalize_triple:
  shows "outK M orch i (sees M orch i (v, jm)) (finalize_thread orch i result)
    (\<lambda>_ w. \<exists>s. finalized result (v, jm) s \<and> sees M orch i s w) (\<lambda>_ _. True)"
    (is "outR _ _ _ (?Q result) ?E")
proof -
  have failed: "outK M orch i (sees M orch i (v, jm))
      (bindT (atom (job_update (or_env orch) i f)) (\<lambda>_. bindT (atom (persist_if_known orch (linked jm) g)) (\<lambda>_. atom (emit ev))))
      (?Q (Inl e)) ?E"
    if "\<And>j. jb_meeting_id (f j) = jb_meeting_id j" for f g ev and e :: pipeline_error
  proof (rule seq_quiet [OF quiet_job_update [OF that]])
    fix u
    show "outK M orch i (sees M orch i (v, jm)) (bindT (atom (persist_if_known orch (linked jm) g)) (\<lambda>_. atom (emit ev)))
        (?Q (Inl e)) ?E"
    proof (cases "linked jm")
      case None
      have "quiet M orch i (atom (persist_if_known orch None g))"
        by (simp add: persist_if_known_def steps_in_atom okE_def kept_refl)
      then show ?thesis unfolding None
        by (rule seq_quiet [OF _ emit_triple]) (auto simp: finalized_def None)
    next
      case (Some m)
      then show ?thesis unfolding Some persist_if_known_def option.case
        by (intro seq_status emit_triple) (auto simp: finalized_def Some)
    qed
  qed simp
  have completed: "outK M orch i (sees M orch i (v, jm))
      (bindT (atom (job_update (or_env orch) i (\<lambda>j. j\<lparr> jb_status := Completed, jb_stage := Done, jb_meeting_id := Some m \<rparr>))) (\<lambda>_.
       bindT (atom (persist_status orch m status_ready)) (\<lambda>_. atom (emit (EvJobCompleted i m)))))
      (?Q (Inr m)) ?E" for m
    by (rule seq_link, simp, intro seq_status emit_triple) (auto simp: finalized_def)
  show ?thesis unfolding finalize_thread_def
    by (rule seq_read, erule linked_meeting)
      (auto simp del: split_paired_Ex split: sum.splits pipeline_error.splits intro!: failed completed)
qed

text \<open>The end of a job: what its pipeline left, and then the bookkeeping.\<close>

lemma then_finalize_sees:
  assumes "outK M orch i (sees M orch i (v, jm)) p Q E"
    and "\<And>x w. Q x w \<Longrightarrow> \<exists>s. sees M orch i s w \<and> F (Inr x) s" "\<And>e w. E e w \<Longrightarrow> \<exists>s. sees M orch i s w \<and> F (Inl e) s"
    and "runs (kept M orch i) (then_finalize_thread orch i p) w r w'" "sees M orch i (v, jm) w"
  shows "\<exists>s s'. F r s \<and> finalized r s s' \<and> sees M orch i s' w'"
proof -
  from assms(4) obtain u w1 where 1: "runs (kept M orch i) p w r w1"
    and 2: "runs (kept M orch i) (finalize_thread orch i r) w1 u w'"
    unfolding then_finalize_thread_def runs_then by auto
  from outR_D [OF assms(1,5) 1] obtain s where s: "sees M orch i s w1" "F r s"
    using assms(2,3) by (cases r) (simp_all del: split_paired_Ex, blast+)
  have "u = Inr ()" using finalize_ends 2 unfolding ends_in_def by blast
  moreover obtain v1 jm1 where "s = (v1, jm1)" by (cases s)
  ultimately show ?thesis using outR_D [OF finalize_triple _ 2, of v1 jm1] s by auto
qed

section \<open>Retry\<close>

lemma read_store:
  assumes "\<And>d. snd (oper None d) = d" "\<And>fault d. fault \<noteq> None \<Longrightarrow> \<exists>e. oper fault d = (Inl e, d)"
    and "call_store en oper w = (r, w')"
  shows "kept M orch i w w' \<and> (case r of Inr x \<Rightarrow> fst (oper None (wd_db w)) = Inr x
    | Inl e \<Rightarrow> \<exists>se. e = PipeStorage se)"
proof -
  let ?fault = "en_db_fault en (wd_tick w)"
  obtain r0 d' where o: "oper ?fault (wd_db w) = (r0, d')" by (cases "oper ?fault (wd_db w)")
  have d': "d' = wd_db w" using assms(1) [of "wd_db w"] assms(2) [of ?fault "wd_db w"] o
    by (cases ?fault) auto
  have "case r0 of Inr x \<Rightarrow> fst (oper None (wd_db w)) = Inr x | Inl _ \<Rightarrow> True"
    using assms(2) [of ?fault "wd_db w"] o by (cases ?fault; cases r0) auto
  then show ?thesis using assms(3) o d'
    by (cases r0) (auto simp: call_store_def kept_def job_meeting_def registry_get_def)
qed

lemma get_meeting_read:
  "snd (get_meeting js None i d) = d" "fault \<noteq> None \<Longrightarrow> \<exists>e. get_meeting js fault i d = (Inl e, d)"
  "snd (get_transcript js None i d) = d" "fault \<noteq> None \<Longrightarrow> \<exists>e. get_transcript js fault i d = (Inl e, d)"
  by (auto simp: get_meeting_def get_transcript_def get_artifact_def bindE_def with_conn_def decodeE_def
      split: option.splits)

lemma seq_get:
  assumes "\<And>w r w'. call_store en oper w = (r, w') \<Longrightarrow> kept M orch i w w'
      \<and> (case r of Inr x \<Rightarrow> \<forall>v. same_on M v (view orch w) \<longrightarrow> R x v | Inl _ \<Rightarrow> True)"
    and "\<And>x. R x v \<Longrightarrow> outK M orch i (sees M orch i (v, jm)) (f x) Q E"
    and "\<And>e w. sees M orch i (v, jm) w \<Longrightarrow> E e w"
  shows "outK M orch i (sees M orch i (v, jm)) (bindT (atom (call_store en oper)) f) Q E"
proof (rule outR_bind [where T = "\<lambda>x w. R x v \<and> sees M orch i (v, jm) w"])
  have after: "sees M orch i (v, jm) w' \<and> (case r of Inr x \<Rightarrow> R x v | Inl _ \<Rightarrow> True)"
    if "sees M orch i (v, jm) w" "call_store en oper w = (r, w')" for w r w'
    using assms(1) [OF that(2)] sees_kept [OF that(1)] that(1)
    by (cases r) (auto simp: sees_def)
  show "outK M orch i (sees M orch i (v, jm)) (atom (call_store en oper)) (\<lambda>x w. R x v \<and> sees M orch i (v, jm) w) E"
    by (rule outR_atom, erule (1) sees_kept, rule outE_I) (use after assms(3) in fastforce)+
  show "outK M orch i (\<lambda>w. R x v \<and> sees M orch i (v, jm) w) (f x) Q E" for x
    using assms(2) unfolding outR_def by blast
qed

lemma call_get_meeting:
  assumes "m \<in> M" "call_store en (\<lambda>fault. get_meeting (or_json orch) fault m) w = (r, w')"
  shows "kept M orch i w w'
     \<and> (case r of Inr x \<Rightarrow> \<forall>v. same_on M v (view orch w) \<longrightarrow> sv_meeting v m = Inr x | Inl _ \<Rightarrow> True)"
proof -
  have "sv_meeting (view orch w) m = fst (get_meeting (or_json orch) None m (wd_db w))"
    by (simp add: view_store_def)
  with read_store [OF get_meeting_read(1,2) assms(2)] show ?thesis using assms(1)
    by (cases r) (auto simp: same_on_def)
qed

lemma call_get_transcript:
  assumes "m \<in> M" "call_store en (\<lambda>fault. get_transcript (or_json orch) fault m) w = (r, w')"
  shows "kept M orch i w w'
     \<and> (case r of Inr x \<Rightarrow> \<forall>v. same_on M v (view orch w) \<longrightarrow> sv_transcript v m = Inr x | Inl _ \<Rightarrow> True)"
proof -
  have "sv_transcript (view orch w) m = fst (get_transcript (or_json orch) None m (wd_db w))"
    by (simp add: view_store_def)
  with read_store [OF get_meeting_read(3,4) assms(2)] show ?thesis using assms(1)
    by (cases r) (auto simp: same_on_def)
qed

lemma seq_required:
  assumes "\<And>x. found = Some x \<Longrightarrow> outK M orch i (sees M orch i s) (f x) Q E"
    and "\<And>e w. sees M orch i s w \<Longrightarrow> E e w"
  shows "outK M orch i (sees M orch i s) (bindT (atom (required found msg)) f) Q E"
  by (rule seq_quiet_value [where R = "\<lambda>x. found = Some x", OF quiet_required _ assms])
    (auto intro!: ends_in_atom simp: required_def okE_def errE_def split: option.split)

definition rerun_done :: "meeting_id set \<Rightarrow> 's orchestrator \<Rightarrow> job_id \<Rightarrow> meeting_id \<Rightarrow> obs \<Rightarrow> meeting_id \<Rightarrow> 's world \<Rightarrow> bool" where
  "rerun_done M orch i m s m' w \<longleftrightarrow> (\<exists>mt t x ir. m' = mt_id mt \<and> sv_meeting (fst s) m = Inr (Some mt)
     \<and> sv_transcript (fst s) m = Inr (Some t) \<and> validate ir = Inr ()
     \<and> sees M orch i (enriched (or_json orch) mt ir (with_status m x (fst s)), map_option (\<lambda>_. Some m) (snd s)) w)"

definition rerun_interrupted :: "meeting_id set \<Rightarrow> 's orchestrator \<Rightarrow> job_id \<Rightarrow> meeting_id \<Rightarrow> obs \<Rightarrow> 's world \<Rightarrow> bool" where
  "rerun_interrupted M orch i m s w \<longleftrightarrow>
     sees M orch i (fst s, map_option (\<lambda>_. Some m) (snd s)) w
     \<or> (\<exists>mt x v'. sv_meeting (fst s) m = Inr (Some mt) \<and> partly_enriched (mt_id mt) (with_status m x (fst s)) v'
         \<and> sees M orch i (v', map_option (\<lambda>_. Some m) (snd s)) w)"

lemma rerun_triple:
  assumes "m \<in> M"
  shows "outK M orch i (sees M orch i (v, jm)) (rerun_thread orch i m) (rerun_done M orch i m (v, jm))
    (\<lambda>_ w. rerun_interrupted M orch i m (v, jm) w)"
proof -
  let ?jm = "map_option (\<lambda>_. Some m) jm"
  let ?E = "\<lambda>_ w. rerun_interrupted M orch i m (v, jm) w"
  have E0: "sees M orch i (v, ?jm) w \<Longrightarrow> ?E e w" for w and e :: pipeline_error
    by (simp add: rerun_interrupted_def)
  have E1: "sees M orch i (v', ?jm) w \<Longrightarrow> partly_enriched (mt_id mt) (with_status m x v) v' \<Longrightarrow> ?E e w"
    if "sv_meeting v m = Inr (Some mt)" for w v' x mt and e :: pipeline_error
    using that by (auto simp: rerun_interrupted_def)
  have main: "outK M orch i (sees M orch i (with_status m x v, ?jm))
      (bindT (atom (emit (EvProcessingStarted i m))) (\<lambda>_. bindT (atom (check_cancel (or_env orch) i)) (\<lambda>_.
        bindT (enrich_thread orch i mt t cx) (\<lambda>_. okT (mt_id mt)))))
      (rerun_done M orch i m (v, jm)) ?E"
    if mt: "sv_meeting v m = Inr (Some mt)" and t: "sv_transcript v m = Inr (Some t)" for mt t x cx
  proof -
    have fin: "outK M orch i (\<lambda>w. \<exists>ir. validate ir = Inr () \<and> sees M orch i (enriched (or_json orch) mt ir (with_status m x v), ?jm) w)
        (okT (mt_id mt)) (rerun_done M orch i m (v, jm)) ?E" for y :: unit
      by (rule outR_okT) (use mt t in \<open>auto simp: rerun_done_def\<close>)
    have E2: "sees M orch i (with_status m x v, ?jm) w \<Longrightarrow> ?E e w" for w and e :: pipeline_error
      by (erule E1 [OF mt]) (rule partly_enriched_refl)
    have "outK M orch i (sees M orch i (with_status m x v, ?jm))
        (bindT (enrich_thread orch i mt t cx) (\<lambda>_. okT (mt_id mt))) (rerun_done M orch i m (v, jm)) ?E"
      by (rule outR_bind [OF _ fin], rule outR_conseq [OF enrich_triple])
        (assumption, assumption, elim exE conjE, erule (1) E1 [OF mt])
    then show ?thesis by (intro seq_quiet [OF quiet_emit] seq_quiet [OF quiet_check_cancel] E2)
  qed
  show ?thesis unfolding rerun_thread_def Let_def
    apply (rule seq_link, simp)
    apply (rule seq_get [OF call_get_meeting [OF assms] _ E0], assumption)
    apply (rule seq_required [OF _ E0])
     apply (rule seq_get [OF call_get_transcript [OF assms] _ E0], assumption)
     apply (rule seq_required [OF _ E0])
      apply (rule seq_status)
      apply (rule main)
       apply simp_all
    done
qed

end
