(* ===== verification/Orchestrator_Store.thy ===== *)
theory Orchestrator_Store
  imports Orchestrator_Observed
begin

text \<open>
  What a job leaves behind: the contents of the store, the job's entry and the durable status, whatever
  fails on the way and whatever other jobs do to the entries that are not observed. The triples of
  \<open>Orchestrator_Observed\<close> carry the proofs; the pipeline on its own is the case in which every meeting
  is observed and nobody interferes.
\<close>

section \<open>A small pipeline to evaluate\<close>

definition demo_pipeline_json :: "transcript \<Rightarrow> store_json" where
  "demo_pipeline_json t = \<lparr> sj_meeting = single_codec (meeting_new (MeetingId (lit ''m1'')) 0 (lit ''Sync'')),
     sj_transcript = single_codec t, sj_ir = single_codec empty_ir, sj_status = single_codec (status_ready 0) \<rparr>"

definition demo_env :: env where
  "demo_env = \<lparr> en_now = (\<lambda>_. 0), en_meeting_id = (\<lambda>_. MeetingId (lit ''m1'')), en_db_fault = (\<lambda>_. None),
     en_job_write_fails = (\<lambda>_. False), en_cancel_request = (\<lambda>_ _. False) \<rparr>"

definition demo_orch :: "transcript \<Rightarrow> unit orchestrator" where
  "demo_orch t = \<lparr> or_media = (\<lambda>_ _ _. errE (MediaFailed [])), or_asr = whisper_transcribe,
     or_ai = \<lparr> extract_chunk = (\<lambda>_ _. errE (AiLlm (LlmTransport []))),
       synthesize = (\<lambda>_ _ _. errE (AiLlm (LlmTransport []))) \<rparr>,
     or_json = demo_pipeline_json t, or_data_dir = [], or_chunking = chunking_config_default, or_env = demo_env \<rparr>"

definition demo_job :: job_id where "demo_job = JobId (lit ''j1'')"

definition demo_world :: "unit world" where
  "demo_world = \<lparr> wd_db = db_empty, wd_jobs = registry_create \<lparr> jw_now = 0, jw_fails = False \<rparr> demo_job Process registry_new,
     wd_events = [], wd_tick = 0, wd_ext = () \<rparr>"

lemma validate_empty_ir: "validate empty_ir = Inr ()"
  by (simp add: validate_ok_iff required_texts_def empty_ir_def meeting_ir_default_def trim_eq_Nil_iff
      lit_def is_whitespace_def)

lemmas pipe_eval = process_def then_finalize_def run_def enrich_def analyze_stage_def validate_stage_def
  stage_def job_update_def emit_def check_cancel_def call_store_def persist_status_def effect_defs Let_def

lemmas demo_simps = demo_orch_def demo_env_def demo_pipeline_json_def store_op_defs is_cancelled_def
  demo_world_def registry_update_def registry_create_def registry_new_def persist_def

lemma demo_process_on:
  "\<exists>w'. process (demo_orch \<lparr> tr_segments = [] \<rparr>) demo_job
     (InputTranscript (Some (lit ''Sync'')) \<lparr> tr_segments = [] \<rparr>) (demo_world\<lparr> wd_db := d \<rparr>) = (Inr (MeetingId (lit ''m1'')), w')"
proof -
  have p: "pr_chunks (prepare \<lparr> tr_segments = [] \<rparr> cfg) = []" for cfg
    by (simp add: prepare_no_chunks)
  have e: "meeting_new i n s \<lparr> mt_participants := ir_participants empty_ir \<rparr> = meeting_new i n s"
    "mt_id (meeting_new i n s) = i" for i n s
    by (simp_all add: meeting_new_def empty_ir_def meeting_ir_default_def)
  show ?thesis
    by (simp add: pipe_eval demo_simps p e validate_empty_ir split_beta)
qed

lemma demo_world_db: "demo_world\<lparr> wd_db := db_empty \<rparr> = demo_world"
  by (simp add: demo_world_def)

lemmas demo_process_ok = demo_process_on [where d = db_empty, unfolded demo_world_db]

definition demo_talk :: transcript where
  "demo_talk = \<lparr> tr_segments = [demo_segment ''S1'' 0 1 ''hi''] \<rparr>"

lemma demo_talk_chunks:
  obtains c cs where "pr_chunks (prepare demo_talk chunking_config_default) = c # cs"
proof -
  have "normalize_segment (demo_segment ''S1'' 0 1 ''hi'') \<noteq> None"
    by (simp add: normalize_segment_def Let_def demo_segment_def collapse_whitespace_eq_Nil
        split_whitespace_Nil_iff lit_def is_whitespace_def)
  then show thesis using that prepare_no_chunks [of demo_talk chunking_config_default]
    by (cases "pr_chunks (prepare demo_talk chunking_config_default)") (auto simp: demo_talk_def)
qed

lemma demo_process_fails_on:
  "\<exists>w'. process (demo_orch demo_talk) demo_job (InputTranscript (Some (lit ''Sync'')) demo_talk) (demo_world\<lparr> wd_db := d \<rparr>)
     = (Inl (PipeAi (AiLlm (LlmTransport []))), w')"
proof -
  obtain c cs where p: "pr_chunks (prepare demo_talk chunking_config_default) = c # cs" by (rule demo_talk_chunks)
  show ?thesis
    by (simp add: pipe_eval demo_simps p call_ext_def split_beta)
qed

lemmas demo_process_fails = demo_process_fails_on [where d = db_empty, unfolded demo_world_db]

text \<open>The same world once another job has saved minutes of another meeting.\<close>

definition demo_beside :: "unit world" where
  "demo_beside = demo_world\<lparr> wd_db := snd (save_mom None (MeetingId (lit ''m2'')) (lit ''aside'') db_empty) \<rparr>"

lemma demo_beside_view:
  "view (demo_orch t) demo_beside = (view (demo_orch t) demo_world)
     \<lparr> sv_mom := (sv_mom (view (demo_orch t) demo_world))(MeetingId (lit ''m2'') := Inr (Some (lit ''aside''))) \<rparr>"
proof -
  have "fst (save_mom None (MeetingId (lit ''m2'')) (lit ''aside'') db_empty) = Inr ()" by (simp add: store_op_defs)
  then have "save_mom None (MeetingId (lit ''m2'')) (lit ''aside'') db_empty = (Inr (), wd_db demo_beside)"
    by (simp add: demo_beside_def prod_eq_iff)
  from atomic_ok [OF store_writes_atomic(4) this] show ?thesis by (simp add: demo_world_def)
qed

lemma demo_beside_kept: "kept {MeetingId (lit ''m1'')} (demo_orch t) demo_job demo_world demo_beside"
  unfolding kept_def demo_beside_view by (simp add: same_on_def lit_def job_meeting_def demo_beside_def)

lemma demo_orch_run_beside:
  assumes "or_json orch = or_json (demo_orch t)" "process orch demo_job input demo_beside = (r, w')"
  shows "runs (kept {MeetingId (lit ''m1'')} orch demo_job) (process_thread orch demo_job input) demo_world r w'"
proof -
  have "runs (kept {MeetingId (lit ''m1'')} orch demo_job) (process_thread orch demo_job input) demo_beside r w'"
    using runs_alone [of _ "process_thread orch demo_job input" demo_beside] assms(2) by (simp add: alone_jobs)
  moreover have "kept {MeetingId (lit ''m1'')} orch demo_job demo_world demo_beside"
    using demo_beside_kept [of t] unfolding kept_def assms(1) .
  ultimately show ?thesis unfolding process_thread_def then_finalize_thread_def run_thread_def
    by (simp add: bind_atom) (erule runs_before [rotated], erule r_into_rtranclp)
qed

lemmas demo_run_beside = demo_orch_run_beside [OF refl]

text \<open>A recorder: any input is prepared as one file, in which the speech provider hears the talk.\<close>

definition demo_recorder :: "unit orchestrator" where
  "demo_recorder = (demo_orch demo_talk)\<lparr>
     or_media := \<lambda>_ _ _. okE \<lparr> pa_path = lit ''talk.wav'', pa_sample_rate = 16000, pa_channels = 1 \<rparr>,
     or_asr := \<lambda>_. okE demo_talk \<rparr>"

lemma demo_record_fails_on:
  "\<exists>w'. process demo_recorder demo_job (InputAudio (Some (lit ''Sync'')) (lit ''talk.mp4'')) (demo_world\<lparr> wd_db := d \<rparr>)
     = (Inl (PipeAi (AiLlm (LlmTransport []))), w')"
proof -
  obtain c cs where p: "pr_chunks (prepare demo_talk chunking_config_default) = c # cs" by (rule demo_talk_chunks)
  show ?thesis
    by (simp add: pipe_eval media_and_asr_def demo_recorder_def demo_simps p call_ext_def split_beta)
qed

lemma demo_record_beside:
  assumes "process demo_recorder demo_job input demo_beside = (r, w')"
  shows "runs (kept {MeetingId (lit ''m1'')} demo_recorder demo_job) (process_thread demo_recorder demo_job input) demo_world r w'"
  by (rule demo_orch_run_beside [where t = demo_talk, OF _ assms]) (simp add: demo_recorder_def)

section \<open>What a first processing leaves behind\<close>

definition process_left :: "'s orchestrator \<Rightarrow> job_id \<Rightarrow> meeting_input \<Rightarrow> obs \<Rightarrow> pipeline_error + meeting_id \<Rightarrow> obs \<Rightarrow> bool" where
  "process_left orch i input s r s' \<longleftrightarrow> (case r of
     Inr m \<Rightarrow> \<exists>now t x ir. source_of orch i input t \<and> validate ir = Inr ()
       \<and> s' = (enriched (or_json orch) (started_with m now input) ir
           (with_status m x (captured (or_json orch) (started_with m now input) t (fst s))), map_option (\<lambda>_. Some m) (snd s))
   | Inl e \<Rightarrow> early_error e \<or> (\<exists>m now t x v'. source_of orch i input t
       \<and> partly_enriched m (with_status m x (captured (or_json orch) (started_with m now input) t (fst s))) v'
       \<and> s' = (v', map_option (\<lambda>_. Some m) (snd s))))"

lemma process_sees:
  assumes "runs (kept M orch i) (process_thread orch i input) w r w'"
  shows "\<exists>s s'. process_left orch i input (view orch w, job_meeting i w) r s \<and> finalized r s s' \<and> sees M orch i s' w'"
proof (rule then_finalize_sees [OF run_triple [where input = input] _ _ assms [unfolded process_thread_def] sees_now])
  show "\<exists>s. sees M orch i s u \<and> process_left orch i input (view orch w, job_meeting i w) (Inr x) s"
    if "run_done M orch i input (view orch w, job_meeting i w) x u" for x u
    using that unfolding run_done_def process_left_def sum.case by blast
  show "\<exists>s. sees M orch i s u \<and> process_left orch i input (view orch w, job_meeting i w) (Inl e) s"
    if "early_error e \<or> run_interrupted M orch i input (view orch w, job_meeting i w) u" for e u
    using that sees_now [of M orch i u] unfolding run_interrupted_def process_left_def sum.case by blast
qed

text \<open>Run alone, everything may be observed.\<close>

lemma process_alone: "process orch i input w = (r, w') \<Longrightarrow> runs R (process_thread orch i input) w r w'"
  using runs_alone [of R "process_thread orch i input" w] by (simp add: alone_jobs)

lemma reprocess_alone: "reprocess orch i m w = (r, w') \<Longrightarrow> runs R (reprocess_thread orch i m) w r w'"
  using runs_alone [of R "reprocess_thread orch i m" w] by (simp add: alone_jobs)

text \<open>The store after a success, and what an interrupted processing left of its source.\<close>

lemma success_left:
  assumes "process_left orch i input (v, jm) (Inr m) s" "finalized (Inr m) s s'"
  shows "\<exists>now t ir x. source_of orch i input t \<and> validate ir = Inr ()
    \<and> fst s' = v\<lparr>
        sv_meeting := (sv_meeting v)(m := reread (sj_meeting (or_json orch))
          ((meeting_new m now (input_title input))\<lparr> mt_participants := ir_participants ir \<rparr>)),
        sv_transcript := (sv_transcript v)(m := reread (sj_transcript (or_json orch)) t),
        sv_ir := (sv_ir v)(m := reread (sj_ir (or_json orch)) ir),
        sv_mom := (sv_mom v)(m := Inr (Some (render_with_title ir (input_title input)))),
        sv_status := (sv_status v)(m := x) \<rparr>"
proof -
  from assms(1) obtain now t x ir where t: "source_of orch i input t" "validate ir = Inr ()"
    and s: "s = (enriched (or_json orch) (started_with m now input) ir
         (with_status m x (captured (or_json orch) (started_with m now input) t v)), map_option (\<lambda>_. Some m) jm)"
    unfolding process_left_def by auto
  from assms(2) obtain y where "fst s' = with_status m y (enriched (or_json orch) (started_with m now input) ir
         (with_status m x (captured (or_json orch) (started_with m now input) t v)))"
    unfolding s finalized_def by auto
  then show ?thesis using t
    by (intro exI [of _ now] exI [of _ t] exI [of _ ir] exI [of _ y])
      (simp add: with_status_def enriched_def captured_def started_with_def meeting_new_def)
qed

lemma interrupted_left:
  assumes "process_left orch i input (v, jm) (Inl (PipeAi e)) s" "finalized (Inl (PipeAi e)) s s'"
  shows "\<exists>m now t. source_of orch i input t
    \<and> sv_meeting (fst s') = (sv_meeting v)(m := reread (sj_meeting (or_json orch)) (meeting_new m now (input_title input)))
    \<and> sv_transcript (fst s') = (sv_transcript v)(m := reread (sj_transcript (or_json orch)) t)
    \<and> snd s' = map_option (\<lambda>_. Some m) jm"
proof -
  from assms(1) obtain m now t x v' where t: "source_of orch i input t"
    and v': "partly_enriched m (with_status m x (captured (or_json orch) (started_with m now input) t v)) v'"
    and s: "s = (v', map_option (\<lambda>_. Some m) jm)"
    unfolding process_left_def by (auto simp: early_error_def)
  from assms(2) s have "\<exists>y. s' = (with_status m y v', map_option (\<lambda>_. Some m) jm) \<or> s' = (v', map_option (\<lambda>_. Some m) jm)"
    by (cases jm) (auto simp: finalized_def linked_def)
  then have "sv_meeting (fst s') = sv_meeting v'" "sv_transcript (fst s') = sv_transcript v'"
    "snd s' = map_option (\<lambda>_. Some m) jm"
    by (auto simp: with_status_def)
  moreover from v' have "sv_meeting v' = (sv_meeting v)(m := reread (sj_meeting (or_json orch)) (meeting_new m now (input_title input)))"
    "sv_transcript v' = (sv_transcript v)(m := reread (sj_transcript (or_json orch)) t)"
    by (auto simp: partly_enriched_def with_status_def captured_def started_with_def meeting_new_def)
  ultimately show ?thesis using t by metis
qed

text \<open>Functional correctness of processing: when it succeeds with a meeting, that meeting's record
  (with the participants of the analysis), the source transcript, a validated Meeting IR and the
  minutes rendered from exactly that IR and title are what the store answers - each as its stored text
  reads back - and nothing about any other meeting has changed.\<close>

theorem process_success:
  assumes "process orch i input w = (Inr m, w')"
  shows "\<exists>now t ir x. source_of orch i input t \<and> validate ir = Inr ()
    \<and> view orch w' = (view orch w)\<lparr>
        sv_meeting := (sv_meeting (view orch w))(m := reread (sj_meeting (or_json orch))
          ((meeting_new m now (input_title input))\<lparr> mt_participants := ir_participants ir \<rparr>)),
        sv_transcript := (sv_transcript (view orch w))(m := reread (sj_transcript (or_json orch)) t),
        sv_ir := (sv_ir (view orch w))(m := reread (sj_ir (or_json orch)) ir),
        sv_mom := (sv_mom (view orch w))(m := Inr (Some (render_with_title ir (input_title input)))),
        sv_status := (sv_status (view orch w))(m := x) \<rparr>"
proof -
  from process_sees [OF process_alone [OF assms], of UNIV] obtain s s' where
    "process_left orch i input (view orch w, job_meeting i w) (Inr m) s" "finalized (Inr m) s s'"
    and "fst s' = view orch w'"
    unfolding sees_def same_on_UNIV by metis
  from success_left [OF this(1,2)] this(3) show ?thesis by simp
qed

theorem process_success_witness:
  "\<exists>w' ir. process (demo_orch \<lparr> tr_segments = [] \<rparr>) demo_job
       (InputTranscript (Some (lit ''Sync'')) \<lparr> tr_segments = [] \<rparr>) demo_world = (Inr (MeetingId (lit ''m1'')), w')
     \<and> sv_transcript (view (demo_orch \<lparr> tr_segments = [] \<rparr>) w') (MeetingId (lit ''m1''))
         = Inr (Some \<lparr> tr_segments = [] \<rparr>)
     \<and> sv_mom (view (demo_orch \<lparr> tr_segments = [] \<rparr>) w') (MeetingId (lit ''m1''))
         = Inr (Some (render_with_title ir (lit ''Sync'')))"
proof -
  from demo_process_ok obtain w' where
    w': "process (demo_orch \<lparr> tr_segments = [] \<rparr>) demo_job
       (InputTranscript (Some (lit ''Sync'')) \<lparr> tr_segments = [] \<rparr>) demo_world = (Inr (MeetingId (lit ''m1'')), w')"
    by blast
  from process_success [OF w'] obtain t ir where
    t: "source_of (demo_orch \<lparr> tr_segments = [] \<rparr>) demo_job (InputTranscript (Some (lit ''Sync'')) \<lparr> tr_segments = [] \<rparr>) t"
    and v: "sv_transcript (view (demo_orch \<lparr> tr_segments = [] \<rparr>) w') (MeetingId (lit ''m1''))
        = reread (sj_transcript (or_json (demo_orch \<lparr> tr_segments = [] \<rparr>))) t"
      "sv_mom (view (demo_orch \<lparr> tr_segments = [] \<rparr>) w') (MeetingId (lit ''m1''))
        = Inr (Some (render_with_title ir (lit ''Sync'')))"
    by (force simp: fun_upd_same)
  have "sj_transcript (or_json (demo_orch \<lparr> tr_segments = [] \<rparr>)) = single_codec \<lparr> tr_segments = [] \<rparr>"
    by (simp add: demo_orch_def demo_pipeline_json_def)
  then show ?thesis using w' t v by (auto simp: source_of_def)
qed

text \<open>C1. Functional correctness of processing, whatever runs beside it: when it succeeds with a meeting, and
  the others leave some meetings and the job's link alone, then of those meetings the store answers for
  the new one its record with the participants of the analysis, the source transcript, a validated
  Meeting IR and the minutes rendered from exactly that IR and title - each as its stored text reads
  back - and for every other one what it answered before.\<close>

theorem interleaved_success:
  assumes "runs (kept M orch i) (process_thread orch i input) w (Inr m) w'"
  shows "\<exists>now t ir x. source_of orch i input t \<and> validate ir = Inr ()
    \<and> same_on M ((view orch w)\<lparr>
        sv_meeting := (sv_meeting (view orch w))(m := reread (sj_meeting (or_json orch))
          ((meeting_new m now (input_title input))\<lparr> mt_participants := ir_participants ir \<rparr>)),
        sv_transcript := (sv_transcript (view orch w))(m := reread (sj_transcript (or_json orch)) t),
        sv_ir := (sv_ir (view orch w))(m := reread (sj_ir (or_json orch)) ir),
        sv_mom := (sv_mom (view orch w))(m := Inr (Some (render_with_title ir (input_title input)))),
        sv_status := (sv_status (view orch w))(m := x) \<rparr>) (view orch w')"
proof -
  from process_sees [OF assms] obtain s s' where
    "process_left orch i input (view orch w, job_meeting i w) (Inr m) s" "finalized (Inr m) s s'"
    and "same_on M (fst s') (view orch w')"
    unfolding sees_def by blast
  from success_left [OF this(1,2)] this(3) show ?thesis by metis
qed

text \<open>Before its first step another job saves the minutes of another meeting.\<close>

theorem interleaved_success_witness:
  "\<exists>w' ir. runs (kept {MeetingId (lit ''m1'')} (demo_orch \<lparr> tr_segments = [] \<rparr>) demo_job)
       (process_thread (demo_orch \<lparr> tr_segments = [] \<rparr>) demo_job (InputTranscript (Some (lit ''Sync'')) \<lparr> tr_segments = [] \<rparr>))
       demo_world (Inr (MeetingId (lit ''m1''))) w'
     \<and> sv_mom (view (demo_orch \<lparr> tr_segments = [] \<rparr>) demo_world) (MeetingId (lit ''m2'')) = Inr None
     \<and> sv_mom (view (demo_orch \<lparr> tr_segments = [] \<rparr>) w') (MeetingId (lit ''m2'')) = Inr (Some (lit ''aside''))
     \<and> sv_transcript (view (demo_orch \<lparr> tr_segments = [] \<rparr>) w') (MeetingId (lit ''m1'')) = Inr (Some \<lparr> tr_segments = [] \<rparr>)
     \<and> sv_mom (view (demo_orch \<lparr> tr_segments = [] \<rparr>) w') (MeetingId (lit ''m1'')) = Inr (Some (render_with_title ir (lit ''Sync'')))"
proof -
  let ?o = "demo_orch \<lparr> tr_segments = [] \<rparr>" and ?m = "MeetingId (lit ''m1'')" and ?m2 = "MeetingId (lit ''m2'')"
  obtain w' where w': "process ?o demo_job (InputTranscript (Some (lit ''Sync'')) \<lparr> tr_segments = [] \<rparr>) demo_beside = (Inr ?m, w')"
    using demo_process_on unfolding demo_beside_def by blast
  note run = demo_run_beside [OF w']
  from interleaved_success [OF run] obtain t ir where
    t: "source_of (demo_orch \<lparr> tr_segments = [] \<rparr>) demo_job (InputTranscript (Some (lit ''Sync'')) \<lparr> tr_segments = [] \<rparr>) t"
    and v: "sv_transcript (view ?o w') ?m = reread (sj_transcript (or_json ?o)) t"
      "sv_mom (view ?o w') ?m = Inr (Some (render_with_title ir (lit ''Sync'')))"
    by (force simp: same_on_def)
  have "sj_transcript (or_json ?o) = single_codec \<lparr> tr_segments = [] \<rparr>"
    by (simp add: demo_orch_def demo_pipeline_json_def)
  then have "sv_transcript (view ?o w') ?m = Inr (Some \<lparr> tr_segments = [] \<rparr>)" using t v by (simp add: source_of_def)
  moreover have "?m2 \<noteq> ?m" by (simp add: lit_def)
  then have "sv_mom (view ?o w') ?m2 = Inr (Some (lit ''aside''))"
    using process_success [OF w'] by (auto simp: demo_beside_view)
  moreover have "sv_mom (view ?o demo_world) ?m2 = Inr None"
    by (simp add: demo_world_def view_store_def get_mom_def get_artifact_def with_conn_def artifacts_get_def store_op_defs db_empty_def)
  ultimately show ?thesis using run v(2) by blast
qed

text \<open>The capture survives a failing analysis: when processing ends with an AI error - the LLM
  unreachable, unparsable replies, an IR that does not validate - the meeting record and the source
  transcript are in the store, and the job is linked to the meeting so that it can be retried.\<close>

theorem process_source_safe:
  assumes "process orch i input w = (Inl (PipeAi e), w')"
  shows "\<exists>m now t. source_of orch i input t
    \<and> sv_meeting (view orch w') = (sv_meeting (view orch w))(m := reread (sj_meeting (or_json orch)) (meeting_new m now (input_title input)))
    \<and> sv_transcript (view orch w') = (sv_transcript (view orch w))(m := reread (sj_transcript (or_json orch)) t)
    \<and> job_meeting i w' = map_option (\<lambda>_. Some m) (job_meeting i w)"
proof -
  from process_sees [OF process_alone [OF assms], of UNIV] obtain s s' where
    "process_left orch i input (view orch w, job_meeting i w) (Inl (PipeAi e)) s" "finalized (Inl (PipeAi e)) s s'"
    and "fst s' = view orch w'" "snd s' = job_meeting i w'"
    unfolding sees_def same_on_UNIV by metis
  from interrupted_left [OF this(1,2)] this(3,4) show ?thesis by metis
qed

theorem process_source_safe_witness:
  "\<exists>w' m. process (demo_orch demo_talk) demo_job (InputTranscript (Some (lit ''Sync'')) demo_talk) demo_world
       = (Inl (PipeAi (AiLlm (LlmTransport []))), w')
     \<and> sv_transcript (view (demo_orch demo_talk) w') m = Inr (Some demo_talk)"
proof -
  from demo_process_fails obtain w' where
    w': "process (demo_orch demo_talk) demo_job (InputTranscript (Some (lit ''Sync'')) demo_talk) demo_world
      = (Inl (PipeAi (AiLlm (LlmTransport []))), w')" by blast
  from process_source_safe [OF w'] obtain m t where
    t: "source_of (demo_orch demo_talk) demo_job (InputTranscript (Some (lit ''Sync'')) demo_talk) t"
    and v: "sv_transcript (view (demo_orch demo_talk) w') m = reread (sj_transcript (or_json (demo_orch demo_talk))) t"
    by (metis fun_upd_same)
  have "sj_transcript (or_json (demo_orch demo_talk)) = single_codec demo_talk"
    by (simp add: demo_orch_def demo_pipeline_json_def)
  then show ?thesis using w' t v by (intro exI [of _ w'] exI [of _ m]) (simp add: source_of_def)
qed

text \<open>C2. The capture survives a failing analysis, whatever runs beside it: when processing ends with an AI
  error - the LLM unreachable, unparsable replies, an IR that does not validate - and the others leave some
  meetings and the job's link alone, the job is linked to a meeting so that it can be retried, whose record
  and source transcript are in the store if it is one of those, and no other record or transcript of them
  has changed.\<close>

theorem interleaved_source_safe:
  assumes "runs (kept M orch i) (process_thread orch i input) w (Inl (PipeAi e)) w'"
  shows "\<exists>m now t. source_of orch i input t \<and> job_meeting i w' = map_option (\<lambda>_. Some m) (job_meeting i w)
    \<and> (\<forall>k \<in> M.
        sv_meeting (view orch w') k
          = (if k = m then reread (sj_meeting (or_json orch)) (meeting_new m now (input_title input))
             else sv_meeting (view orch w) k)
      \<and> sv_transcript (view orch w') k
          = (if k = m then reread (sj_transcript (or_json orch)) t else sv_transcript (view orch w) k))"
proof -
  from process_sees [OF assms] obtain s s' where
    "process_left orch i input (view orch w, job_meeting i w) (Inl (PipeAi e)) s" "finalized (Inl (PipeAi e)) s s'"
    and s': "same_on M (fst s') (view orch w')" "snd s' = job_meeting i w'"
    unfolding sees_def by metis
  from interrupted_left [OF this(1,2)] obtain m now t where "source_of orch i input t"
    "sv_meeting (fst s') = (sv_meeting (view orch w))(m := reread (sj_meeting (or_json orch)) (meeting_new m now (input_title input)))"
    "sv_transcript (fst s') = (sv_transcript (view orch w))(m := reread (sj_transcript (or_json orch)) t)"
    "snd s' = map_option (\<lambda>_. Some m) (job_meeting i w)" by blast
  with s' show ?thesis
    by (intro exI [of _ m] exI [of _ now] exI [of _ t]) (simp add: same_on_def)
qed

text \<open>A recording, whose speech provider returns a talk, beside another job that saves its minutes; the LLM is down.\<close>

theorem interleaved_source_safe_witness:
  "\<exists>w' m. runs (kept {MeetingId (lit ''m1'')} demo_recorder demo_job)
       (process_thread demo_recorder demo_job (InputAudio (Some (lit ''Sync'')) (lit ''talk.mp4'')))
       demo_world (Inl (PipeAi (AiLlm (LlmTransport [])))) w'
     \<and> job_meeting demo_job w' = Some (Some m)
     \<and> (m = MeetingId (lit ''m1'') \<longrightarrow> sv_transcript (view demo_recorder w') m = Inr (Some demo_talk))"
proof -
  obtain w' where "process demo_recorder demo_job (InputAudio (Some (lit ''Sync'')) (lit ''talk.mp4'')) demo_beside
      = (Inl (PipeAi (AiLlm (LlmTransport []))), w')"
    using demo_record_fails_on unfolding demo_beside_def by blast
  note run = demo_record_beside [OF this]
  from interleaved_source_safe [OF run] obtain m t where
    t: "source_of demo_recorder demo_job (InputAudio (Some (lit ''Sync'')) (lit ''talk.mp4'')) t"
    and j: "job_meeting demo_job w' = map_option (\<lambda>_. Some m) (job_meeting demo_job demo_world)"
    and v: "m = MeetingId (lit ''m1'') \<Longrightarrow> sv_transcript (view demo_recorder w') m = reread (sj_transcript (or_json demo_recorder)) t"
    by (metis singletonI)
  have "sj_transcript (or_json demo_recorder) = single_codec demo_talk"
    by (simp add: demo_recorder_def demo_orch_def demo_pipeline_json_def)
  moreover have "t = demo_talk"
    using t by (simp add: source_of_def transcribed_def demo_recorder_def okE_def)
  moreover have "job_meeting demo_job demo_world = Some None"
    by (simp add: job_meeting_def demo_world_def registry_create_def registry_get_def Let_def job_new_def)
  ultimately show ?thesis using run j v by (intro exI [of _ w'] exI [of _ m]) simp
qed

section \<open>Retry\<close>

definition same_elsewhere :: "meeting_id \<Rightarrow> store_view \<Rightarrow> store_view \<Rightarrow> bool" where
  "same_elsewhere m v v' \<longleftrightarrow> (\<forall>j. j \<noteq> m \<longrightarrow> sv_meeting v' j = sv_meeting v j
     \<and> sv_transcript v' j = sv_transcript v j \<and> sv_ir v' j = sv_ir v j \<and> sv_mom v' j = sv_mom v j
     \<and> sv_status v' j = sv_status v j)"

lemma same_elsewhere_on: "same_elsewhere m v v' \<longleftrightarrow> same_on (- {m}) v v'"
  by (auto simp: same_elsewhere_def same_on_def)

lemma db_ok_meeting_id:
  assumes "db_ok js d" "sv_meeting (view_store js d) m = Inr (Some mt)"
  shows "mt_id mt = m"
proof -
  from assms(2) obtain row where row: "map_of (sd_meetings d) (meeting_id_str m) = Some row"
    and dec: "dec (sj_meeting js) (mr_data row) = Inr mt"
    by (cases "dec (sj_meeting js) (mr_data (the (map_of (sd_meetings d) (meeting_id_str m))))")
      (auto simp: view_store_eq read_row_def meetings_get_def split: option.splits)
  have "row_ok js (meeting_id_str m, row)" using assms(1) map_of_SomeD [OF row] by (auto simp: db_ok_def)
  then show ?thesis using dec by (cases m) (auto simp: row_ok_def)
qed


definition rerun_left :: "'s orchestrator \<Rightarrow> meeting_id \<Rightarrow> obs \<Rightarrow> pipeline_error + meeting_id \<Rightarrow> obs \<Rightarrow> bool" where
  "rerun_left orch m s r s' \<longleftrightarrow> snd s' = map_option (\<lambda>_. Some m) (snd s) \<and> (case r of
     Inr m' \<Rightarrow> \<exists>mt x ir. m' = mt_id mt \<and> sv_meeting (fst s) m = Inr (Some mt) \<and> validate ir = Inr ()
       \<and> fst s' = enriched (or_json orch) mt ir (with_status m x (fst s))
   | Inl e \<Rightarrow> fst s' = fst s \<or> (\<exists>mt x. sv_meeting (fst s) m = Inr (Some mt)
       \<and> partly_enriched (mt_id mt) (with_status m x (fst s)) (fst s')))"

lemma reprocess_sees:
  assumes "m \<in> M" "runs (kept M orch i) (reprocess_thread orch i m) w r w'"
  shows "\<exists>s s'. rerun_left orch m (view orch w, job_meeting i w) r s \<and> finalized r s s' \<and> sees M orch i s' w'"
proof (rule then_finalize_sees [OF rerun_triple [OF assms(1)] _ _ assms(2) [unfolded reprocess_thread_def] sees_now])
  show "\<exists>s. sees M orch i s u \<and> rerun_left orch m (view orch w, job_meeting i w) (Inr x) s"
    if "rerun_done M orch i m (view orch w, job_meeting i w) x u" for x u
    using that unfolding rerun_done_def rerun_left_def by (simp del: split_paired_Ex) (metis fst_conv snd_conv)
  show "\<exists>s. sees M orch i s u \<and> rerun_left orch m (view orch w, job_meeting i w) (Inl e) s"
    if "rerun_interrupted M orch i m (view orch w, job_meeting i w) u" for e u
    using that unfolding rerun_interrupted_def rerun_left_def by (simp del: split_paired_Ex) (metis fst_conv snd_conv)
qed

text \<open>The store after a retry.\<close>

lemma retry_left:
  assumes ids: "\<And>mt. sv_meeting v m = Inr (Some mt) \<Longrightarrow> mt_id mt = m"
    and left: "rerun_left orch m (v, jm) r s" "finalized r s s'"
  shows "sv_transcript (fst s') = sv_transcript v \<and> same_elsewhere m v (fst s')
    \<and> (case r of
         Inr m' \<Rightarrow> m' = m \<and> (\<exists>mt ir. validate ir = Inr () \<and> sv_meeting v m = Inr (Some mt)
           \<and> sv_meeting (fst s') m = reread (sj_meeting (or_json orch)) (mt\<lparr> mt_participants := ir_participants ir \<rparr>)
           \<and> sv_ir (fst s') m = reread (sj_ir (or_json orch)) ir
           \<and> sv_mom (fst s') m = Inr (Some (render_with_title ir (mt_title mt))))
       | Inl _ \<Rightarrow> sv_meeting (fst s') = sv_meeting v)"
proof (cases r)
  case (Inr m')
  from left(1) obtain mt x ir where mt: "m' = mt_id mt" "sv_meeting v m = Inr (Some mt)" "validate ir = Inr ()"
    and s: "fst s = enriched (or_json orch) mt ir (with_status m x v)"
    unfolding rerun_left_def Inr by auto
  have m: "mt_id mt = m" using ids mt(2) .
  from left(2) obtain y where "fst s' = with_status m y (enriched (or_json orch) mt ir (with_status m x v))"
    unfolding finalized_def Inr s [symmetric] using m mt(1) by auto
  then show ?thesis using m mt Inr
    by (auto simp: with_status_def enriched_def same_elsewhere_def)
next
  case (Inl e)
  from left(1) have jm: "snd s = map_option (\<lambda>_. Some m) jm" by (simp add: rerun_left_def)
  have "\<exists>x. partly_enriched m (with_status m x v) (fst s)"
  proof -
    from left(1) consider "fst s = v" | mt x where "sv_meeting v m = Inr (Some mt)" "partly_enriched (mt_id mt) (with_status m x v) (fst s)"
      unfolding rerun_left_def Inl by auto
    then show ?thesis
    proof cases
      case 1
      then show ?thesis using partly_enriched_refl [of m v] with_status_old [of m v] by metis
    next
      case 2
      then show ?thesis using ids by metis
    qed
  qed
  then obtain x where pe: "partly_enriched m (with_status m x v) (fst s)" by blast
  from left(2) jm have "\<exists>y. fst s' = with_status m y (fst s) \<or> fst s' = fst s"
    by (cases jm) (auto simp: finalized_def linked_def Inl)
  then show ?thesis using pe Inl
    by (auto simp: partly_enriched_def with_status_def same_elsewhere_def)
qed

text \<open>A retry works on the stored source and never captures again: whatever its outcome, every
  transcript is untouched, nothing of another meeting changes, and no meeting is created; on success
  the meeting's IR is validated, its minutes are rendered from it and only the participants of its
  record change; on failure no meeting record changes.\<close>

theorem reprocess_effect:
  assumes "db_ok (or_json orch) (wd_db w)" "reprocess orch i m w = (r, w')"
  shows "sv_transcript (view orch w') = sv_transcript (view orch w)
    \<and> same_elsewhere m (view orch w) (view orch w')
    \<and> (case r of
         Inr m' \<Rightarrow> m' = m \<and> (\<exists>mt ir. validate ir = Inr () \<and> sv_meeting (view orch w) m = Inr (Some mt)
           \<and> sv_meeting (view orch w') m = reread (sj_meeting (or_json orch)) (mt\<lparr> mt_participants := ir_participants ir \<rparr>)
           \<and> sv_ir (view orch w') m = reread (sj_ir (or_json orch)) ir
           \<and> sv_mom (view orch w') m = Inr (Some (render_with_title ir (mt_title mt))))
       | Inl _ \<Rightarrow> sv_meeting (view orch w') = sv_meeting (view orch w))"
proof -
  from reprocess_sees [OF UNIV_I reprocess_alone [OF assms(2)]] obtain s s' where
    left: "rerun_left orch m (view orch w, job_meeting i w) r s" "finalized r s s'" and eq: "view orch w' = fst s'"
    unfolding sees_def same_on_UNIV by metis
  from retry_left [OF db_ok_meeting_id [OF assms(1)] left] show ?thesis unfolding eq .
qed

lemma demo_reprocess:
  "\<exists>w'. reprocess (demo_orch demo_talk) demo_job (MeetingId (lit ''m9'')) demo_world
       = (Inl (PipeStorage (StorageBackend (lit ''cannot reprocess unknown meeting: '' @ lit ''m9''))), w')"
  by (simp add: reprocess_def then_finalize_def rerun_def pipe_eval demo_simps split_beta required_def
        get_meeting_def with_conn_def decodeE_def meetings_get_def db_empty_def)

theorem reprocess_effect_witness:
  "\<exists>w'. reprocess (demo_orch demo_talk) demo_job (MeetingId (lit ''m9'')) demo_world
       = (Inl (PipeStorage (StorageBackend (lit ''cannot reprocess unknown meeting: '' @ lit ''m9''))), w')
     \<and> sv_meeting (view (demo_orch demo_talk) w') = sv_meeting (view (demo_orch demo_talk) demo_world)"
proof -
  from demo_reprocess obtain w' where w': "reprocess (demo_orch demo_talk) demo_job (MeetingId (lit ''m9'')) demo_world
       = (Inl (PipeStorage (StorageBackend (lit ''cannot reprocess unknown meeting: '' @ lit ''m9''))), w')" by blast
  have "db_ok (or_json (demo_orch demo_talk)) (wd_db demo_world)"
    by (simp add: demo_world_def db_ok_empty)
  from reprocess_effect [OF this w'] w' show ?thesis by auto
qed

text \<open>C10. A retry works on the stored source and never captures again, whatever runs beside it: if the others
  leave some meetings, the retried one among them, and the job's link alone, then whatever its outcome
  every transcript of them is untouched and nothing of another one of them changes; on success the meeting's
  IR is validated, its minutes are rendered from it and only the participants of its record change; on
  failure no meeting record changes.\<close>

theorem interleaved_retry:
  assumes "db_ok (or_json orch) (wd_db w)" "m \<in> M" "runs (kept M orch i) (reprocess_thread orch i m) w r w'"
  shows "(\<forall>k \<in> M. sv_transcript (view orch w') k = sv_transcript (view orch w) k)
    \<and> same_on (M - {m}) (view orch w) (view orch w')
    \<and> (case r of
         Inr m' \<Rightarrow> m' = m \<and> (\<exists>mt ir. validate ir = Inr () \<and> sv_meeting (view orch w) m = Inr (Some mt)
           \<and> sv_meeting (view orch w') m = reread (sj_meeting (or_json orch)) (mt\<lparr> mt_participants := ir_participants ir \<rparr>)
           \<and> sv_ir (view orch w') m = reread (sj_ir (or_json orch)) ir
           \<and> sv_mom (view orch w') m = Inr (Some (render_with_title ir (mt_title mt))))
       | Inl _ \<Rightarrow> \<forall>k \<in> M. sv_meeting (view orch w') k = sv_meeting (view orch w) k)"
proof -
  from reprocess_sees [OF assms(2,3)] obtain s s' where
    left: "rerun_left orch m (view orch w, job_meeting i w) r s" "finalized r s s'"
    and same: "same_on M (fst s') (view orch w')"
    unfolding sees_def by metis
  from retry_left [OF db_ok_meeting_id [OF assms(1)] left] same assms(2) show ?thesis
    by (cases r) (auto simp: same_elsewhere_def same_on_def)
qed

theorem interleaved_retry_witness:
  "\<exists>w'. runs (kept {MeetingId (lit ''m9'')} (demo_orch demo_talk) demo_job)
       (reprocess_thread (demo_orch demo_talk) demo_job (MeetingId (lit ''m9''))) demo_world
       (Inl (PipeStorage (StorageBackend (lit ''cannot reprocess unknown meeting: '' @ lit ''m9'')))) w'
     \<and> sv_meeting (view (demo_orch demo_talk) w') (MeetingId (lit ''m9''))
         = sv_meeting (view (demo_orch demo_talk) demo_world) (MeetingId (lit ''m9''))"
proof -
  from demo_reprocess obtain w' where run: "runs (kept {MeetingId (lit ''m9'')} (demo_orch demo_talk) demo_job)
       (reprocess_thread (demo_orch demo_talk) demo_job (MeetingId (lit ''m9''))) demo_world
       (Inl (PipeStorage (StorageBackend (lit ''cannot reprocess unknown meeting: '' @ lit ''m9'')))) w'"
    using reprocess_alone by blast
  have "db_ok (or_json (demo_orch demo_talk)) (wd_db demo_world)"
    by (simp add: demo_world_def db_ok_empty)
  from interleaved_retry [OF this singletonI run] run show ?thesis by auto
qed

section \<open>The job's entry\<close>

text \<open>
  What a pipeline does to the registry: it only updates its own job and reads its cancellation flag. A
  relation that these two operations keep relates the registry before and after the pipeline.
\<close>

definition job_framed :: "(registry \<Rightarrow> registry \<Rightarrow> bool) \<Rightarrow> ('s, 'a) job_thread \<Rightarrow> bool" where
  "job_framed R p \<longleftrightarrow> steps_in (\<lambda>w w'. R (wd_jobs w) (wd_jobs w')) p"

lemma persist_status_jobs: "wd_jobs (snd (persist_status orch m f w)) = wd_jobs w"
  by (simp add: persist_status_def call_store_def split: prod.splits)

lemma persist_if_known_jobs: "wd_jobs (snd (persist_if_known orch m f w)) = wd_jobs w"
  by (simp add: persist_if_known_def persist_status_jobs okE_def split: option.split)

locale job_frame =
  fixes orch :: "'s orchestrator" and k :: job_id and R :: "registry \<Rightarrow> registry \<Rightarrow> bool"
  assumes frame_refl: "R r r" and frame_trans: "R r s \<Longrightarrow> R s t \<Longrightarrow> R r t"
    and frame_update: "(\<And>j. jb_id (f j) = jb_id j) \<Longrightarrow> R r (registry_update \<lparr> jw_now = en_now (or_env orch) n,
          jw_fails = en_job_write_fails (or_env orch) n \<rparr> k f r)"
    and frame_cancel: "R r (snd (request_cancel k r))"

sublocale job_frame \<subseteq> frame: thread_frame orch k "\<lambda>w w'. R (wd_jobs w) (wd_jobs w')"
  by unfold_locales
    (simp_all add: frame_refl frame_update frame_cancel emit_def doE_def job_update_def check_cancel_def Let_def)

context job_frame
begin

lemma run_thread: "job_framed R (run_thread orch k input)"
  unfolding job_framed_def by (rule frame.run_thread)

lemma rerun_thread: "job_framed R (rerun_thread orch k m)"
  unfolding job_framed_def by (rule frame.rerun_thread)

lemma process_thread: "job_framed R (process_thread orch k input)"
  unfolding job_framed_def by (rule frame.process_thread)

lemma reprocess_thread: "job_framed R (reprocess_thread orch k m)"
  unfolding job_framed_def by (rule frame.reprocess_thread)

text \<open>Run alone, from start to end.\<close>

lemma framed_alone: "job_framed R p \<Longrightarrow> R (wd_jobs w) (wd_jobs (snd (alone p w)))"
  unfolding job_framed_def by (erule steps_in_alone [rotated 2]) (auto intro: frame_refl frame_trans)

lemma run: "R (wd_jobs w) (wd_jobs (snd (run orch k input w)))"
  using framed_alone [OF run_thread] by simp

lemma process: "R (wd_jobs w) (wd_jobs (snd (process orch k input w)))"
  using framed_alone [OF process_thread] by (simp add: alone_jobs)

lemma reprocess: "R (wd_jobs w) (wd_jobs (snd (reprocess orch k m w)))"
  using framed_alone [OF reprocess_thread] by (simp add: alone_jobs)

end

text \<open>An entry that is there stays, and the entries of other jobs are left alone.\<close>

interpretation entry_kept: job_frame orch k "\<lambda>r s. registry_get i r \<noteq> None \<longrightarrow> registry_get i s \<noteq> None" for orch i k
  by unfold_locales (auto simp: registry_get_update registry_get_cancel)

interpretation others_kept: job_frame orch k "\<lambda>r s. \<forall>i. i \<noteq> k \<longrightarrow> registry_get i s = registry_get i r" for orch k
  by unfold_locales (auto simp: registry_get_update registry_get_cancel)

definition final_status :: "pipeline_error + meeting_id \<Rightarrow> job_status" where
  "final_status r = (case r of Inr _ \<Rightarrow> Completed | Inl PipeCancelled \<Rightarrow> Cancelled | Inl _ \<Rightarrow> JobFailedStatus)"

lemma final_status_terminal: "is_terminal (final_status r)"
  by (simp add: final_status_def is_terminal_def split: sum.splits pipeline_error.splits)

text \<open>The status a job's outcome gives its meeting.\<close>

definition outcome_status :: "pipeline_error + meeting_id \<Rightarrow> timestamp \<Rightarrow> processing_status" where
  "outcome_status r now = (case r of Inr _ \<Rightarrow> status_ready now
     | Inl PipeCancelled \<Rightarrow> status_deferred now (lit ''cancelled'')
     | Inl e \<Rightarrow> failure_status e now)"

definition outcome_job :: "pipeline_error + meeting_id \<Rightarrow> job \<Rightarrow> job" where
  "outcome_job r j = (case r of Inr m \<Rightarrow> j\<lparr> jb_status := Completed, jb_stage := Done, jb_meeting_id := Some m \<rparr>
     | Inl PipeCancelled \<Rightarrow> j\<lparr> jb_status := Cancelled \<rparr>
     | Inl e \<Rightarrow> j\<lparr> jb_status := JobFailedStatus, jb_error := Some (pipeline_error_display e) \<rparr>)"

lemma outcome_job_ends:
  "is_terminal (jb_status (outcome_job r j)) \<and> jb_status (outcome_job r j) = final_status r
    \<and> (case r of Inr m \<Rightarrow> jb_meeting_id (outcome_job r j) = Some m \<and> jb_stage (outcome_job r j) = Done
       | Inl e \<Rightarrow> e = PipeCancelled \<or> jb_error (outcome_job r j) = Some (pipeline_error_display e))"
proof -
  have "jb_status (outcome_job r j) = final_status r"
    by (auto simp: outcome_job_def final_status_def split: sum.splits pipeline_error.splits)
  moreover have "case r of Inr m \<Rightarrow> jb_meeting_id (outcome_job r j) = Some m \<and> jb_stage (outcome_job r j) = Done
       | Inl e \<Rightarrow> e = PipeCancelled \<or> jb_error (outcome_job r j) = Some (pipeline_error_display e)"
    by (auto simp: outcome_job_def split: sum.splits pipeline_error.splits)
  ultimately show ?thesis using final_status_terminal [of r] by simp
qed

lemma finalize_steps:
  "finalize orch i r w = bindE (job_update (or_env orch) i (outcome_job r)) (\<lambda>_.
     bindE (persist_if_known orch (case r of Inr m \<Rightarrow> Some m
         | Inl _ \<Rightarrow> Option.bind (registry_get i (wd_jobs w)) jb_meeting_id) (outcome_status r)) (\<lambda>_.
     emit (finalize_event i r))) w"
proof -
  have o: "(\<lambda>j. outcome_job r j) = outcome_job r" "(\<lambda>now. outcome_status r now) = outcome_status r" by auto
  show ?thesis
  proof (cases r)
    case (Inr m)
    have "outcome_job r = (\<lambda>j. j\<lparr> jb_status := Completed, jb_stage := Done, jb_meeting_id := Some m \<rparr>)"
      "outcome_status r = status_ready"
      by (auto simp: Inr outcome_job_def outcome_status_def fun_eq_iff)
    then show ?thesis by (simp add: Inr finalize_def bindE_def readE_def persist_if_known_def finalize_event_def)
  next
    case (Inl e)
    show ?thesis
    proof (cases e)
      case PipeCancelled
      have "outcome_job r = (\<lambda>j. j\<lparr> jb_status := Cancelled \<rparr>)"
        "outcome_status r = (\<lambda>now. status_deferred now (lit ''cancelled''))"
        by (auto simp: Inl PipeCancelled outcome_job_def outcome_status_def fun_eq_iff)
      then show ?thesis
        by (simp add: Inl PipeCancelled finalize_def bindE_def readE_def finalize_event_def)
    qed (auto simp: Inl outcome_job_def [abs_def] outcome_status_def [abs_def] finalize_def bindE_def readE_def
        finalize_event_def)
  qed
qed

lemma finalize_jobs:
  "registry_get i (wd_jobs (snd (finalize orch i r w))) = map_option (outcome_job r) (registry_get i (wd_jobs w))"
  by (auto simp: finalize_steps bindE_def job_update_def doE_def emit_def registry_get_update
      persist_if_known_def okE_def persist_status_def call_store_def split: option.splits prod.splits)

text \<open>Every job ends in a terminal state that agrees with its result: completed with its meeting,
  cancelled, or failed with the error's message - whatever the pipeline did before and whether or not
  the job table can be written.\<close>

theorem job_ends_terminal:
  assumes "registry_get i (wd_jobs w) \<noteq> None" "process orch i input w = (r, w')"
  shows "\<exists>j. registry_get i (wd_jobs w') = Some j \<and> is_terminal (jb_status j) \<and> jb_status j = final_status r
    \<and> (case r of Inr m \<Rightarrow> jb_meeting_id j = Some m \<and> jb_stage j = Done
       | Inl e \<Rightarrow> e = PipeCancelled \<or> jb_error j = Some (pipeline_error_display e))"
proof -
  obtain result w1 where run: "run orch i input w = (result, w1)" by (cases "run orch i input w")
  have "registry_get i (wd_jobs w1) \<noteq> None"
    using entry_kept.run [where orch = orch and i = i and k = i and input = input and w = w] assms(1) run by simp
  then obtain j where j: "registry_get i (wd_jobs w1) = Some j" by blast
  have "r = result" "w' = snd (finalize orch i result w1)"
    using assms(2) run by (auto simp: process_def then_finalize_def split_beta)
  then have "registry_get i (wd_jobs w') = Some (outcome_job r j)"
    using j by (simp add: finalize_jobs)
  then show ?thesis using outcome_job_ends [of r j] by blast
qed

theorem job_ends_terminal_witness:
  "\<exists>w' j. process (demo_orch demo_talk) demo_job (InputTranscript (Some (lit ''Sync'')) demo_talk) demo_world
       = (Inl (PipeAi (AiLlm (LlmTransport []))), w')
     \<and> registry_get demo_job (wd_jobs w') = Some j \<and> jb_status j = JobFailedStatus"
proof -
  from demo_process_fails obtain w' where
    w': "process (demo_orch demo_talk) demo_job (InputTranscript (Some (lit ''Sync'')) demo_talk) demo_world
      = (Inl (PipeAi (AiLlm (LlmTransport []))), w')" by blast
  have "registry_get demo_job (wd_jobs demo_world) \<noteq> None"
    by (simp add: demo_world_def registry_create_def registry_get_def Let_def)
  from job_ends_terminal [OF this w'] w' show ?thesis
    by (auto simp: final_status_def)
qed

text \<open>The same while other jobs run: they have entries of their own.\<close>

definition same_entry :: "job_id \<Rightarrow> 's world \<Rightarrow> 's world \<Rightarrow> bool" where
  "same_entry i w w' \<longleftrightarrow> registry_get i (wd_jobs w') = registry_get i (wd_jobs w)"

lemma same_entry_others:
  assumes "k \<noteq> i"
  shows "steps_in (same_entry i) (process_thread orch k input)" "steps_in (same_entry i) (reprocess_thread orch k m)"
  by (rule steps_in_mono [OF others_kept.process_thread [unfolded job_framed_def]], use assms in \<open>simp add: same_entry_def\<close>)
    (rule steps_in_mono [OF others_kept.reprocess_thread [unfolded job_framed_def]], use assms in \<open>simp add: same_entry_def\<close>)

lemma finalize_entry:
  "outR (same_entry i) (\<lambda>w. registry_get i (wd_jobs w) \<noteq> None) (finalize_thread orch i r)
     (\<lambda>_ w. \<exists>j. registry_get i (wd_jobs w) = Some (outcome_job r j)) (\<lambda>_ _. True)"
    (is "outR ?R ?P _ (\<lambda>_. ?Q r) ?E")
proof -
  have quiet: "outR ?R (?Q r) p (\<lambda>_. ?Q r) ?E" if "steps_in ?R p" for r and p :: "('a, 'b) job_thread"
    by (rule outR_conseq [OF outR_kept [where R = ?R and P = "?Q r", OF _ _ _ that]]) (auto simp: same_entry_def)
  have set: "outR ?R ?P (bindT (atom (job_update en i f)) (\<lambda>_. p)) (\<lambda>_. ?Q r) ?E"
    if "\<And>j. f j = outcome_job r j" "steps_in ?R p" for en f r and p :: "('a, unit) job_thread"
  proof (rule outR_bind [OF _ quiet [OF that(2)]])
    show "outR ?R ?P (atom (job_update en i f)) (\<lambda>_. ?Q r) ?E"
      unfolding job_update_def
      by (rule outR_atom, simp add: same_entry_def, rule outE_doE) (auto simp: registry_get_update that(1))
  qed
  have steps: "steps_in ?R (bindT (atom (persist_status orch m f)) (\<lambda>_. atom (emit ev)))"
    "steps_in ?R (bindT (atom (persist_if_known orch mo f)) (\<lambda>_. atom (emit ev)))" for m mo f ev
    by (intro steps_in_bind; simp add: steps_in_atom same_entry_def persist_status_jobs persist_if_known_jobs
        emit_def doE_def)+
  have read: "outR ?R ?P (atom (readE g)) (\<lambda>_. ?P) ?E" for g :: "'a world \<Rightarrow> meeting_id option"
    by (rule outR_atom, simp add: same_entry_def, rule outE_readE)
  show ?thesis unfolding finalize_thread_def
  proof (rule outR_bind [OF read])
    fix x
    note failed = set [OF _ steps(2)]
    show "outR ?R ?P (case r of
         Inr m \<Rightarrow>
           bindT (atom (job_update (or_env orch) i (\<lambda>j. j\<lparr> jb_status := Completed, jb_stage := Done,
             jb_meeting_id := Some m \<rparr>))) (\<lambda>_.
           bindT (atom (persist_status orch m status_ready)) (\<lambda>_. atom (emit (EvJobCompleted i m))))
       | Inl PipeCancelled \<Rightarrow>
           bindT (atom (job_update (or_env orch) i (\<lambda>j. j\<lparr> jb_status := Cancelled \<rparr>))) (\<lambda>_.
           bindT (atom (persist_if_known orch x (\<lambda>now. status_deferred now (lit ''cancelled'')))) (\<lambda>_.
           atom (emit (EvJobFailed i (lit ''cancelled'')))))
       | Inl err \<Rightarrow>
           bindT (atom (job_update (or_env orch) i (\<lambda>j. j\<lparr> jb_status := JobFailedStatus,
             jb_error := Some (pipeline_error_display err) \<rparr>))) (\<lambda>_.
           bindT (atom (persist_if_known orch x (failure_status err))) (\<lambda>_.
           atom (emit (EvJobFailed i (pipeline_error_display err)))))) (\<lambda>_. ?Q r) ?E"
    proof (cases r)
      case (Inr m)
      show ?thesis unfolding Inr sum.case by (rule set [OF _ steps(1)]) (simp add: outcome_job_def)
    next
      case (Inl e)
      show ?thesis unfolding Inl sum.case
        by (cases e; simp only: pipeline_error.case; rule failed; simp add: outcome_job_def)
    qed
  qed
qed

lemma then_finalize_entry:
  assumes "runs (same_entry i) (then_finalize_thread orch i p) w r w'" "registry_get i (wd_jobs w) \<noteq> None"
    and "job_framed (\<lambda>r s. registry_get i r \<noteq> None \<longrightarrow> registry_get i s \<noteq> None) p"
  shows "\<exists>j. registry_get i (wd_jobs w') = Some j \<and> is_terminal (jb_status j) \<and> jb_status j = final_status r
    \<and> (case r of Inr m \<Rightarrow> jb_meeting_id j = Some m \<and> jb_stage j = Done
       | Inl e \<Rightarrow> e = PipeCancelled \<or> jb_error j = Some (pipeline_error_display e))"
proof -
  from assms(1) obtain u w1 where 1: "runs (same_entry i) p w r w1"
    and 2: "runs (same_entry i) (finalize_thread orch i r) w1 u w'"
    unfolding then_finalize_thread_def runs_then by auto
  let ?R = "\<lambda>w w'. registry_get i (wd_jobs w) \<noteq> None \<longrightarrow> registry_get i (wd_jobs w') \<noteq> None"
  have "runs ?R p w r w1" using 1 by (rule runs_mono) (simp add: same_entry_def)
  from runs_kept [OF _ _ this assms(3) [unfolded job_framed_def]] assms(2)
  have "registry_get i (wd_jobs w1) \<noteq> None" by blast
  moreover have "u = Inr ()" using finalize_ends 2 unfolding ends_in_def by blast
  ultimately obtain j where "registry_get i (wd_jobs w') = Some (outcome_job r j)"
    using outR_D [OF finalize_entry _ 2] by auto
  then show ?thesis using outcome_job_ends [of r j] by blast
qed

text \<open>C11. Every job ends in a terminal state that agrees with its result - completed with its meeting,
  cancelled, or failed with the error's message - whatever the pipeline did before, whether or not the
  job table can be written, and whatever other jobs do in between: their steps never touch its entry,
  from whatever state they are made.\<close>

theorem interleaved_job_ends:
  assumes "registry_get i (wd_jobs w) \<noteq> None"
    and "runs (same_entry i) (process_thread orch i input) w r w' \<or> runs (same_entry i) (reprocess_thread orch i m) w r w'"
  shows "(\<exists>j. registry_get i (wd_jobs w') = Some j \<and> is_terminal (jb_status j) \<and> jb_status j = final_status r
      \<and> (case r of Inr m \<Rightarrow> jb_meeting_id j = Some m \<and> jb_stage j = Done
         | Inl e \<Rightarrow> e = PipeCancelled \<or> jb_error j = Some (pipeline_error_display e)))
    \<and> (\<forall>k other m'. k \<noteq> i \<longrightarrow> steps_in (same_entry i) (process_thread orch k other)
         \<and> steps_in (same_entry i) (reprocess_thread orch k m'))"
proof
  show "\<exists>j. registry_get i (wd_jobs w') = Some j \<and> is_terminal (jb_status j) \<and> jb_status j = final_status r
      \<and> (case r of Inr m \<Rightarrow> jb_meeting_id j = Some m \<and> jb_stage j = Done
         | Inl e \<Rightarrow> e = PipeCancelled \<or> jb_error j = Some (pipeline_error_display e))"
    using assms(2) unfolding process_thread_def reprocess_thread_def
  proof
    assume "runs (same_entry i) (then_finalize_thread orch i (run_thread orch i input)) w r w'"
    from then_finalize_entry [OF this assms(1) entry_kept.run_thread] show ?thesis .
  next
    assume "runs (same_entry i) (then_finalize_thread orch i (rerun_thread orch i m)) w r w'"
    from then_finalize_entry [OF this assms(1) entry_kept.rerun_thread] show ?thesis .
  qed
  show "\<forall>k other m'. k \<noteq> i \<longrightarrow> steps_in (same_entry i) (process_thread orch k other)
      \<and> steps_in (same_entry i) (reprocess_thread orch k m')"
    by (simp add: same_entry_others)
qed

theorem interleaved_job_ends_witness:
  "\<exists>w' j. runs (same_entry demo_job) (process_thread (demo_orch demo_talk) demo_job
         (InputTranscript (Some (lit ''Sync'')) demo_talk)) demo_world (Inl (PipeAi (AiLlm (LlmTransport [])))) w'
     \<and> registry_get demo_job (wd_jobs w') = Some j \<and> jb_status j = JobFailedStatus"
proof -
  from demo_process_fails process_alone obtain w' where
    w': "runs (same_entry demo_job) (process_thread (demo_orch demo_talk) demo_job
         (InputTranscript (Some (lit ''Sync'')) demo_talk)) demo_world (Inl (PipeAi (AiLlm (LlmTransport [])))) w'" by blast
  have "registry_get demo_job (wd_jobs demo_world) \<noteq> None"
    by (simp add: demo_world_def registry_create_def registry_get_def Let_def)
  from interleaved_job_ends [OF this disjI1 [OF w']] w' show ?thesis
    by (auto simp: final_status_def)
qed

text \<open>C12. The durable outcome: when the status write succeeds, the meeting's status after the job is
  ready on success, deferred (retryable) when it was cancelled or when media, speech or AI failed,
  and failed (not retryable) exactly for a storage error, stamped with the time of the write.\<close>

theorem finalize_status:
  assumes "codec_ok (sj_status (or_json orch))"
    and "enc (sj_status (or_json orch)) (outcome_status r (en_now (or_env orch) (Suc (wd_tick w)))) = Inr json"
    and "en_db_fault (or_env orch) (Suc (wd_tick w)) = None"
    and "case r of Inr m' \<Rightarrow> m' = m | Inl _ \<Rightarrow> job_meeting i w = Some (Some m)"
  shows "sv_status (view orch (snd (finalize orch i r w))) m
      = Inr (Some (outcome_status r (en_now (or_env orch) (Suc (wd_tick w)))))
    \<and> (is_retryable (outcome_status r now) \<longleftrightarrow> (\<exists>e. r = Inl e \<and> (\<forall>se. e \<noteq> PipeStorage se)))"
proof -
  have "(case r of Inr m \<Rightarrow> Some m | Inl _ \<Rightarrow> Option.bind (registry_get i (wd_jobs w)) jb_meeting_id) = Some m"
    using assms(4) by (auto simp: job_meeting_def split: sum.splits)
  then have "view orch (snd (finalize orch i r w)) = view_store (or_json orch)
      (artifacts_put (meeting_id_str m, ARTIFACT_PROCESSING_STATUS) json (wd_db w))"
    using assms(2,3)
    by (simp add: finalize_steps bindE_def job_update_def doE_def emit_def persist_if_known_def
        persist_status_def call_store_def save_processing_status_def encodeE_def put_artifact_def with_conn_def)
  moreover have "sv_status (view_store (or_json orch)
      (artifacts_put (meeting_id_str m, ARTIFACT_PROCESSING_STATUS) json (wd_db w))) m
      = Inr (Some (outcome_status r (en_now (or_env orch) (Suc (wd_tick w)))))"
    using codec_ok_intact [OF assms(1,2)] assms(2) by (simp add: view_store_eq artifacts.get_put reread_enc)
  moreover have "is_retryable (outcome_status r now) \<longleftrightarrow> (\<exists>e. r = Inl e \<and> (\<forall>se. e \<noteq> PipeStorage se))"
    by (auto simp: outcome_status_def failure_status_def split: sum.splits pipeline_error.splits)
  ultimately show ?thesis by simp
qed

theorem finalize_status_witness:
  "sv_status (view (demo_orch demo_talk) (snd (finalize (demo_orch demo_talk) demo_job (Inr (MeetingId (lit ''m1''))) demo_world)))
     (MeetingId (lit ''m1'')) = Inr (Some (status_ready 0))"
proof -
  have o: "outcome_status (Inr (MeetingId (lit ''m1''))) (en_now (or_env (demo_orch demo_talk)) (Suc (wd_tick demo_world))) = status_ready 0"
    by (simp add: outcome_status_def demo_orch_def demo_env_def)
  have "codec_ok (sj_status (or_json (demo_orch demo_talk)))"
    and "enc (sj_status (or_json (demo_orch demo_talk))) (status_ready 0) = Inr []"
    by (simp_all add: demo_orch_def demo_pipeline_json_def)
  moreover have "en_db_fault (or_env (demo_orch demo_talk)) (Suc (wd_tick demo_world)) = None"
    by (simp add: demo_orch_def demo_env_def)
  ultimately show ?thesis
    using finalize_status [where r = "Inr (MeetingId (lit ''m1''))"
        and w = demo_world and json = "[]" and m = "MeetingId (lit ''m1'')" and i = demo_job and now = 0] o by simp
qed

end
