(* ===== verification/Search_Chunker.thy ===== *)
theory Search_Chunker
  imports Rust_Str
begin

text \<open>
  Deterministic chunking of a Markdown note (\<open>engine/src/search/chunker.rs\<close>): whole paragraphs are
  grouped under a byte budget and each chunk keeps the 0-based, inclusive range of the lines it was
  made of; the note's display title and the one-line preview of a passage. The loop is shown to
  implement the greedy grouping of the prelude, and the citation ranges are derived from that.
\<close>

section \<open>The code\<close>

record md_chunk =
  mc_start_line :: nat
  mc_end_line :: nat
  mc_text :: ustr

definition DEFAULT_CHUNK_CHARS :: nat where "DEFAULT_CHUNK_CHARS = 1200"

type_synonym numbered_line = "nat \<times> ustr"

text \<open>\<open>line.trim().is_empty()\<close>.\<close>

definition blank_line :: "numbered_line \<Rightarrow> bool" where
  "blank_line l = (trim (snd l) = [])"

definition md_flush :: "numbered_line list \<Rightarrow> md_chunk list" where
  "md_flush cur = (if cur = [] then [] else
     [\<lparr> mc_start_line = fst (hd cur), mc_end_line = fst (last cur), mc_text = str_join [nl] (map snd cur) \<rparr>])"

text \<open>\<open>para.iter().map(|(_, l)| l.len() + 1).sum()\<close>.\<close>

definition para_chars :: "numbered_line list \<Rightarrow> nat" where
  "para_chars para = sum_list (map (\<lambda>l. str_len (snd l) + 1) para)"

text \<open>The \<open>while\<close> loop over the numbered lines that remain, with the current chunk and its size.\<close>

function md_loop :: "nat \<Rightarrow> numbered_line list \<Rightarrow> nat \<Rightarrow> numbered_line list \<Rightarrow> md_chunk list" where
  "md_loop budget cur cur_chars [] = md_flush cur"
| "md_loop budget cur cur_chars (l # ls) =
     (if blank_line l then md_loop budget cur cur_chars ls
      else
        let para = l # takeWhile (\<lambda>l. \<not> blank_line l) ls; rest = dropWhile (\<lambda>l. \<not> blank_line l) ls in
        if cur_chars > 0 \<and> cur_chars + para_chars para > budget
        then md_flush cur @ md_loop budget para (para_chars para) rest
        else md_loop budget (cur @ para) (cur_chars + para_chars para) rest)"
  by pat_completeness auto
termination
  by (relation "measure (\<lambda>(_, _, _, ls). length ls)") (auto simp: less_Suc_eq_le length_dropWhile_le)

definition chunk_markdown :: "ustr \<Rightarrow> nat \<Rightarrow> md_chunk list" where
  "chunk_markdown text max_chars =
     md_loop (max max_chars 1) [] 0 (enumerate 0 (split_on (\<lambda>c. c = nl) text))"

text \<open>\<open>str::lines\<close>: an ending \<open>\n\<close> or \<open>\r\n\<close> is removed, and the last line counts when it is not empty.\<close>

definition strip_cr :: "ustr \<Rightarrow> ustr" where
  "strip_cr s = (if s \<noteq> [] \<and> last s = 13 then butlast s else s)"

definition str_lines :: "ustr \<Rightarrow> ustr list" where
  "str_lines s = (let pieces = split_on (\<lambda>c. c = nl) s in
     map strip_cr (butlast pieces) @ (if last pieces = [] then [] else [last pieces]))"

fun heading_loop :: "ustr list \<Rightarrow> ustr option" where
  "heading_loop [] = None"
| "heading_loop (line # ls) = (case trim_start line of
       [] \<Rightarrow> heading_loop ls
     | c # rest \<Rightarrow> if c = of_char CHR ''#''
         then let title = trim (trim_start_matches (of_char CHR ''#'') rest)
              in if title \<noteq> [] then Some title else heading_loop ls
         else heading_loop ls)"

definition first_heading :: "ustr \<Rightarrow> ustr option" where
  "first_heading text = heading_loop (str_lines text)"

text \<open>\<open>U+2026\<close> is the ellipsis.\<close>

definition snippet :: "ustr \<Rightarrow> nat \<Rightarrow> ustr" where
  "snippet text n = (let collapsed = trim_start (trim_start_matches (of_char CHR ''#'') (collapse_whitespace text)) in
     if length collapsed > n then trim_end (take n collapsed) @ [0x2026] else collapsed)"

section \<open>The loop is the greedy grouping of paragraphs\<close>

text \<open>A paragraph is a maximal run of non-blank lines.\<close>

function paragraphs :: "numbered_line list \<Rightarrow> numbered_line list list" where
  "paragraphs [] = []"
| "paragraphs (l # ls) = (if blank_line l then paragraphs ls
     else (l # takeWhile (\<lambda>l. \<not> blank_line l) ls) # paragraphs (dropWhile (\<lambda>l. \<not> blank_line l) ls))"
  by pat_completeness auto
termination
  by (relation "measure length") (auto simp: less_Suc_eq_le length_dropWhile_le)

lemma para_chars_simps [simp]:
  "para_chars [] = 0" "para_chars (l # ls) = str_len (snd l) + 1 + para_chars ls"
  "para_chars (ls @ ks) = para_chars ls + para_chars ks"
  by (simp_all add: para_chars_def)

lemma para_chars_concat: "para_chars (concat ps) = total_weight para_chars ps"
  by (induction ps) (simp_all add: total_weight_def)

lemma para_chars_pos: "ps \<noteq> [] \<Longrightarrow> (\<forall>p \<in> set ps. p \<noteq> []) \<Longrightarrow> total_weight para_chars ps > 0"
  by (cases ps; cases "hd ps") (auto simp: total_weight_def)

lemma md_loop_greedy:
  "(\<forall>p \<in> set ps. p \<noteq> []) \<Longrightarrow> md_loop budget (concat ps) (total_weight para_chars ps) ls
     = concat (map (md_flush \<circ> concat) (greedy para_chars budget ps (total_weight para_chars ps) (paragraphs ls)))"
proof (induction ls arbitrary: ps rule: paragraphs.induct)
  case 1
  then show ?case by (auto simp: md_flush_def)
next
  case (2 l ls)
  let ?para = "l # takeWhile (\<lambda>l. \<not> blank_line l) ls"
  let ?rest = "dropWhile (\<lambda>l. \<not> blank_line l) ls"
  show ?case
  proof (cases "blank_line l")
    case True
    then show ?thesis using 2 by simp
  next
    case False
    note IH = "2.IH"(2) [OF False]
    have pos: "total_weight para_chars ps > 0 \<longleftrightarrow> ps \<noteq> []"
      using para_chars_pos [of ps] "2.prems" by (auto simp: total_weight_def)
    have one: "total_weight para_chars [?para] = para_chars ?para" by (simp add: total_weight_def)
    have more: "total_weight para_chars (ps @ [?para]) = total_weight para_chars ps + para_chars ?para"
      by (simp add: total_weight_def)
    from IH [of "[?para]"] IH [of "ps @ [?para]"] "2.prems" False pos one more
    show ?thesis by (auto simp: Let_def md_flush_def)
  qed
qed

lemma concat_paragraphs: "concat (paragraphs ls) = filter (\<lambda>l. \<not> blank_line l) ls"
proof (induction ls rule: paragraphs.induct)
  case (2 l ls)
  have "filter (\<lambda>l. \<not> blank_line l) ls = takeWhile (\<lambda>l. \<not> blank_line l) ls
      @ filter (\<lambda>l. \<not> blank_line l) (dropWhile (\<lambda>l. \<not> blank_line l) ls)"
    by (metis filter_append filter_True set_takeWhileD takeWhile_dropWhile_id)
  with 2 show ?case by simp
qed simp

lemma paragraphs_nonempty: "p \<in> set (paragraphs ls) \<Longrightarrow> p \<noteq> []"
  by (induction ls rule: paragraphs.induct) (auto split: if_splits)


definition md_lines :: "ustr \<Rightarrow> ustr list" where
  "md_lines text = split_on (\<lambda>c. c = nl) text"

definition md_groups :: "ustr \<Rightarrow> nat \<Rightarrow> numbered_line list list list" where
  "md_groups text n = greedy_groups para_chars (max n 1) (paragraphs (enumerate 0 (md_lines text)))"

lemma chunk_markdown_groups: "chunk_markdown text n = concat (map (md_flush \<circ> concat) (md_groups text n))"
  using md_loop_greedy [of "[]"]
  by (simp add: chunk_markdown_def md_groups_def greedy_groups_def md_lines_def total_weight_def)

lemma md_groups_paragraph: "g \<in> set (md_groups text n) \<Longrightarrow> p \<in> set g
    \<Longrightarrow> p \<in> set (paragraphs (enumerate 0 (md_lines text)))"
  by (metis UN_I concat_greedy_groups md_groups_def set_concat)

lemma md_group_nonempty: "g \<in> set (md_groups text n) \<Longrightarrow> concat g \<noteq> []"
proof -
  assume g: "g \<in> set (md_groups text n)"
  then have "g \<noteq> []" unfolding md_groups_def by (rule greedy_groups_nonempty)
  then have "hd g \<in> set g" by simp
  with md_groups_paragraph [OF g] paragraphs_nonempty show ?thesis by fastforce
qed

text \<open>The chunk a non-empty list of numbered lines is flushed to.\<close>

definition md_chunk_of :: "numbered_line list \<Rightarrow> md_chunk" where
  "md_chunk_of g = \<lparr> mc_start_line = fst (hd g), mc_end_line = fst (last g), mc_text = str_join [nl] (map snd g) \<rparr>"

lemma chunk_markdown_map: "chunk_markdown text n = map (md_chunk_of \<circ> concat) (md_groups text n)"
proof -
  have "concat (map (md_flush \<circ> concat) gs) = map (md_chunk_of \<circ> concat) gs"
    if "\<forall>g \<in> set gs. concat g \<noteq> []" for gs
    using that by (induction gs) (auto simp: md_flush_def md_chunk_of_def)
  then show ?thesis using md_group_nonempty [of _ "text" n] by (simp add: chunk_markdown_groups)
qed

section \<open>Line ranges\<close>

definition text_lines :: "ustr list \<Rightarrow> nat list" where
  "text_lines ls = filter (\<lambda>k. trim (ls ! k) \<noteq> []) [0..<length ls]"

lemma enumerate_upt: "enumerate 0 ls = map (\<lambda>k. (k, ls ! k)) [0..<length ls]"
  by (rule nth_equalityI) (auto simp: nth_enumerate_eq)

lemma concat_map_concat: "concat (map concat xss) = concat (concat xss)"
  by (induction xss) auto

lemma concat_md_groups:
  "concat (map concat (md_groups text n)) = map (\<lambda>k. (k, md_lines text ! k)) (text_lines (md_lines text))"
proof -
  have "concat (map concat (md_groups text n)) = concat (concat (md_groups text n))"
    by (rule concat_map_concat)
  also have "\<dots> = filter (\<lambda>l. \<not> blank_line l) (enumerate 0 (md_lines text))"
    by (simp add: md_groups_def concat_paragraphs)
  finally show ?thesis
    by (simp add: enumerate_upt filter_map blank_line_def comp_def text_lines_def)
qed

lemma sorted_ends: "sorted ks \<Longrightarrow> k \<in> set ks \<Longrightarrow> hd ks \<le> k" "sorted ks \<Longrightarrow> k \<in> set ks \<Longrightarrow> k \<le> last ks"
  for k :: nat
proof -
  show "sorted ks \<Longrightarrow> k \<in> set ks \<Longrightarrow> hd ks \<le> k" by (cases ks) auto
  show "sorted ks \<Longrightarrow> k \<in> set ks \<Longrightarrow> k \<le> last ks" by (cases ks rule: rev_cases) (auto simp: sorted_append)
qed

text \<open>A part of a strictly increasing list is what the list has between the part's ends.\<close>

lemma sorted_part:
  assumes "sorted_wrt (<) (pre @ g @ post)" "g \<noteq> []"
  shows "filter (\<lambda>k::nat. hd g \<le> k \<and> k \<le> last g) (pre @ g @ post) = g"
proof -
  have "\<forall>k \<in> set pre. k < hd g" "\<forall>k \<in> set post. last g < k"
    using assms by (auto simp: sorted_wrt_append)
  then have "filter (\<lambda>k. hd g \<le> k \<and> k \<le> last g) pre = []" "filter (\<lambda>k. hd g \<le> k \<and> k \<le> last g) post = []"
    by (auto simp: filter_empty_conv)
  moreover have "\<forall>k \<in> set g. hd g \<le> k \<and> k \<le> last g"
    using assms by (auto simp: sorted_wrt_append intro!: sorted_ends strict_sorted_imp_sorted)
  ultimately show ?thesis by simp
qed

lemma concat_part: "x \<in> set xs \<Longrightarrow> \<exists>pre post. concat xs = pre @ x @ post"
  by (metis concat.simps(2) concat_append in_set_conv_decomp)

lemma text_lines_between:
  "k' < length ls \<Longrightarrow> filter (\<lambda>i. k \<le> i \<and> i \<le> k') (text_lines ls) = filter (\<lambda>i. trim (ls ! i) \<noteq> []) [k..<Suc k']"
proof -
  assume k': "k' < length ls"
  have "filter (\<lambda>i. k \<le> i \<and> i \<le> k') [0..<length ls] = [k..<Suc k']"
  proof (rule sorted_distinct_set_unique)
    show "set (filter (\<lambda>i. k \<le> i \<and> i \<le> k') [0..<length ls]) = set [k..<Suc k']" using k' by auto
    show "sorted [k..<Suc k']" by (rule sorted_upt)
  qed (simp_all add: sorted_wrt_filter del: upt_Suc)
  then have "filter (\<lambda>i. trim (ls ! i) \<noteq> []) (filter (\<lambda>i. k \<le> i \<and> i \<le> k') [0..<length ls])
      = filter (\<lambda>i. trim (ls ! i) \<noteq> []) [k..<Suc k']"
    by (rule arg_cong)
  then show ?thesis by (simp add: text_lines_def conj_ac del: upt_Suc)
qed

lemma sorted_text_lines: "sorted_wrt (<) (text_lines ls)"
  by (simp add: text_lines_def sorted_wrt_filter)

text \<open>The line numbers of a group: exactly the non-blank lines of its range.\<close>

lemma md_group_lines:
  assumes "g \<in> set (md_groups text n)"
  defines "ks \<equiv> map fst (concat g)"
  shows "concat g = map (\<lambda>k. (k, md_lines text ! k)) ks" "ks \<noteq> []" "set ks \<subseteq> set (text_lines (md_lines text))"
    "ks = filter (\<lambda>k. trim (md_lines text ! k) \<noteq> []) [hd ks..<Suc (last ks)]" "hd ks \<le> last ks"
proof -
  obtain pre post where p: "concat (map concat (md_groups text n)) = pre @ concat g @ post"
    using concat_part [of "concat g" "map concat (md_groups text n)"] assms(1) by auto
  then have F: "map (\<lambda>k. (k, md_lines text ! k)) (text_lines (md_lines text)) = pre @ concat g @ post"
    by (simp add: concat_md_groups)
  have "\<forall>l \<in> set (concat g). l = (fst l, md_lines text ! fst l)"
  proof
    fix l assume "l \<in> set (concat g)"
    then have "l \<in> set (map (\<lambda>k. (k, md_lines text ! k)) (text_lines (md_lines text)))" unfolding F by simp
    then show "l = (fst l, md_lines text ! fst l)" by auto
  qed
  then show "concat g = map (\<lambda>k. (k, md_lines text ! k)) ks"
    unfolding ks_def map_map comp_def by (metis (no_types, lifting) map_idI)
  show ne: "ks \<noteq> []" using md_group_nonempty [OF assms(1)] by (simp add: ks_def)
  have T: "text_lines (md_lines text) = map fst pre @ ks @ map fst post"
    using arg_cong [OF F, of "map fst"] by (simp add: ks_def comp_def)
  then show "set ks \<subseteq> set (text_lines (md_lines text))" by auto
  have "filter (\<lambda>k. hd ks \<le> k \<and> k \<le> last ks) (text_lines (md_lines text)) = ks"
    using sorted_text_lines [of "md_lines text"] ne unfolding T by (rule sorted_part)
  moreover have "last ks < length (md_lines text)"
  proof -
    have "last ks \<in> set (text_lines (md_lines text))" using ne unfolding T by simp
    then show ?thesis by (simp add: text_lines_def)
  qed
  ultimately show "ks = filter (\<lambda>k. trim (md_lines text ! k) \<noteq> []) [hd ks..<Suc (last ks)]"
    by (simp only: text_lines_between)
  have "sorted ks" using sorted_text_lines [of "md_lines text"] unfolding T
    by (auto simp: sorted_wrt_append strict_sorted_imp_sorted)
  then show "hd ks \<le> last ks" using ne by (cases ks) auto
qed


text \<open>
  What a citation promises: the passage is the non-blank lines of its range as written, the range
  starts and ends on such lines, ranges follow each other without overlap, and no line of the note
  that has text is missing.
\<close>

definition cites :: "ustr list \<Rightarrow> md_chunk \<Rightarrow> bool" where
  "cites ls c \<longleftrightarrow> mc_start_line c \<le> mc_end_line c \<and> mc_end_line c < length ls
     \<and> trim (ls ! mc_start_line c) \<noteq> [] \<and> trim (ls ! mc_end_line c) \<noteq> []
     \<and> mc_text c = str_join [nl] (map ((!) ls) (filter (\<lambda>k. trim (ls ! k) \<noteq> []) [mc_start_line c..<Suc (mc_end_line c)]))"

lemma md_chunk_of_group:
  assumes "g \<in> set (md_groups text n)"
  defines "ks \<equiv> map fst (concat g)"
  shows "md_chunk_of (concat g) = \<lparr> mc_start_line = hd ks, mc_end_line = last ks,
      mc_text = str_join [nl] (map ((!) (md_lines text)) ks) \<rparr>"
proof -
  have "concat g \<noteq> []" by (rule md_group_nonempty [OF assms(1)])
  moreover have "map snd (concat g) = map ((!) (md_lines text)) ks"
    by (subst md_group_lines(1) [OF assms(1)]) (simp add: ks_def comp_def)
  ultimately show ?thesis unfolding md_chunk_of_def ks_def
    by (simp only: hd_map last_map not_False_eq_True simp_thms)
qed

lemma md_chunk_cites:
  assumes "g \<in> set (md_groups text n)"
  shows "cites (md_lines text) (md_chunk_of (concat g))"
proof -
  let ?ks = "map fst (concat g)"
  have ks: "?ks \<noteq> []" "set ?ks \<subseteq> set (text_lines (md_lines text))" "hd ?ks \<le> last ?ks"
    by (rule md_group_lines(2,3,5) [OF assms])+
  then have "hd ?ks \<in> set (text_lines (md_lines text))" "last ?ks \<in> set (text_lines (md_lines text))"
    by (metis hd_in_set subsetD) (metis ks(1,2) last_in_set subsetD)
  then show ?thesis using ks(3) md_group_lines(4) [OF assms]
    by (simp only: cites_def md_chunk_of_group [OF assms] md_chunk.simps text_lines_def set_filter mem_Collect_eq
        set_upt atLeastLessThan_iff simp_thms)
qed

lemma md_chunk_lines:
  assumes "g \<in> set (md_groups text n)"
  shows "filter (\<lambda>k. trim (md_lines text ! k) \<noteq> [])
      [mc_start_line (md_chunk_of (concat g))..<Suc (mc_end_line (md_chunk_of (concat g)))] = map fst (concat g)"
  using md_group_lines(4) [OF assms] by (simp only: md_chunk_of_group [OF assms] md_chunk.simps)

lemma sorted_ranges:
  "sorted_wrt (<) (concat kss) \<Longrightarrow> (\<forall>ks \<in> set kss. ks \<noteq> [])
     \<Longrightarrow> sorted_wrt (\<lambda>ks ks'. last ks < (hd ks' :: nat)) kss"
  by (induction kss) (auto simp: sorted_wrt_append)

text \<open>C28. Citations are exact: every chunk of a note quotes exactly the non-blank lines of its range, the
  ranges are disjoint and in order, and together they cover every non-blank line of the note.\<close>

theorem chunk_markdown_cites:
  "list_all (cites (md_lines text)) (chunk_markdown text n)
   \<and> sorted_wrt (\<lambda>a b. mc_end_line a < mc_start_line b) (chunk_markdown text n)
   \<and> concat (map (\<lambda>c. filter (\<lambda>k. trim (md_lines text ! k) \<noteq> []) [mc_start_line c..<Suc (mc_end_line c)])
       (chunk_markdown text n)) = text_lines (md_lines text)"
proof (intro conjI)
  let ?gs = "md_groups text n"
  have lines: "concat (map (map fst \<circ> concat) ?gs) = text_lines (md_lines text)"
    using arg_cong [OF concat_md_groups [of "text" n], of "map fst"] by (simp add: map_concat comp_def)
  show "list_all (cites (md_lines text)) (chunk_markdown text n)"
    by (simp add: chunk_markdown_map list_all_iff md_chunk_cites)
  have "sorted_wrt (\<lambda>ks ks'. last ks < hd ks') (map (map fst \<circ> concat) ?gs)"
    by (rule sorted_ranges) (use lines sorted_text_lines md_group_nonempty in auto)
  then have "sorted_wrt (\<lambda>g g'. mc_end_line (md_chunk_of (concat g)) < mc_start_line (md_chunk_of (concat g'))) ?gs"
    unfolding sorted_wrt_map by (rule sorted_wrt_mono_rel [rotated]) (simp add: md_chunk_of_group)
  then show "sorted_wrt (\<lambda>a b. mc_end_line a < mc_start_line b) (chunk_markdown text n)"
    by (simp add: chunk_markdown_map sorted_wrt_map)
  have "map (\<lambda>c. filter (\<lambda>k. trim (md_lines text ! k) \<noteq> []) [mc_start_line c..<Suc (mc_end_line c)])
      (chunk_markdown text n) = map (map fst \<circ> concat) ?gs"
    unfolding chunk_markdown_map map_map by (rule map_cong [OF refl]) (simp add: md_chunk_lines del: upt_Suc)
  then show "concat (map (\<lambda>c. filter (\<lambda>k. trim (md_lines text ! k) \<noteq> []) [mc_start_line c..<Suc (mc_end_line c)])
       (chunk_markdown text n)) = text_lines (md_lines text)" by (simp only: lines)
qed


lemma takeWhile_numbered:
  "\<exists>m. takeWhile P (map (\<lambda>k. (k, f k)) [a..<b]) = map (\<lambda>k. (k, f k)) [a..<m]
     \<and> dropWhile P (map (\<lambda>k. (k, f k)) [a..<b]) = map (\<lambda>k. (k, f k)) [m..<b] \<and> a \<le> m"
proof (induction "b - a" arbitrary: a)
  case 0
  then show ?case by (intro exI [of _ a]) simp
next
  case (Suc d)
  then have ab: "a < b" by simp
  show ?case
  proof (cases "P (a, f a)")
    case True
    obtain m where m: "takeWhile P (map (\<lambda>k. (k, f k)) [Suc a..<b]) = map (\<lambda>k. (k, f k)) [Suc a..<m]"
        "dropWhile P (map (\<lambda>k. (k, f k)) [Suc a..<b]) = map (\<lambda>k. (k, f k)) [m..<b]" "Suc a \<le> m"
      using Suc.hyps(1) [of "Suc a"] by (metis Suc.hyps(2) diff_Suc_Suc Suc_diff_Suc ab diff_Suc_1)
    then have "takeWhile P (map (\<lambda>k. (k, f k)) [a..<b]) = map (\<lambda>k. (k, f k)) [a..<m]"
      using True ab by (simp only: upt_conv_Cons [of a]) (simp add: upt_conv_Cons [of a m])
    moreover have "dropWhile P (map (\<lambda>k. (k, f k)) [a..<b]) = map (\<lambda>k. (k, f k)) [m..<b]"
      using True ab m by (simp only: upt_conv_Cons [of a]) simp
    ultimately show ?thesis using m(3) by (intro exI [of _ m]) simp
  next
    case False
    then show ?thesis using ab by (intro exI [of _ a]) (simp add: upt_conv_Cons [of a])
  qed
qed

lemma paragraph_consecutive:
  "p \<in> set (paragraphs (map (\<lambda>k. (k, f k)) [a..<b])) \<Longrightarrow> \<exists>i j. map fst p = [i..<j]"
proof (induction "b - a" arbitrary: a rule: less_induct)
  case less
  then have ab: "a < b" by (cases "a < b") auto
  then have u: "[a..<b] = a # [Suc a..<b]" by (rule upt_conv_Cons)
  obtain m where m: "takeWhile (\<lambda>l. \<not> blank_line l) (map (\<lambda>k. (k, f k)) [Suc a..<b]) = map (\<lambda>k. (k, f k)) [Suc a..<m]"
      "dropWhile (\<lambda>l. \<not> blank_line l) (map (\<lambda>k. (k, f k)) [Suc a..<b]) = map (\<lambda>k. (k, f k)) [m..<b]" "Suc a \<le> m"
    using takeWhile_numbered by blast
  show ?case
  proof (cases "p = (a, f a) # map (\<lambda>k. (k, f k)) [Suc a..<m]")
    case True
    then show ?thesis using m(3) by (intro exI [of _ a] exI [of _ m]) (simp add: comp_def upt_conv_Cons)
  next
    case False
    then have "p \<in> set (paragraphs (map (\<lambda>k. (k, f k)) [Suc a..<b])) \<or> p \<in> set (paragraphs (map (\<lambda>k. (k, f k)) [m..<b]))"
      using less.prems m unfolding u by (simp split: if_splits)
    then show ?thesis using less.hyps [of "Suc a"] less.hyps [of m] m(3) ab by fastforce
  qed
qed

lemma str_len_join: "ws \<noteq> [] \<Longrightarrow> str_len (str_join [nl] ws) + 1 = sum_list (map (\<lambda>w. str_len w + 1) ws)"
  by (induction ws rule: list_nonempty_induct) (simp_all add: str_join_Cons)

text \<open>Chunks respect the budget: a chunk's text has fewer bytes than the budget, or the chunk is one
  single paragraph, which is never split.\<close>

theorem chunk_markdown_budget:
  "list_all (\<lambda>c. str_len (mc_text c) < max n 1
      \<or> list_all (\<lambda>k. trim (md_lines text ! k) \<noteq> []) [mc_start_line c..<Suc (mc_end_line c)]) (chunk_markdown text n)"
proof -
  have "str_len (mc_text (md_chunk_of (concat g))) < max n 1
      \<or> list_all (\<lambda>k. trim (md_lines text ! k) \<noteq> [])
          [mc_start_line (md_chunk_of (concat g))..<Suc (mc_end_line (md_chunk_of (concat g)))]"
    if g: "g \<in> set (md_groups text n)" for g
  proof (cases "length g = 1")
    case True
    then obtain p where p: "g = [p]" by (cases g) auto
    then have "p \<in> set (paragraphs (enumerate 0 (md_lines text)))" using md_groups_paragraph [OF g] by simp
    then obtain i j where ks: "map fst (concat g) = [i..<j]"
      using paragraph_consecutive [of p "(!) (md_lines text)" 0 "length (md_lines text)"]
      by (auto simp: enumerate_upt p)
    have "[i..<j] \<noteq> []" using md_group_nonempty [OF g] ks by (metis map_is_Nil_conv)
    then have "i < j" by (simp only: upt_eq_Nil_conv) simp
    then have "[i..<j] = [mc_start_line (md_chunk_of (concat g))..<Suc (mc_end_line (md_chunk_of (concat g)))]"
      unfolding md_chunk_of_group [OF g] ks md_chunk.simps
      by (simp add: last_upt del: upt_Suc)
    then show ?thesis using md_chunk_lines [OF g] unfolding ks
      by (metis (no_types, lifting) list_all_iff filter_id_conv)
  next
    case False
    then have "total_weight para_chars g \<le> max n 1"
      using greedy_groups_budget g unfolding md_groups_def by blast
    moreover have "str_len (mc_text (md_chunk_of (concat g))) + 1 = total_weight para_chars g"
      using md_group_nonempty [OF g] str_len_join [of "map snd (concat g)"]
      by (simp add: md_chunk_of_def para_chars_concat [symmetric] para_chars_def comp_def del: map_concat)
    ultimately show ?thesis by simp
  qed
  then show ?thesis by (auto simp: chunk_markdown_map list_all_iff)
qed

section \<open>Previews\<close>

text \<open>A preview is at most one character (the ellipsis) longer than asked for.\<close>

lemma length_trim_end: "length (trim_end s) \<le> length s"
  using prefix_length_le [OF prefix_trim_end] .

lemma snippet_length: "length (snippet text n) \<le> Suc n"
  using length_trim_end [of "take n (trim_start (trim_start_matches 35 (collapse_whitespace text)))"]
  by (simp add: snippet_def Let_def)

end
