(* ===== verification/Search_Index.thy ===== *)
theory Search_Index
  imports Search_Chunker Rust_Path Storage "HOL-Library.Word"
begin

text \<open>
  The vault index and its incremental synchronisation (\<open>engine/src/search/index.rs\<close>). The database
  holds the FTS5 rows in insertion order, the fingerprints of the indexed notes and the embedding
  rows. Every SQL statement is a step that the backend may fail with a message, decided by the
  parameter \<open>fault\<close> at the number of the statement; nothing is rolled back. The vault is a directory
  tree for the walk and a function from paths to files for the reads; a pass sees one state of it.
  The order of a \<open>HashMap\<close> is a parameter. Line numbers, which the source casts to \<open>i64\<close> and back,
  are naturals.
\<close>

section \<open>Types\<close>

datatype search_error = SearchBackend ustr

fun search_error_display :: "search_error \<Rightarrow> ustr" where
  "search_error_display (SearchBackend m) = lit ''search index backend error: '' @ m"

record sync_stats =
  ss_added :: nat
  ss_updated :: nat
  ss_removed :: nat
  ss_unchanged :: nat

definition sync_stats_default :: sync_stats where
  "sync_stats_default = \<lparr> ss_added = 0, ss_updated = 0, ss_removed = 0, ss_unchanged = 0 \<rparr>"

text \<open>A row of \<open>chunks\<close> has the columns of a \<open>Passage\<close>.\<close>

record passage =
  pg_path :: ustr
  pg_title :: ustr
  pg_start_line :: nat
  pg_end_line :: nat
  pg_body :: ustr

definition SNIPPET_CHARS :: nat where "SNIPPET_CHARS = 240"

definition to_hit :: "passage \<Rightarrow> search_hit" where
  "to_hit p = \<lparr> sh_path = pg_path p, sh_title = pg_title p, sh_start_line = pg_start_line p,
     sh_end_line = pg_end_line p, sh_snippet = snippet (pg_body p) SNIPPET_CHARS \<rparr>"

record source_row =
  sr_fingerprint :: ustr
  sr_embedded :: "ustr option"

text \<open>An embedding row: the passage and the vector's bytes.\<close>

record embedding_row =
  er_passage :: passage
  er_vector :: "8 word list"

record index_db =
  ix_chunks :: "passage list"
  ix_sources :: "(ustr, source_row) table"
  ix_embeddings :: "(ustr \<times> nat, embedding_row) table"

definition index_empty :: index_db where
  "index_empty = \<lparr> ix_chunks = [], ix_sources = [], ix_embeddings = [] \<rparr>"

text \<open>The state of a pass: the database, the number of statements made and the embedder's state.\<close>

record 'x index_world =
  iw_db :: index_db
  iw_tick :: nat
  iw_ext :: 'x

type_synonym ('x, 'a) search = "('x index_world, search_error, 'a) effect"

text \<open>One SQL statement; it has no effect when the backend fails it.\<close>

type_synonym sql_fault = "nat \<Rightarrow> ustr option"

definition sql :: "sql_fault \<Rightarrow> (index_db \<Rightarrow> 'a \<times> index_db) \<Rightarrow> ('x, 'a) search" where
  "sql fault f w = (let w' = w\<lparr> iw_tick := Suc (iw_tick w) \<rparr> in
     case fault (iw_tick w) of Some m \<Rightarrow> (Inl (SearchBackend m), w')
     | None \<Rightarrow> (case f (iw_db w) of (x, d) \<Rightarrow> (Inr x, w'\<lparr> iw_db := d \<rparr>)))"

definition sql_exec :: "sql_fault \<Rightarrow> (index_db \<Rightarrow> index_db) \<Rightarrow> ('x, unit) search" where
  "sql_exec fault f = sql fault (\<lambda>d. ((), f d))"

definition sql_query :: "sql_fault \<Rightarrow> (index_db \<Rightarrow> 'a) \<Rightarrow> ('x, 'a) search" where
  "sql_query fault g = sql fault (\<lambda>d. (g d, d))"

section \<open>The vault\<close>

text \<open>The directory walk: \<open>FsDir None\<close> cannot be listed, \<open>FsUnknown\<close> has no readable type, \<open>FsOther\<close> is
  neither a directory nor a regular file (a symbolic link, a device).\<close>

datatype fs_node = FsDir "(ustr \<times> fs_node) list option" | FsFile | FsOther | FsUnknown

definition is_markdown :: "path \<Rightarrow> bool" where
  "is_markdown p = (case path_extension p of
     Some e \<Rightarrow> to_ascii_lowercase e = lit ''md'' \<or> to_ascii_lowercase e = lit ''markdown''
   | None \<Rightarrow> False)"

fun collect_markdown :: "path \<Rightarrow> fs_node \<Rightarrow> path list"
  and collect_entries :: "path \<Rightarrow> (ustr \<times> fs_node) list \<Rightarrow> path list" where
  "collect_markdown dir (FsDir (Some entries)) = collect_entries dir entries"
| "collect_markdown dir _ = []"
| "collect_entries dir [] = []"
| "collect_entries dir ((name, node) # entries) =
     (if name \<noteq> [] \<and> hd name = of_char CHR ''.'' then []
      else case node of
        FsDir _ \<Rightarrow> collect_markdown (path_join dir name) node
      | FsFile \<Rightarrow> if is_markdown (path_join dir name) then [path_join dir name] else []
      | _ \<Rightarrow> []) @ collect_entries dir entries"

text \<open>What \<open>metadata\<close> and \<open>read_to_string\<close> answer for a path: modification time in seconds from the epoch
  (negative before it, absent where the platform has none) and size; the text when it is readable UTF-8.\<close>

record note_file =
  nf_meta :: "(int option \<times> nat) option"
  nf_content :: "ustr option"

type_synonym vault = "path \<Rightarrow> note_file"

definition fingerprint :: "vault \<Rightarrow> path \<Rightarrow> ustr option" where
  "fingerprint files p = (case nf_meta (files p) of None \<Rightarrow> None
     | Some (modified, len) \<Rightarrow>
         let secs = (case modified of Some t \<Rightarrow> if t \<ge> 0 then nat t else 0 | None \<Rightarrow> 0)
         in Some (show_nat secs @ lit '':'' @ show_nat len))"

definition file_stem :: "path \<Rightarrow> ustr" where
  "file_stem p = (case path_file_stem p of Some s \<Rightarrow> s | None \<Rightarrow> p)"

section \<open>Indexing\<close>

definition note_title :: "path \<Rightarrow> ustr \<Rightarrow> ustr" where
  "note_title p content = (case first_heading content of Some t \<Rightarrow> t | None \<Rightarrow> file_stem p)"

definition chunk_row :: "path \<Rightarrow> ustr \<Rightarrow> md_chunk \<Rightarrow> passage" where
  "chunk_row p title c = \<lparr> pg_path = p, pg_title = title, pg_start_line = mc_start_line c,
     pg_end_line = mc_end_line c, pg_body = mc_text c \<rparr>"

definition delete_chunks :: "path \<Rightarrow> index_db \<Rightarrow> index_db" where
  "delete_chunks p d = d\<lparr> ix_chunks := filter (\<lambda>r. pg_path r \<noteq> p) (ix_chunks d) \<rparr>"

definition delete_embeddings :: "path \<Rightarrow> index_db \<Rightarrow> index_db" where
  "delete_embeddings p d = d\<lparr> ix_embeddings := filter (\<lambda>r. fst (fst r) \<noteq> p) (ix_embeddings d) \<rparr>"

fun insert_chunks :: "sql_fault \<Rightarrow> passage list \<Rightarrow> ('x, unit) search" where
  "insert_chunks fault [] = okE ()"
| "insert_chunks fault (r # rs) =
     bindE (sql_exec fault (\<lambda>d. d\<lparr> ix_chunks := ix_chunks d @ [r] \<rparr>)) (\<lambda>_. insert_chunks fault rs)"

definition index_file :: "sql_fault \<Rightarrow> path \<Rightarrow> ustr \<Rightarrow> ('x, unit) search" where
  "index_file fault p content =
     bindE (sql_exec fault (delete_chunks p)) (\<lambda>_.
     let title = note_title p content in
     insert_chunks fault (map (chunk_row p title) (chunk_markdown content DEFAULT_CHUNK_CHARS)))"

definition upsert_source :: "sql_fault \<Rightarrow> path \<Rightarrow> ustr \<Rightarrow> ('x, unit) search" where
  "upsert_source fault p fp = sql_exec fault (\<lambda>d. d\<lparr> ix_sources :=
     upsert p \<lparr> sr_fingerprint = fp, sr_embedded = None \<rparr> (\<lambda>old. old\<lparr> sr_fingerprint := fp \<rparr>) (ix_sources d) \<rparr>)"

definition delete_source :: "sql_fault \<Rightarrow> path \<Rightarrow> ('x, unit) search" where
  "delete_source fault p =
     bindE (sql_exec fault (delete_chunks p)) (\<lambda>_.
     bindE (sql_exec fault (delete_embeddings p)) (\<lambda>_.
     sql_exec fault (\<lambda>d. d\<lparr> ix_sources := filter (\<lambda>r. fst r \<noteq> p) (ix_sources d) \<rparr>)))"

section \<open>Synchronisation\<close>

text \<open>The loop over the notes that are there, and the loop over the known ones that are not.\<close>

fun sync_files :: "sql_fault \<Rightarrow> vault \<Rightarrow> (ustr \<rightharpoonup> ustr) \<Rightarrow> sync_stats \<Rightarrow> path list \<Rightarrow> ('x, sync_stats) search" where
  "sync_files fault files known stats [] = okE stats"
| "sync_files fault files known stats (p # ps) =
     (case fingerprint files p of
        None \<Rightarrow> sync_files fault files known stats ps
      | Some fp \<Rightarrow>
          if known p = Some fp
          then sync_files fault files known (stats\<lparr> ss_unchanged := ss_unchanged stats + 1 \<rparr>) ps
          else case nf_content (files p) of
              None \<Rightarrow> sync_files fault files known stats ps
            | Some content \<Rightarrow>
                bindE (index_file fault p content) (\<lambda>_.
                bindE (upsert_source fault p fp) (\<lambda>_.
                sync_files fault files known
                  (if known p \<noteq> None then stats\<lparr> ss_updated := ss_updated stats + 1 \<rparr>
                   else stats\<lparr> ss_added := ss_added stats + 1 \<rparr>) ps)))"

fun prune_sources :: "sql_fault \<Rightarrow> sync_stats \<Rightarrow> path list \<Rightarrow> ('x, sync_stats) search" where
  "prune_sources fault stats [] = okE stats"
| "prune_sources fault stats (k # ks) =
     bindE (delete_source fault k) (\<lambda>_.
     prune_sources fault (stats\<lparr> ss_removed := ss_removed stats + 1 \<rparr>) ks)"

definition known_sources :: "index_db \<Rightarrow> (ustr \<times> ustr) list" where
  "known_sources d = map (\<lambda>(p, r). (p, sr_fingerprint r)) (ix_sources d)"

text \<open>\<open>sync_vault_blocking\<close>; \<open>key_order\<close> is the order in which the map of the known notes is walked.\<close>

definition sync_vault :: "sql_fault \<Rightarrow> vault \<Rightarrow> (path list \<Rightarrow> path list) \<Rightarrow> path \<Rightarrow> fs_node
    \<Rightarrow> ('x, sync_stats) search" where
  "sync_vault fault files key_order dir tree =
     (let notes = collect_markdown dir tree in
      bindE (sql_query fault known_sources) (\<lambda>rows.
      bindE (sync_files fault files (map_of rows) sync_stats_default notes) (\<lambda>stats.
      prune_sources fault stats (filter (\<lambda>k. k \<notin> set notes) (key_order (map fst rows))))))"

end
