(* ===== verification/Search_Sync.thy ===== *)
theory Search_Sync
  imports Search_Index
begin

text \<open>
  What the synchronisation guarantees. A pass that succeeds leaves for every note exactly what
  \<open>synced_note\<close> says, from whatever the index held before; a pass that fails anywhere does not change what
  the next successful one will leave; and a second pass finds nothing to do.
\<close>

section \<open>What the index holds of a note\<close>

definition rows_of :: "path \<Rightarrow> index_db \<Rightarrow> passage list" where
  "rows_of p d = filter (\<lambda>r. pg_path r = p) (ix_chunks d)"

definition emb_rows :: "path \<Rightarrow> index_db \<Rightarrow> ((ustr \<times> nat) \<times> embedding_row) list" where
  "emb_rows p d = filter (\<lambda>r. fst (fst r) = p) (ix_embeddings d)"

definition note_rows :: "path \<Rightarrow> ustr \<Rightarrow> passage list" where
  "note_rows p content = map (chunk_row p (note_title p content)) (chunk_markdown content DEFAULT_CHUNK_CHARS)"

definition source_fp :: "index_db \<Rightarrow> path \<Rightarrow> ustr option" where
  "source_fp d p = map_option sr_fingerprint (map_of (ix_sources d) p)"

text \<open>Its record, its passages and its vectors.\<close>

record note_state =
  ns_source :: "source_row option"
  ns_rows :: "passage list"
  ns_vectors :: "((ustr \<times> nat) \<times> embedding_row) list"

definition note_state :: "path \<Rightarrow> index_db \<Rightarrow> note_state" where
  "note_state p d = \<lparr> ns_source = map_of (ix_sources d) p, ns_rows = rows_of p d, ns_vectors = emb_rows p d \<rparr>"

lemma note_state_simps [simp]:
  "ns_source (note_state p d) = map_of (ix_sources d) p" "ns_rows (note_state p d) = rows_of p d"
  "ns_vectors (note_state p d) = emb_rows p d"
  by (simp_all add: note_state_def)

lemma note_state_eq: "s = t \<longleftrightarrow> ns_source s = ns_source t \<and> ns_rows s = ns_rows t \<and> ns_vectors s = ns_vectors t"
  for s t :: note_state
  by (cases s; cases t) simp

section \<open>What a pass leaves of a note\<close>

text \<open>A listed note whose fingerprint and text can be read and whose recorded fingerprint is another one.\<close>

definition changed_note :: "vault \<Rightarrow> path \<Rightarrow> source_row option \<Rightarrow> (ustr \<times> ustr) option" where
  "changed_note files p src = (case (fingerprint files p, nf_content (files p)) of
     (Some fp, Some content) \<Rightarrow> if map_option sr_fingerprint src = Some fp then None else Some (fp, content)
   | _ \<Rightarrow> None)"

definition recorded_row :: "ustr \<Rightarrow> source_row option \<Rightarrow> source_row" where
  "recorded_row fp src = (case src of None \<Rightarrow> \<lparr> sr_fingerprint = fp, sr_embedded = None \<rparr>
     | Some row \<Rightarrow> row\<lparr> sr_fingerprint := fp \<rparr>)"

definition indexed_note :: "vault \<Rightarrow> path \<Rightarrow> note_state \<Rightarrow> note_state" where
  "indexed_note files p s = (case changed_note files p (ns_source s) of None \<Rightarrow> s
     | Some (fp, content) \<Rightarrow> s\<lparr> ns_source := Some (recorded_row fp (ns_source s)), ns_rows := note_rows p content \<rparr>)"

definition dropped_note :: "note_state \<Rightarrow> note_state" where
  "dropped_note s = (if ns_source s = None then s else \<lparr> ns_source = None, ns_rows = [], ns_vectors = [] \<rparr>)"

text \<open>The whole pass: a changed note is indexed anew and recorded, a recorded one that is no longer listed
  is dropped, and everything else stays as it is.\<close>

definition synced_note :: "vault \<Rightarrow> path list \<Rightarrow> path \<Rightarrow> note_state \<Rightarrow> note_state" where
  "synced_note files notes p s = (if p \<in> set notes then indexed_note files p s else dropped_note s)"

lemma recorded_row_fp: "sr_fingerprint (recorded_row fp src) = fp"
  by (simp add: recorded_row_def split: option.split)

lemma recorded_row_again [simp]: "recorded_row fp (Some (recorded_row fp src)) = recorded_row fp src"
  by (simp add: recorded_row_def split: option.split)

lemma changed_note_fp: "changed_note files p src = Some (fp, content)
    \<Longrightarrow> fingerprint files p = Some fp \<and> nf_content (files p) = Some content \<and> map_option sr_fingerprint src \<noteq> Some fp"
  by (cases src) (auto simp: changed_note_def split: option.splits if_splits)

lemma changed_note_done: "changed_note files p src = Some (fp, content) \<Longrightarrow> changed_note files p (Some (recorded_row fp src')) = None"
  by (cases src) (auto simp: changed_note_def recorded_row_fp split: option.splits if_splits)

lemma synced_note_twice: "synced_note files notes p (synced_note files notes p s) = synced_note files notes p s"
  by (auto simp: synced_note_def indexed_note_def dropped_note_def changed_note_done split: option.splits)

section \<open>Steps on the database\<close>

lemma sql_exec_triple:
  assumes "\<And>d. P d \<Longrightarrow> Q (f d)" "\<And>d. P d \<Longrightarrow> E d"
  shows "outE (\<lambda>w. P (iw_db w)) (sql_exec fault f) (\<lambda>_ w. Q (iw_db w)) (\<lambda>_ w. E (iw_db w))"
  using assms by (auto simp: outE_def sql_exec_def sql_def Let_def split: option.splits)

lemma sql_query_triple:
  "outE (\<lambda>w. P (iw_db w)) (sql_query fault g) (\<lambda>x w. P (iw_db w) \<and> x = g (iw_db w)) (\<lambda>_ w. P (iw_db w))"
  by (auto simp: outE_def sql_query_def sql_def Let_def split: option.splits)

lemma rows_of_delete [simp]:
  "rows_of q (delete_chunks p d) = (if q = p then [] else rows_of q d)"
  by (auto simp: rows_of_def delete_chunks_def filter_empty_conv intro!: filter_cong)

lemma rows_of_append [simp]:
  "rows_of q (d\<lparr> ix_chunks := ix_chunks d @ [r] \<rparr>) = rows_of q d @ (if pg_path r = q then [r] else [])"
  by (simp add: rows_of_def)

lemma index_frames [simp]:
  "ix_sources (delete_chunks p d) = ix_sources d" "ix_embeddings (delete_chunks p d) = ix_embeddings d"
  "ix_sources (delete_embeddings p d) = ix_sources d" "ix_chunks (delete_embeddings p d) = ix_chunks d"
  by (simp_all add: delete_chunks_def delete_embeddings_def)

text \<open>Rebuilding the rows of one note: nothing else changes, whether it succeeds or fails.\<close>

definition same_but :: "path \<Rightarrow> index_db \<Rightarrow> index_db \<Rightarrow> bool" where
  "same_but p d0 d \<longleftrightarrow> ix_sources d = ix_sources d0 \<and> ix_embeddings d = ix_embeddings d0
     \<and> (\<forall>q. q \<noteq> p \<longrightarrow> rows_of q d = rows_of q d0)"

lemma insert_chunks_triple:
  "(\<forall>r \<in> set rs. pg_path r = p) \<Longrightarrow>
   outE (\<lambda>w. same_but p d0 (iw_db w) \<and> rows_of p (iw_db w) = pre) (insert_chunks fault rs)
     (\<lambda>_ w. same_but p d0 (iw_db w) \<and> rows_of p (iw_db w) = pre @ rs) (\<lambda>_ w. same_but p d0 (iw_db w))"
proof (induction rs arbitrary: pre)
  case Nil
  then show ?case by (auto intro: outE_okE)
next
  case (Cons r rs)
  show ?case unfolding insert_chunks.simps
  proof (rule outE_bind)
    show "outE (\<lambda>w. same_but p d0 (iw_db w) \<and> rows_of p (iw_db w) = pre)
        (sql_exec fault (\<lambda>d. d\<lparr> ix_chunks := ix_chunks d @ [r] \<rparr>))
        (\<lambda>_ w. same_but p d0 (iw_db w) \<and> rows_of p (iw_db w) = pre @ [r]) (\<lambda>_ w. same_but p d0 (iw_db w))"
      by (rule sql_exec_triple) (use Cons.prems in \<open>auto simp: same_but_def\<close>)
  qed (use Cons.IH [of "pre @ [r]"] Cons.prems in simp)
qed

lemma index_file_triple:
  "outE (\<lambda>w. same_but p d0 (iw_db w)) (index_file fault p content)
     (\<lambda>_ w. same_but p d0 (iw_db w) \<and> rows_of p (iw_db w) = note_rows p content) (\<lambda>_ w. same_but p d0 (iw_db w))"
proof -
  have "outE (\<lambda>w. same_but p d0 (iw_db w)) (sql_exec fault (delete_chunks p))
      (\<lambda>_ w. same_but p d0 (iw_db w) \<and> rows_of p (iw_db w) = []) (\<lambda>_ w. same_but p d0 (iw_db w))"
    by (rule sql_exec_triple) (auto simp: same_but_def)
  moreover have "outE (\<lambda>w. same_but p d0 (iw_db w) \<and> rows_of p (iw_db w) = [])
      (insert_chunks fault (note_rows p content))
      (\<lambda>_ w. same_but p d0 (iw_db w) \<and> rows_of p (iw_db w) = note_rows p content) (\<lambda>_ w. same_but p d0 (iw_db w))"
    using insert_chunks_triple [of "note_rows p content" p d0 "[]"] by (simp add: note_rows_def chunk_row_def)
  ultimately show ?thesis unfolding index_file_def Let_def note_rows_def by (rule outE_bind)
qed



text \<open>The note has been indexed and its fingerprint recorded, and nothing else has changed.\<close>

lemma note_triple:
  "outE (\<lambda>w. iw_db w = d0) (bindE (index_file fault p content) (\<lambda>_. upsert_source fault p fp) :: ('x, unit) search)
     (\<lambda>_ w. (\<forall>q. note_state q (iw_db w) = (if q = p then (note_state p d0)\<lparr> ns_source := Some (recorded_row fp (map_of (ix_sources d0) p)),
        ns_rows := note_rows p content \<rparr> else note_state q d0)))
     (\<lambda>_ w. same_but p d0 (iw_db w))"
proof (rule outE_bind)
  show "outE (\<lambda>w. iw_db w = d0) (index_file fault p content :: ('x, unit) search)
      (\<lambda>_ w. same_but p d0 (iw_db w) \<and> rows_of p (iw_db w) = note_rows p content) (\<lambda>_ w. same_but p d0 (iw_db w))"
    by (rule outE_conseq [OF index_file_triple]) (auto simp: same_but_def)
  show "outE (\<lambda>w. same_but p d0 (iw_db w) \<and> rows_of p (iw_db w) = note_rows p content)
      (upsert_source fault p fp :: ('x, unit) search)
      (\<lambda>_ w. (\<forall>q. note_state q (iw_db w) = (if q = p then (note_state p d0)\<lparr> ns_source := Some (recorded_row fp (map_of (ix_sources d0) p)),
        ns_rows := note_rows p content \<rparr> else note_state q d0)))
      (\<lambda>_ w. same_but p d0 (iw_db w))" for x :: unit
    unfolding upsert_source_def
    by (rule sql_exec_triple)
      (auto simp: same_but_def note_state_eq rows_of_def emb_rows_def table_simps recorded_row_def split: option.splits)
qed

section \<open>The loop over the notes that are there\<close>

text \<open>Since \<open>s0\<close> the notes of \<open>S\<close> have been gone through.\<close>

definition gone_through :: "vault \<Rightarrow> (path \<Rightarrow> note_state) \<Rightarrow> path set \<Rightarrow> index_db \<Rightarrow> bool" where
  "gone_through files s0 S d \<longleftrightarrow> (\<forall>q. note_state q d = (if q \<in> S then indexed_note files q (s0 q) else s0 q))"

text \<open>The loop was stopped at \<open>p\<close>, a changed note whose rows may be anything by now.\<close>

definition stopped_at :: "vault \<Rightarrow> (path \<Rightarrow> note_state) \<Rightarrow> path set \<Rightarrow> path \<Rightarrow> index_db \<Rightarrow> bool" where
  "stopped_at files s0 S p d \<longleftrightarrow> p \<notin> S \<and> changed_note files p (ns_source (s0 p)) \<noteq> None
     \<and> ns_source (note_state p d) = ns_source (s0 p) \<and> ns_vectors (note_state p d) = ns_vectors (s0 p)
     \<and> (\<forall>q. q \<noteq> p \<longrightarrow> note_state q d = (if q \<in> S then indexed_note files q (s0 q) else s0 q))"

lemma sync_files_step:
  "sync_files fault files known stats (p # ps) = (case changed_note files p src of
      None \<Rightarrow> sync_files fault files known (if fingerprint files p \<noteq> None \<and> known p = fingerprint files p
        then stats\<lparr> ss_unchanged := ss_unchanged stats + 1 \<rparr> else stats) ps
    | Some (fp, content) \<Rightarrow> bindE (bindE (index_file fault p content) (\<lambda>_. upsert_source fault p fp))
        (\<lambda>_. sync_files fault files known (if known p \<noteq> None then stats\<lparr> ss_updated := ss_updated stats + 1 \<rparr>
           else stats\<lparr> ss_added := ss_added stats + 1 \<rparr>) ps))"
  if "known p = map_option sr_fingerprint src"
  using that by (auto simp: changed_note_def bindE_assoc split: option.splits)

lemma outE_from_db: "(\<And>d. P d \<Longrightarrow> outE (\<lambda>w. iw_db w = d) m Q E) \<Longrightarrow> outE (\<lambda>w. P (iw_db w)) m Q E"
  unfolding outE_def by (auto split: prod.splits sum.splits)

lemma sync_files_triple:
  assumes "\<And>p. known p = map_option sr_fingerprint (ns_source (s0 p))"
  shows "outE (\<lambda>w. gone_through files s0 S (iw_db w)) (sync_files fault files known stats ps :: ('x, sync_stats) search)
      (\<lambda>_ w. gone_through files s0 (S \<union> set ps) (iw_db w))
      (\<lambda>_ w. distinct ps \<and> S \<inter> set ps = {} \<longrightarrow> (\<exists>T p. T \<subseteq> S \<union> set ps \<and> p \<in> set ps \<and> stopped_at files s0 T p (iw_db w)))"
proof (induction ps arbitrary: stats S)
  case Nil
  then show ?case by (auto intro!: outE_okE)
next
  case (Cons p ps)
  let ?E = "\<lambda>_ w. distinct (p # ps) \<and> S \<inter> set (p # ps) = {}
    \<longrightarrow> (\<exists>T q. T \<subseteq> S \<union> set (p # ps) \<and> q \<in> set (p # ps) \<and> stopped_at files s0 T q (iw_db w))"
  have rest: "outE (\<lambda>w. gone_through files s0 (insert p S) (iw_db w)) (sync_files fault files known stats' ps :: ('x, sync_stats) search)
      (\<lambda>_ w. gone_through files s0 (S \<union> set (p # ps)) (iw_db w)) ?E" for stats'
  proof (rule outE_conseq [OF Cons.IH [of "insert p S"]])
    show "gone_through files s0 (S \<union> set (p # ps)) (iw_db w)" if "gone_through files s0 (insert p S \<union> set ps) (iw_db w)"
      for w :: "'x index_world"
      using that by simp
    show "?E e w" if stopped: "distinct ps \<and> insert p S \<inter> set ps = {}
        \<longrightarrow> (\<exists>T q. T \<subseteq> insert p S \<union> set ps \<and> q \<in> set ps \<and> stopped_at files s0 T q (iw_db w))"
      for e :: search_error and w :: "'x index_world"
    proof
      assume "distinct (p # ps) \<and> S \<inter> set (p # ps) = {}"
      then obtain T q where "T \<subseteq> insert p S \<union> set ps" "q \<in> set ps" "stopped_at files s0 T q (iw_db w)"
        using stopped by auto
      then show "\<exists>T q. T \<subseteq> S \<union> set (p # ps) \<and> q \<in> set (p # ps) \<and> stopped_at files s0 T q (iw_db w)"
        by (intro exI [of _ T] exI [of _ q]) auto
    qed
  qed
  note step = sync_files_step [of known p "ns_source (s0 p)", OF assms]
  show ?case
  proof (cases "changed_note files p (ns_source (s0 p))")
    case None
    then have "gone_through files s0 S d \<Longrightarrow> gone_through files s0 (insert p S) d" for d
      by (auto simp: gone_through_def indexed_note_def)
    then show ?thesis unfolding step None option.case by (rule outE_conseq [OF rest])
  next
    case (Some c)
    obtain fp content where c: "c = (fp, content)" by (cases c)
    note changed = Some [unfolded c]
    show ?thesis unfolding step changed option.case prod.case
    proof (rule outE_bind [OF _ rest])
      show "outE (\<lambda>w. gone_through files s0 S (iw_db w))
          (bindE (index_file fault p content) (\<lambda>_. upsert_source fault p fp) :: ('x, unit) search)
          (\<lambda>_ w. gone_through files s0 (insert p S) (iw_db w)) ?E"
      proof (rule outE_from_db, rule outE_conseq [OF note_triple])
        fix d :: index_db and w :: "'x index_world"
        assume d: "gone_through files s0 S d"
        then have q: "note_state q d = (if q \<in> S then indexed_note files q (s0 q) else s0 q)" for q
          by (simp add: gone_through_def)
        show "gone_through files s0 (insert p S) (iw_db w)"
          if "\<forall>q. note_state q (iw_db w) = (if q = p then (note_state p d)\<lparr> ns_source := Some (recorded_row fp (map_of (ix_sources d) p)),
            ns_rows := note_rows p content \<rparr> else note_state q d)"
          using that q changed q [of p, unfolded note_state_eq]
          by (auto simp: gone_through_def indexed_note_def note_state_eq)
        show "?E e w" if "same_but p d (iw_db w)" for e
        proof (intro impI exI conjI)
          assume "distinct (p # ps) \<and> S \<inter> set (p # ps) = {}"
          then have "p \<notin> S" by auto
          with that q [of p] show "stopped_at files s0 S p (iw_db w)"
            using changed q by (auto simp: stopped_at_def same_but_def note_state_eq emb_rows_def)
        qed auto
      qed auto
    qed
  qed
qed


section \<open>Pruning\<close>

text \<open>A note whose removal may have stopped between its statements.\<close>

definition half_dropped :: "note_state \<Rightarrow> note_state \<Rightarrow> bool" where
  "half_dropped s t \<longleftrightarrow> t = \<lparr> ns_source = None, ns_rows = [], ns_vectors = [] \<rparr>
     \<or> ns_source t = ns_source s \<and> (ns_rows t = ns_rows s \<or> ns_rows t = []) \<and> (ns_vectors t = ns_vectors s \<or> ns_vectors t = [])"

lemma half_dropped_refl: "half_dropped s s"
  by (simp add: half_dropped_def)

lemma half_dropped_trans: "half_dropped s t \<Longrightarrow> half_dropped t u \<Longrightarrow> half_dropped s u"
  by (auto simp: half_dropped_def note_state_eq)

abbreviation forgotten :: note_state where
  "forgotten \<equiv> \<lparr> ns_source = None, ns_rows = [], ns_vectors = [] \<rparr>"

lemma map_of_filter_keys: "map_of (filter (\<lambda>r. fst r \<noteq> k) t) q = (if q = k then None else map_of t q)"
  by (induction t) auto

lemma emb_rows_delete: "emb_rows q (delete_embeddings p d) = (if q = p then [] else emb_rows q d)"
  by (auto simp: emb_rows_def delete_embeddings_def filter_empty_conv intro!: filter_cong)

lemma note_state_deletes:
  "note_state q (delete_chunks k d) = (if q = k then (note_state q d)\<lparr> ns_rows := [] \<rparr> else note_state q d)"
  "note_state q (delete_embeddings k d) = (if q = k then (note_state q d)\<lparr> ns_vectors := [] \<rparr> else note_state q d)"
  "note_state q (d\<lparr> ix_sources := filter (\<lambda>r. fst r \<noteq> k) (ix_sources d) \<rparr>)
     = (if q = k then (note_state q d)\<lparr> ns_source := None \<rparr> else note_state q d)"
  using emb_rows_delete [of q k d] rows_of_delete [of q k d]
  by (auto simp: note_state_eq map_of_filter_keys) (auto simp: emb_rows_def rows_of_def)

lemma delete_source_triple:
  "outE (\<lambda>w. iw_db w = d0) (delete_source fault k :: ('x, unit) search)
     (\<lambda>_ w. \<forall>q. note_state q (iw_db w) = (if q = k then forgotten else note_state q d0))
     (\<lambda>_ w. \<forall>q. if q = k then half_dropped (note_state q d0) (note_state q (iw_db w)) else note_state q (iw_db w) = note_state q d0)"
    (is "outE _ _ ?Q ?E")
  unfolding delete_source_def
proof (intro outE_bind)
  let ?d = "delete_embeddings k (delete_chunks k d0)"
  have gone: "note_state q (?d\<lparr> ix_sources := filter (\<lambda>r. fst r \<noteq> k) (ix_sources ?d) \<rparr>) = (if q = k then forgotten else note_state q d0)" for q
    by (simp only: note_state_deletes split: if_split) (simp add: note_state_def)
  show "outE (\<lambda>w. iw_db w = d0) (sql_exec fault (delete_chunks k) :: ('x, unit) search)
      (\<lambda>_ w. iw_db w = delete_chunks k d0) ?E"
    by (rule sql_exec_triple) (auto simp: half_dropped_refl)
  show "outE (\<lambda>w. iw_db w = delete_chunks k d0) (sql_exec fault (delete_embeddings k) :: ('x, unit) search)
      (\<lambda>_ w. iw_db w = delete_embeddings k (delete_chunks k d0)) ?E" for x :: unit
    by (rule sql_exec_triple) (auto simp: half_dropped_def note_state_deletes)
  show "outE (\<lambda>w. iw_db w = delete_embeddings k (delete_chunks k d0))
      (sql_exec fault (\<lambda>d. d\<lparr> ix_sources := filter (\<lambda>r. fst r \<noteq> k) (ix_sources d) \<rparr>) :: ('x, unit) search) ?Q ?E" for x y :: unit
    by (rule sql_exec_triple) (simp only: gone, simp, simp add: half_dropped_def note_state_deletes)
qed

lemma prune_sources_triple:
  "outE (\<lambda>w. iw_db w = d0) (prune_sources fault stats ks :: ('x, sync_stats) search)
     (\<lambda>_ w. \<forall>q. note_state q (iw_db w) = (if q \<in> set ks then forgotten else note_state q d0))
     (\<lambda>_ w. \<forall>q. if q \<in> set ks then half_dropped (note_state q d0) (note_state q (iw_db w)) else note_state q (iw_db w) = note_state q d0)"
proof (induction ks arbitrary: stats d0)
  case Nil
  then show ?case by (auto intro!: outE_okE)
next
  case (Cons k ks)
  let ?Q = "\<lambda>_ w. \<forall>q. note_state q (iw_db w) = (if q \<in> set (k # ks) then forgotten else note_state q d0)"
  let ?E = "\<lambda>_ w. \<forall>q. if q \<in> set (k # ks) then half_dropped (note_state q d0) (note_state q (iw_db w))
    else note_state q (iw_db w) = note_state q d0"
  show ?case unfolding prune_sources.simps
  proof (rule outE_bind)
    show "outE (\<lambda>w. iw_db w = d0) (delete_source fault k :: ('x, unit) search)
        (\<lambda>_ w. \<forall>q. note_state q (iw_db w) = (if q = k then forgotten else note_state q d0)) ?E"
      by (rule outE_conseq [OF delete_source_triple]) (auto simp: half_dropped_refl split: if_splits)
    show "outE (\<lambda>w. \<forall>q. note_state q (iw_db w) = (if q = k then forgotten else note_state q d0))
        (prune_sources fault (stats\<lparr> ss_removed := ss_removed stats + 1 \<rparr>) ks :: ('x, sync_stats) search) ?Q ?E" for x :: unit
    proof (rule outE_from_db, rule outE_conseq [OF Cons.IH])
      fix d :: index_db and w :: "'x index_world"
      assume d: "\<forall>q. note_state q d = (if q = k then forgotten else note_state q d0)"
      show "?Q r w" if "\<forall>q. note_state q (iw_db w) = (if q \<in> set ks then forgotten else note_state q d)" for r :: sync_stats
        using that d by auto
      have half: "half_dropped (note_state q d0) (note_state q d)" for q
        using d by (simp add: half_dropped_refl half_dropped_def)
      show "?E e w" if w: "\<forall>q. if q \<in> set ks then half_dropped (note_state q d) (note_state q (iw_db w))
          else note_state q (iw_db w) = note_state q d" for e :: search_error
      proof
        fix q
        show "if q \<in> set (k # ks) then half_dropped (note_state q d0) (note_state q (iw_db w))
            else note_state q (iw_db w) = note_state q d0"
          using w [rule_format, of q] d [rule_format, of q] half_dropped_trans [OF half [of q]] half [of q]
          by (auto split: if_splits)
      qed
    qed auto
  qed
qed

section \<open>The pass\<close>

text \<open>A pass that was cut short has done all of its work on a note or has not touched its record; and only
  the rows of notes whose record it means to change can be other than before.\<close>

definition partly_synced :: "vault \<Rightarrow> path list \<Rightarrow> path \<Rightarrow> note_state \<Rightarrow> note_state \<Rightarrow> bool" where
  "partly_synced files notes p s t \<longleftrightarrow> t = synced_note files notes p s
     \<or> ns_source t = ns_source s \<and> (p \<in> set notes \<longrightarrow> ns_vectors t = ns_vectors s)
       \<and> (ns_source (synced_note files notes p s) = ns_source s \<longrightarrow> t = s)"

lemma partly_synced_refl: "partly_synced files notes p s s"
  by (simp add: partly_synced_def)

lemma changed_note_source:
  assumes "changed_note files p (ns_source s) \<noteq> None"
  shows "ns_source (indexed_note files p s) \<noteq> ns_source s"
proof
  assume a: "ns_source (indexed_note files p s) = ns_source s"
  obtain fp content where c: "changed_note files p (ns_source s) = Some (fp, content)" using assms by auto
  then have "Some (recorded_row fp (ns_source s)) = ns_source s" using a by (simp add: indexed_note_def)
  then have "map_option sr_fingerprint (ns_source s) = Some fp" by (metis option.simps(9) recorded_row_fp)
  then show False using changed_note_fp [OF c] by simp
qed

lemma synced_source_iff:
  "ns_source (synced_note files notes p s) = ns_source s \<longleftrightarrow> synced_note files notes p s = s"
proof
  assume a: "ns_source (synced_note files notes p s) = ns_source s"
  show "synced_note files notes p s = s"
  proof (cases "p \<in> set notes")
    case True
    then have "changed_note files p (ns_source s) = None"
      using a changed_note_source [of files p s] by (simp only: synced_note_def if_True) blast
    then show ?thesis using True by (simp add: synced_note_def indexed_note_def)
  next
    case False
    then show ?thesis using a by (auto simp: synced_note_def dropped_note_def split: if_splits)
  qed
qed simp

text \<open>What a successful pass leaves depends on the record and, of a listed note, on its vectors alone.\<close>

lemma synced_note_depends:
  assumes "ns_source t = ns_source s" "p \<in> set notes \<longrightarrow> ns_vectors t = ns_vectors s"
    and "synced_note files notes p s \<noteq> s"
  shows "synced_note files notes p t = synced_note files notes p s"
  using assms by (auto simp: synced_note_def indexed_note_def dropped_note_def note_state_eq split: option.splits if_splits)

lemma partly_synced_synced: "partly_synced files notes p s t \<Longrightarrow> synced_note files notes p t = synced_note files notes p s"
  unfolding partly_synced_def by (metis synced_note_depends synced_note_twice synced_source_iff)

lemma partly_synced_trans:
  assumes "partly_synced files notes p s t" "partly_synced files notes p t u"
  shows "partly_synced files notes p s u"
proof (cases "u = synced_note files notes p t")
  case True
  then show ?thesis using partly_synced_synced [OF assms(1)] by (simp add: partly_synced_def)
next
  case False
  then have u: "ns_source u = ns_source t" "p \<in> set notes \<longrightarrow> ns_vectors u = ns_vectors t"
    "synced_note files notes p t = t \<longrightarrow> u = t"
    using assms(2) by (auto simp: partly_synced_def synced_source_iff)
  show ?thesis
  proof (cases "t = synced_note files notes p s")
    case True
    then have "u = t" using u(3) synced_note_twice by metis
    then show ?thesis using assms(1) by simp
  next
    case False
    then show ?thesis using assms(1) u synced_source_iff unfolding partly_synced_def by metis
  qed
qed

lemma known_sources_fp: "map_of (known_sources d) p = map_option sr_fingerprint (map_of (ix_sources d) p)"
  unfolding known_sources_def by (induction "ix_sources d" arbitrary: d) (auto simp: map_of_map)

lemma dropped_known: "ns_source (note_state q db) \<noteq> None \<longleftrightarrow> q \<in> set (keys (ix_sources db))"
  using map_of_keys [of "ix_sources db" q] by simp

lemma sync_vault_triple:
  assumes "set (key_order (keys (ix_sources db))) = set (keys (ix_sources db))"
    and "notes = collect_markdown dir tree"
  shows "outE (\<lambda>w. iw_db w = db) (sync_vault fault files key_order dir tree :: ('x, sync_stats) search)
     (\<lambda>_ w. \<forall>q. note_state q (iw_db w) = synced_note files notes q (note_state q db))
     (\<lambda>_ w. distinct notes \<longrightarrow> (\<forall>q. partly_synced files notes q (note_state q db) (note_state q (iw_db w))))"
    (is "outE _ _ ?Q ?E")
proof -
  let ?s0 = "\<lambda>q. note_state q db"
  let ?ks = "filter (\<lambda>k. k \<notin> set notes) (key_order (keys (ix_sources db)))"
  have ks: "q \<in> set ?ks \<longleftrightarrow> q \<notin> set notes \<and> ns_source (?s0 q) \<noteq> None" for q
    using assms(1) dropped_known [of q db] by auto
  have known: "map_of (known_sources db) p = map_option sr_fingerprint (ns_source (?s0 p))" for p
    by (simp add: known_sources_fp)
  have stopped: "partly_synced files notes q (?s0 q) (note_state q d)"
    if "T \<subseteq> set notes" "p \<in> set notes" "stopped_at files ?s0 T p d" for T p q d
  proof (cases "q = p")
    case True
    then have "ns_source (synced_note files notes q (?s0 q)) \<noteq> ns_source (?s0 q)"
      using that(2,3) changed_note_source [of files p "?s0 p"] by (simp only: stopped_at_def synced_note_def if_True) blast
    then show ?thesis using that(3) True by (simp add: partly_synced_def stopped_at_def)
  next
    case False
    then show ?thesis using that by (auto simp: stopped_at_def partly_synced_def synced_note_def)
  qed
  have loop: "outE (\<lambda>w. iw_db w = db) (sync_files fault files (map_of (known_sources db)) sync_stats_default notes :: ('x, sync_stats) search)
      (\<lambda>_ w. gone_through files ?s0 (set notes) (iw_db w)) ?E"
    by (rule outE_conseq [OF sync_files_triple [where S = "{}", OF known]])
      (use stopped in \<open>auto simp: gone_through_def\<close>)
  have prune: "outE (\<lambda>w. gone_through files ?s0 (set notes) (iw_db w)) (prune_sources fault stats ?ks :: ('x, sync_stats) search) ?Q ?E" for stats
  proof (rule outE_from_db, rule outE_conseq [OF prune_sources_triple])
    fix d :: index_db and w :: "'x index_world"
    assume "gone_through files ?s0 (set notes) d"
    then have d: "note_state q d = (if q \<in> set notes then synced_note files notes q (?s0 q) else ?s0 q)" for q
      by (simp add: gone_through_def synced_note_def)
    show "?Q r w" if w: "\<forall>q. note_state q (iw_db w) = (if q \<in> set ?ks then forgotten else note_state q d)" for r :: sync_stats
    proof
      fix q
      show "note_state q (iw_db w) = synced_note files notes q (?s0 q)"
        using w [rule_format, of q] d [of q] ks [of q] by (auto simp: synced_note_def dropped_note_def)
    qed
    show "?E e w" if w: "\<forall>q. if q \<in> set ?ks then half_dropped (note_state q d) (note_state q (iw_db w))
        else note_state q (iw_db w) = note_state q d" for e :: search_error
    proof (intro impI allI)
      fix q
      show "partly_synced files notes q (?s0 q) (note_state q (iw_db w))"
      proof (cases "q \<in> set ?ks")
        case True
        then have q: "q \<notin> set notes" "ns_source (?s0 q) \<noteq> None" "note_state q d = ?s0 q" using ks [of q] d [of q] by auto
        have "synced_note files notes q (?s0 q) = forgotten" using q(1,2) by (auto simp: synced_note_def dropped_note_def)
        then show ?thesis using w [rule_format, of q] True q by (auto simp: half_dropped_def partly_synced_def)
      next
        case False
        have "partly_synced files notes q (?s0 q) (synced_note files notes q (?s0 q))" by (simp add: partly_synced_def)
        then show ?thesis using False w [rule_format, of q] d [of q] by (cases "q \<in> set notes") (auto simp: partly_synced_refl)
      qed
    qed
  qed auto
  show ?thesis unfolding sync_vault_def Let_def assms(2) [symmetric]
  proof (rule outE_bind)
    show "outE (\<lambda>w. iw_db w = db) (sql_query fault known_sources :: ('x, _) search)
        (\<lambda>rows w. rows = known_sources db \<and> iw_db w = db) ?E"
      by (rule outE_conseq [OF sql_query_triple [where P = "\<lambda>d. d = db"]]) (auto simp: partly_synced_refl)
    fix rows :: "(ustr \<times> ustr) list"
    have keys: "map fst (known_sources db) = keys (ix_sources db)" by (auto simp: known_sources_def keys_def)
    show "outE (\<lambda>w. rows = known_sources db \<and> iw_db w = db)
        (bindE (sync_files fault files (map_of rows) sync_stats_default notes)
          (\<lambda>stats. prune_sources fault stats (filter (\<lambda>k. k \<notin> set notes) (key_order (map fst rows)))) :: ('x, sync_stats) search) ?Q ?E"
    proof (cases "rows = known_sources db")
      case True
      show ?thesis unfolding True keys using outE_bind [OF loop prune] by simp
    qed (simp add: outE_def)
  qed
qed

lemma sync_vault_ok:
  assumes "set (key_order (keys (ix_sources (iw_db w)))) = set (keys (ix_sources (iw_db w)))"
    and "sync_vault fault files key_order dir tree w = (Inr stats, w')"
  shows "note_state q (iw_db w') = synced_note files (collect_markdown dir tree) q (note_state q (iw_db w))"
proof -
  note t = sync_vault_triple [where key_order = key_order and db = "iw_db w", OF assms(1) refl]
  from outE_ok [OF t refl assms(2)] show ?thesis by blast
qed

lemma sync_vault_err:
  assumes "set (key_order (keys (ix_sources (iw_db w)))) = set (keys (ix_sources (iw_db w)))"
    and "sync_vault fault files key_order dir tree w = (Inl e, w')" "distinct (collect_markdown dir tree)"
  shows "partly_synced files (collect_markdown dir tree) q (note_state q (iw_db w)) (note_state q (iw_db w'))"
proof -
  note t = sync_vault_triple [where key_order = key_order and db = "iw_db w", OF assms(1) refl]
  from outE_err [OF t refl assms(2)] show ?thesis using assms(3) by blast
qed

section \<open>A small vault\<close>

definition demo_note :: ustr where "demo_note = lit ''# Hi''"

definition demo_tree :: fs_node where
  "demo_tree = FsDir (Some [(lit ''.git'', FsDir None), (lit ''a.md'', FsFile)])"

definition demo_vault :: vault where
  "demo_vault p = (if p = lit ''/v/a.md'' then \<lparr> nf_meta = Some (Some 7, 4), nf_content = Some demo_note \<rparr>
     else \<lparr> nf_meta = None, nf_content = None \<rparr>)"

definition demo_row :: passage where
  "demo_row = \<lparr> pg_path = lit ''/v/a.md'', pg_title = lit ''Hi'', pg_start_line = 0, pg_end_line = 0, pg_body = demo_note \<rparr>"

lemma demo_notes: "collect_markdown (lit ''/v'') demo_tree = [lit ''/v/a.md'']"
  by (simp add: demo_tree_def lit_def is_markdown_def path_join_def path_extension_def file_name_def
      extension_of_def to_ascii_lowercase_def to_ascii_lowercase_char_def)

lemma demo_fingerprint: "fingerprint demo_vault (lit ''/v/a.md'') = Some (lit ''7:4'')"
  by (simp add: fingerprint_def demo_vault_def show_nat.simps lit_def)

lemma demo_note_rows: "note_rows (lit ''/v/a.md'') demo_note = [demo_row]"
  by (simp add: note_rows_def chunk_markdown_def demo_note_def lit_def blank_line_def md_flush_def para_chars_def
      chunk_row_def DEFAULT_CHUNK_CHARS_def trim_def trim_start_def trim_end_def is_whitespace_def note_title_def
      first_heading_def str_lines_def Let_def strip_cr_def trim_start_matches_def demo_row_def)

definition demo_world :: "unit index_world" where
  "demo_world = \<lparr> iw_db = index_empty, iw_tick = 0, iw_ext = () \<rparr>"

definition demo_index :: index_db where
  "demo_index = \<lparr> ix_chunks = [demo_row],
     ix_sources = [(lit ''/v/a.md'', \<lparr> sr_fingerprint = lit ''7:4'', sr_embedded = None \<rparr>)], ix_embeddings = [] \<rparr>"

lemma demo_index_file: "index_file fault (lit ''/v/a.md'') demo_note = bindE (sql_exec fault (delete_chunks (lit ''/v/a.md'')))
    (\<lambda>_. insert_chunks fault [demo_row])"
  using demo_note_rows by (simp add: index_file_def note_rows_def Let_def)

lemma demo_sync: "sync_vault (\<lambda>_. None) demo_vault id (lit ''/v'') demo_tree demo_world
    = (Inr \<lparr> ss_added = 1, ss_updated = 0, ss_removed = 0, ss_unchanged = 0 \<rparr>, demo_world\<lparr> iw_db := demo_index, iw_tick := 4 \<rparr>)"
  by (simp add: sync_vault_def demo_notes demo_fingerprint demo_index_file bindE_assoc sql_query_def sql_exec_def sql_def
      bindE_def okE_def Let_def known_sources_def demo_world_def index_empty_def sync_stats_default_def demo_vault_def
      upsert_source_def delete_chunks_def demo_index_def)

section \<open>Freshness\<close>

text \<open>The index can be trusted: of a note whose recorded fingerprint is the present one it holds the chunks of
  the present text; and no passage belongs to a note that is not recorded.\<close>

definition trusted :: "vault \<Rightarrow> index_db \<Rightarrow> bool" where
  "trusted files d \<longleftrightarrow> (\<forall>p fp content. fingerprint files p = Some fp \<longrightarrow> nf_content (files p) = Some content
     \<longrightarrow> map_option sr_fingerprint (map_of (ix_sources d) p) = Some fp \<longrightarrow> rows_of p d = note_rows p content)"

definition owned :: "index_db \<Rightarrow> bool" where
  "owned d \<longleftrightarrow> (\<forall>p. rows_of p d \<noteq> [] \<longrightarrow> map_of (ix_sources d) p \<noteq> None)"

lemma trusted_empty: "trusted files index_empty" "owned index_empty"
  by (simp_all add: trusted_def owned_def index_empty_def rows_of_def)

text \<open>What the index claims of one note.\<close>

definition trusted_note :: "vault \<Rightarrow> path \<Rightarrow> note_state \<Rightarrow> bool" where
  "trusted_note files p s \<longleftrightarrow> (\<forall>fp content. fingerprint files p = Some fp \<longrightarrow> nf_content (files p) = Some content
     \<longrightarrow> map_option sr_fingerprint (ns_source s) = Some fp \<longrightarrow> ns_rows s = note_rows p content)"

lemma trusted_notes: "trusted files d \<longleftrightarrow> (\<forall>p. trusted_note files p (note_state p d))"
  by (simp add: trusted_def trusted_note_def)

lemma changed_note_None:
  assumes "changed_note files p src = None" "fingerprint files p = Some fp" "nf_content (files p) = Some content"
  shows "map_option sr_fingerprint src = Some fp"
  using assms by (cases src) (auto simp: changed_note_def split: if_splits)

lemma synced_note_trusted:
  assumes "trusted_note files p s"
  shows "trusted_note files p (synced_note files notes p s)"
proof (cases "p \<in> set notes")
  case True
  then show ?thesis using assms
    by (auto simp: synced_note_def indexed_note_def trusted_note_def split: option.split dest!: changed_note_fp)
next
  case False
  then show ?thesis using assms by (simp add: synced_note_def dropped_note_def trusted_note_def)
qed

lemma synced_note_fresh:
  assumes "trusted_note files p s" "p \<in> set notes" "fingerprint files p = Some fp" "nf_content (files p) = Some content"
  shows "ns_rows (synced_note files notes p s) = note_rows p content"
proof (cases "changed_note files p (ns_source s)")
  case None
  then show ?thesis using assms changed_note_None [OF None assms(3,4)]
    by (simp add: synced_note_def indexed_note_def trusted_note_def)
next
  case (Some c)
  then show ?thesis using assms(2,4) by (cases c) (auto simp: synced_note_def indexed_note_def dest: changed_note_fp)
qed

lemma synced_note_owned:
  assumes "ns_rows s \<noteq> [] \<longrightarrow> ns_source s \<noteq> None" "ns_rows (synced_note files notes p s) \<noteq> []"
  shows "ns_source (synced_note files notes p s) \<noteq> None \<and> p \<in> set notes"
  using assms by (auto simp: synced_note_def indexed_note_def dropped_note_def split: option.splits if_splits)



section \<open>Recovery\<close>

text \<open>A pass over the vault that fails, with any failing statement and any order of the known notes.\<close>

definition sync_fails :: "vault \<Rightarrow> path \<Rightarrow> fs_node \<Rightarrow> 'x index_world \<Rightarrow> 'x index_world \<Rightarrow> bool" where
  "sync_fails files dir tree w w' \<longleftrightarrow> (\<exists>fault key_order e.
     set (key_order (keys (ix_sources (iw_db w)))) = set (keys (ix_sources (iw_db w)))
     \<and> sync_vault fault files key_order dir tree w = (Inl e, w'))"

lemma sync_fails_partly:
  assumes "sync_fails files dir tree w w'" "distinct (collect_markdown dir tree)"
  shows "partly_synced files (collect_markdown dir tree) p (note_state p (iw_db w)) (note_state p (iw_db w'))"
proof -
  from assms(1) obtain fault key_order e where
    k: "set (key_order (keys (ix_sources (iw_db w)))) = set (keys (ix_sources (iw_db w)))"
    and f: "sync_vault fault files key_order dir tree w = (Inl e, w')" unfolding sync_fails_def by blast
  show ?thesis by (rule sync_vault_err [OF k f assms(2)])
qed



section \<open>A second pass\<close>

lemma sync_files_unchanged:
  "(\<forall>p \<in> set ps. nf_content (files p) \<noteq> None \<longrightarrow> fingerprint files p \<noteq> None \<longrightarrow> known p = fingerprint files p)
    \<Longrightarrow> sync_files fault files known stats ps = okE (stats\<lparr> ss_unchanged := ss_unchanged stats
        + length (filter (\<lambda>p. fingerprint files p \<noteq> None \<and> known p = fingerprint files p) ps) \<rparr>)"
proof (induction ps arbitrary: stats)
  case (Cons p ps)
  show ?case
  proof (cases "fingerprint files p \<noteq> None \<and> known p = fingerprint files p")
    case True
    then obtain fp where "fingerprint files p = Some fp" "known p = Some fp" by auto
    then show ?thesis using Cons by simp
  next
    case False
    then have skip: "sync_files fault files known stats (p # ps) = sync_files fault files known stats ps"
      using Cons.prems by (auto split: option.splits)
    have "\<forall>p \<in> set ps. nf_content (files p) \<noteq> None \<longrightarrow> fingerprint files p \<noteq> None \<longrightarrow> known p = fingerprint files p"
      using Cons.prems by simp
    note IH = Cons.IH [OF this, of stats]
    have "filter (\<lambda>p. fingerprint files p \<noteq> None \<and> known p = fingerprint files p) (p # ps)
        = filter (\<lambda>p. fingerprint files p \<noteq> None \<and> known p = fingerprint files p) ps"
      using False by (simp only: filter.simps if_False)
    then show ?thesis by (simp only: skip IH)
  qed
qed simp

text \<open>Idempotence: a pass over a vault that has not changed since a successful pass adds, updates and
  removes nothing, and leaves the index as it is.\<close>

theorem sync_vault_idempotent:
  assumes "sync_vault fault files key_order dir tree w = (Inr stats, w')"
    and "set (key_order (keys (ix_sources (iw_db w)))) = set (keys (ix_sources (iw_db w)))"
    and "set (key_order' (keys (ix_sources (iw_db w')))) = set (keys (ix_sources (iw_db w')))"
    and "fault' (iw_tick w') = None"
  shows "\<exists>n. sync_vault fault' files key_order' dir tree w'
      = (Inr \<lparr> ss_added = 0, ss_updated = 0, ss_removed = 0, ss_unchanged = n \<rparr>, w'\<lparr> iw_tick := Suc (iw_tick w') \<rparr>)"
proof -
  let ?notes = "collect_markdown dir tree"
  note ok = sync_vault_ok [OF assms(2,1)]
  have twice: "synced_note files ?notes p (note_state p (iw_db w')) = note_state p (iw_db w')" for p
    by (simp only: ok synced_note_twice)
  have "map_of (known_sources (iw_db w')) p = fingerprint files p"
    if p: "p \<in> set ?notes" "nf_content (files p) \<noteq> None" "fingerprint files p \<noteq> None" for p
  proof -
    have "changed_note files p (map_of (ix_sources (iw_db w')) p) = None"
      using twice [of p] p(1) changed_note_source [of files p "note_state p (iw_db w')"]
      by (simp only: synced_note_def if_True note_state_simps) blast
    then show ?thesis using p changed_note_None by (fastforce simp: known_sources_fp)
  qed
  then have "\<forall>p \<in> set ?notes. nf_content (files p) \<noteq> None \<longrightarrow> fingerprint files p \<noteq> None
      \<longrightarrow> map_of (known_sources (iw_db w')) p = fingerprint files p" by blast
  note un = sync_files_unchanged [OF this]
  have keys: "map fst (known_sources (iw_db w')) = keys (ix_sources (iw_db w'))" by (auto simp: known_sources_def keys_def)
  have "q \<in> set ?notes" if "q \<in> set (keys (ix_sources (iw_db w')))" for q
    using twice [of q] that dropped_known [of q "iw_db w'"]
    by (auto simp: synced_note_def dropped_note_def note_state_eq split: if_splits)
  then have "filter (\<lambda>k. k \<notin> set ?notes) (key_order' (keys (ix_sources (iw_db w')))) = []"
    using assms(3) by (auto simp: filter_empty_conv)
  then show ?thesis using assms(4) keys
    by (simp add: sync_vault_def sql_query_def sql_def bindE_def Let_def un okE_def sync_stats_default_def)
qed

theorem sync_vault_idempotent_witness:
  "\<exists>n. sync_vault (\<lambda>_. None) demo_vault id (lit ''/v'') demo_tree (demo_world\<lparr> iw_db := demo_index, iw_tick := 4 \<rparr>)
     = (Inr \<lparr> ss_added = 0, ss_updated = 0, ss_removed = 0, ss_unchanged = n \<rparr>, demo_world\<lparr> iw_db := demo_index, iw_tick := 5 \<rparr>)"
  using sync_vault_idempotent [OF demo_sync, of id "\<lambda>_. None"] by simp

section \<open>What a failing pass can leave for good\<close>

text \<open>
  Recovery is about passes over the same vault. A pass over another one prunes the notes of the first;
  when it fails between the deletions, the next pass over the first vault takes the note for unchanged
  although its chunks are deleted, and the note stays out of every search.
\<close>

lemma failed_prune_hides_note:
  "\<exists>w' stats. sync_vault (\<lambda>t. if t = 2 then Some [] else None) demo_vault id (lit ''/other'') (FsDir (Some []))
       (demo_world\<lparr> iw_db := demo_index \<rparr>) = (Inl (SearchBackend []), w')
     \<and> sync_vault (\<lambda>_. None) demo_vault id (lit ''/v'') demo_tree w' = (Inr stats, w'\<lparr> iw_tick := 4 \<rparr>)
     \<and> ss_unchanged stats = 1 \<and> rows_of (lit ''/v/a.md'') (iw_db w') = []"
  by (simp add: sync_vault_def demo_notes demo_fingerprint sql_query_def sql_exec_def sql_def
      bindE_def okE_def Let_def known_sources_def demo_world_def sync_stats_default_def delete_source_def
      delete_chunks_def demo_index_def rows_of_def demo_row_def)

text \<open>And a pass that fails after the first chunk of a new note has been inserted leaves that chunk without a
  record. When the note is deleted before the next pass, it is not among the known notes, so that its chunk
  is never pruned and search keeps finding it.\<close>

lemma orphan_rows_stay:
  "\<exists>w' stats. sync_vault (\<lambda>t. if t = 3 then Some [] else None) demo_vault id (lit ''/v'') demo_tree demo_world
       = (Inl (SearchBackend []), w')
     \<and> sync_vault (\<lambda>_. None) (\<lambda>_. \<lparr> nf_meta = None, nf_content = None \<rparr>) id (lit ''/v'') (FsDir (Some [])) w'
       = (Inr stats, w'\<lparr> iw_tick := 5 \<rparr>)
     \<and> ss_removed stats = 0 \<and> ix_chunks (iw_db w') = [demo_row] \<and> ix_sources (iw_db w') = []"
  by (simp add: sync_vault_def demo_notes demo_fingerprint demo_index_file bindE_assoc sql_query_def sql_exec_def sql_def
      bindE_def okE_def Let_def known_sources_def demo_world_def index_empty_def sync_stats_default_def demo_vault_def
      upsert_source_def delete_chunks_def)

end
