(* ===== verification/Rust_Ieee.thy ===== *)
theory Rust_Ieee
  imports Rust_Float "HOL-Library.Word"
begin

text \<open>
  The float arithmetic of the vector search: \<open>f32\<close> (cosine similarity) and \<open>f64\<close> (rank fusion). An
  operation computes the exact rational result and rounds it to nearest, ties to even, in its
  format; overflow gives an infinity and an undefined operation NaN, as IEEE 754 lays down. The two
  zeros are one value, which only a division by a negative zero could tell apart: the denominators
  of the source are sums and square roots and never negative zeros. An \<open>f32\<close> at rest is its bit
  pattern, which \<open>f32_value\<close> reads.
\<close>

record ieee_format =
  fm_precision :: nat
  fm_emin :: int
  fm_emax :: int

definition binary32 :: ieee_format where
  "binary32 = \<lparr> fm_precision = 24, fm_emin = -126, fm_emax = 127 \<rparr>"

definition binary64 :: ieee_format where
  "binary64 = \<lparr> fm_precision = 53, fm_emin = -1022, fm_emax = 1023 \<rparr>"

definition pow2 :: "int \<Rightarrow> rat" where
  "pow2 e = (if e \<ge> 0 then 2 ^ nat e else 1 / 2 ^ nat (- e))"

fun bit_len :: "nat \<Rightarrow> nat" where
  "bit_len n = (if n = 0 then 0 else Suc (bit_len (n div 2)))"

declare bit_len.simps [simp del]

text \<open>The exponent of the leading binary digit of a positive rational.\<close>

definition ilog2 :: "rat \<Rightarrow> int" where
  "ilog2 x = (case quotient_of x of (n, d) \<Rightarrow>
     let e = int (bit_len (nat n)) - int (bit_len (nat d)) in if pow2 e \<le> x then e else e - 1)"

definition round_half_even :: "rat \<Rightarrow> int" where
  "round_half_even x = (let k = \<lfloor>x\<rfloor>; r = x - of_int k in
     if r < 1 / 2 then k else if r > 1 / 2 then k + 1 else if even k then k else k + 1)"

definition quantum :: "ieee_format \<Rightarrow> int \<Rightarrow> int" where
  "quantum fmt e = max e (fm_emin fmt) - (int (fm_precision fmt) - 1)"

definition overflowing :: "ieee_format \<Rightarrow> rat \<Rightarrow> f64" where
  "overflowing fmt y = (if y \<ge> pow2 (fm_emax fmt + 1) then PosInf
     else if y \<le> - pow2 (fm_emax fmt + 1) then NegInf else Finite y)"

definition round_to :: "ieee_format \<Rightarrow> rat \<Rightarrow> f64" where
  "round_to fmt x = (if x = 0 then Finite 0
     else let q = quantum fmt (ilog2 \<bar>x\<bar>)
          in overflowing fmt (of_int (round_half_even (x / pow2 q)) * pow2 q))"

fun fadd :: "ieee_format \<Rightarrow> f64 \<Rightarrow> f64 \<Rightarrow> f64" where
  "fadd fmt (Finite a) (Finite b) = round_to fmt (a + b)"
| "fadd fmt NaN b = NaN"
| "fadd fmt a NaN = NaN"
| "fadd fmt PosInf NegInf = NaN"
| "fadd fmt NegInf PosInf = NaN"
| "fadd fmt PosInf b = PosInf"
| "fadd fmt NegInf b = NegInf"
| "fadd fmt a PosInf = PosInf"
| "fadd fmt a NegInf = NegInf"

text \<open>An infinity with the sign of a number that is not zero.\<close>

definition inf_of :: "bool \<Rightarrow> f64" where
  "inf_of positive = (if positive then PosInf else NegInf)"

fun fmul :: "ieee_format \<Rightarrow> f64 \<Rightarrow> f64 \<Rightarrow> f64" where
  "fmul fmt (Finite a) (Finite b) = round_to fmt (a * b)"
| "fmul fmt NaN b = NaN"
| "fmul fmt a NaN = NaN"
| "fmul fmt PosInf PosInf = PosInf"
| "fmul fmt PosInf NegInf = NegInf"
| "fmul fmt NegInf PosInf = NegInf"
| "fmul fmt NegInf NegInf = PosInf"
| "fmul fmt PosInf (Finite b) = (if b = 0 then NaN else inf_of (b > 0))"
| "fmul fmt NegInf (Finite b) = (if b = 0 then NaN else inf_of (b < 0))"
| "fmul fmt (Finite a) PosInf = (if a = 0 then NaN else inf_of (a > 0))"
| "fmul fmt (Finite a) NegInf = (if a = 0 then NaN else inf_of (a < 0))"

fun fdiv :: "ieee_format \<Rightarrow> f64 \<Rightarrow> f64 \<Rightarrow> f64" where
  "fdiv fmt (Finite a) (Finite b) =
     (if b \<noteq> 0 then round_to fmt (a / b) else if a = 0 then NaN else inf_of (a > 0))"
| "fdiv fmt NaN b = NaN"
| "fdiv fmt a NaN = NaN"
| "fdiv fmt PosInf (Finite b) = inf_of (b \<ge> 0)"
| "fdiv fmt NegInf (Finite b) = inf_of (b < 0)"
| "fdiv fmt (Finite a) b = Finite 0"
| "fdiv fmt a b = NaN"

fun isqrt :: "nat \<Rightarrow> nat" where
  "isqrt n = (if n = 0 then 0
     else let r = 2 * isqrt (n div 4) in if (r + 1) * (r + 1) \<le> n then r + 1 else r)"

declare isqrt.simps [simp del]

definition sqrt_half_even :: "rat \<Rightarrow> int" where
  "sqrt_half_even z = (let m = int (isqrt (nat \<lfloor>z\<rfloor>)); h = of_int m + 1 / 2 in
     if z < h * h then m else if z > h * h then m + 1 else if even m then m else m + 1)"

fun fsqrt :: "ieee_format \<Rightarrow> f64 \<Rightarrow> f64" where
  "fsqrt fmt (Finite x) = (if x < 0 then NaN else if x = 0 then Finite 0
     else let q = quantum fmt (ilog2 x div 2)
          in overflowing fmt (of_int (sqrt_half_even (x / pow2 (2 * q))) * pow2 q))"
| "fsqrt fmt PosInf = PosInf"
| "fsqrt fmt _ = NaN"

text \<open>\<open>n as f64\<close>.\<close>

definition f64_of_nat :: "nat \<Rightarrow> f64" where
  "f64_of_nat n = round_to binary64 (of_nat n)"

text \<open>The value of a 32-bit pattern: sign, eight exponent bits, 23 fraction bits.\<close>

definition f32_value :: "32 word \<Rightarrow> f64" where
  "f32_value w = (let e = uint (take_bit 8 (drop_bit 23 w)); m = uint (take_bit 23 w);
       s = (if bit w 31 then -1 else 1) in
     if e = 255 then (if m = 0 then inf_of (\<not> bit w 31) else NaN)
     else if e = 0 then Finite (s * of_int m * pow2 (-149))
     else Finite (s * of_int (2 ^ 23 + m) * pow2 (e - 150)))"

section \<open>The rounding does what it says\<close>

lemma pow2_pos [simp]: "pow2 e > 0"
  by (simp add: pow2_def)

lemma pow2_add: "pow2 (a + b) = pow2 a * pow2 b"
proof -
  have "pow2 e = 2 powi e" for e
    by (simp add: pow2_def power_int_def field_simps)
  then show ?thesis by (simp add: power_int_add)
qed

lemma bit_len_bounds: "n > 0 \<Longrightarrow> 2 ^ (bit_len n - 1) \<le> n \<and> n < 2 ^ bit_len n"
proof (induction n rule: bit_len.induct)
  case (1 n)
  show ?case
  proof (cases "n div 2 = 0")
    case True
    then have "n = 1" using "1.prems" by auto
    then show ?thesis by (simp add: bit_len.simps)
  next
    case False
    with 1 have IH: "2 ^ (bit_len (n div 2) - 1) \<le> n div 2" "n div 2 < 2 ^ bit_len (n div 2)" by auto
    have l: "bit_len n = Suc (bit_len (n div 2))" using "1.prems" by (simp add: bit_len.simps [of n])
    have "bit_len (n div 2) \<noteq> 0" using False by (simp add: bit_len.simps [of "n div 2"])
    then have "(2::nat) ^ bit_len (n div 2) = 2 * 2 ^ (bit_len (n div 2) - 1)"
      by (cases "bit_len (n div 2)") auto
    moreover have "c \<le> n div 2 \<Longrightarrow> n div 2 < d \<Longrightarrow> d = 2 * c \<Longrightarrow> d \<le> n \<and> n < 2 * d" for c d
      by presburger
    ultimately show ?thesis using IH unfolding l by (metis diff_Suc_1 power_Suc)
  qed
qed

lemma isqrt_correct: "isqrt n * isqrt n \<le> n \<and> n < (isqrt n + 1) * (isqrt n + 1)"
proof (induction n rule: isqrt.induct)
  case (1 n)
  show ?case
  proof (cases "n = 0")
    case True
    then show ?thesis by (simp add: isqrt.simps)
  next
    case False
    let ?m = "isqrt (n div 4)"
    have IH: "?m * ?m \<le> n div 4" "n div 4 < (?m + 1) * (?m + 1)" using 1 False by auto
    have lo: "(2 * ?m) * (2 * ?m) \<le> n" using IH(1) by simp
    have "n div 4 + 1 \<le> (?m + 1) * (?m + 1)" using IH(2) by simp
    then have "4 * (n div 4 + 1) \<le> 4 * ((?m + 1) * (?m + 1))" by (rule mult_le_mono2)
    then have hi: "n < (2 * ?m + 2) * (2 * ?m + 2)" by simp
    show ?thesis
      using lo hi False by (simp add: isqrt.simps [of n] Let_def)
  qed
qed

text \<open>Rounding moves a number by at most half a quantum, and never makes a NaN.\<close>

lemma round_half_even_error: "\<bar>of_int (round_half_even x) - x\<bar> \<le> 1 / 2"
proof -
  have "of_int \<lfloor>x\<rfloor> \<le> x" "x < of_int \<lfloor>x\<rfloor> + 1" by linarith+
  then show ?thesis
    by (auto simp: round_half_even_def Let_def abs_le_iff not_less not_le split: if_splits)
qed

lemma overflowing_not_NaN [simp]: "overflowing fmt y \<noteq> NaN"
  by (simp add: overflowing_def)

lemma round_to_not_NaN [simp]: "round_to fmt x \<noteq> NaN"
  by (simp add: round_to_def Let_def)

lemma round_to_error:
  assumes "round_to fmt x = Finite y"
  shows "\<bar>y - x\<bar> \<le> pow2 (quantum fmt (ilog2 \<bar>x\<bar>)) / 2"
proof (cases "x = 0")
  case True
  then show ?thesis using assms by (simp add: round_to_def less_imp_le)
next
  case False
  let ?p = "pow2 (quantum fmt (ilog2 \<bar>x\<bar>))"
  have y: "y = of_int (round_half_even (x / ?p)) * ?p"
    using assms False by (auto simp: round_to_def Let_def overflowing_def split: if_splits)
  have "x = x / ?p * ?p" using pow2_pos [of "quantum fmt (ilog2 \<bar>x\<bar>)"]
    by (simp del: pow2_pos)
  then have "y - x = (of_int (round_half_even (x / ?p)) - x / ?p) * ?p"
    by (simp only: y left_diff_distrib)
  then have "\<bar>y - x\<bar> = \<bar>of_int (round_half_even (x / ?p)) - x / ?p\<bar> * ?p"
    by (simp add: abs_mult less_imp_le)
  also have "\<dots> \<le> 1 / 2 * ?p"
    by (rule mult_right_mono [OF round_half_even_error]) (simp add: less_imp_le)
  finally show ?thesis by simp
qed

end
