(* ===== verification/Search_Vectors.thy ===== *)
theory Search_Vectors
  imports Search_Sync Rust_Ieee Llm
begin

text \<open>
  The dense-vector side of the index (\<open>engine/src/search/index.rs\<close>): which notes are pending, the
  embedding pass over them, the bytes of a vector, cosine similarity and the nearest-neighbour scan.
  The embedder is a function over a state of its own.
\<close>

unbundle bit_operations_syntax

section \<open>Vectors as bytes\<close>

text \<open>\<open>f32::to_le_bytes\<close> and \<open>from_le_bytes\<close>.\<close>

definition to_le_bytes :: "f32 \<Rightarrow> 8 word list" where
  "to_le_bytes w = [ucast w, ucast (drop_bit 8 w), ucast (drop_bit 16 w), ucast (drop_bit 24 w)]"

definition from_le_bytes :: "8 word \<Rightarrow> 8 word \<Rightarrow> 8 word \<Rightarrow> 8 word \<Rightarrow> f32" where
  "from_le_bytes a b c d = ucast a OR push_bit 8 (ucast b) OR push_bit 16 (ucast c) OR push_bit 24 (ucast d)"

definition encode_vector :: "f32 list \<Rightarrow> 8 word list" where
  "encode_vector v = concat (map to_le_bytes v)"

text \<open>The loop \<open>while i + 4 <= bytes.len()\<close>: an incomplete tail is dropped.\<close>

fun decode_vector :: "8 word list \<Rightarrow> f32 list" where
  "decode_vector (a # b # c # d # bytes) = from_le_bytes a b c d # decode_vector bytes"
| "decode_vector _ = []"

section \<open>Cosine similarity\<close>

fun cosine_loop :: "f64 \<Rightarrow> f64 \<Rightarrow> f64 \<Rightarrow> (f64 \<times> f64) list \<Rightarrow> f64 \<times> f64 \<times> f64" where
  "cosine_loop dot na nb [] = (dot, na, nb)"
| "cosine_loop dot na nb ((a, b) # rest) = cosine_loop
     (fadd binary32 dot (fmul binary32 a b))
     (fadd binary32 na (fmul binary32 a a))
     (fadd binary32 nb (fmul binary32 b b)) rest"

definition cosine_similarity :: "f32 list \<Rightarrow> f32 list \<Rightarrow> f64" where
  "cosine_similarity a b =
     (if length a \<noteq> length b \<or> a = [] then f64_zero
      else case cosine_loop f64_zero f64_zero f64_zero (zip (map f32_value a) (map f32_value b)) of (dot, na, nb) \<Rightarrow>
        if na = f64_zero \<or> nb = f64_zero then f64_zero
        else fdiv binary32 dot (fmul binary32 (fsqrt binary32 na) (fsqrt binary32 nb)))"

section \<open>The embedding pass\<close>

definition pending_paths :: "index_db \<Rightarrow> path list" where
  "pending_paths d = map fst (filter (\<lambda>(p, r). sr_embedded r \<noteq> Some (sr_fingerprint r)) (ix_sources d))"

definition pending_embedding_count :: "sql_fault \<Rightarrow> ('x, nat) search" where
  "pending_embedding_count fault = bindE (sql_query fault pending_paths) (\<lambda>ps. okE (length ps))"

definition read_and_chunk :: "vault \<Rightarrow> path \<Rightarrow> (ustr \<times> passage list) option" where
  "read_and_chunk files p = (case fingerprint files p of None \<Rightarrow> None
     | Some fp \<Rightarrow> (case nf_content (files p) of None \<Rightarrow> None
        | Some content \<Rightarrow>
            let title = note_title p content
            in Some (fp, map (chunk_row p title) (chunk_markdown content DEFAULT_CHUNK_CHARS))))"

text \<open>The loop over the rows with their index.\<close>

fun insert_embeddings :: "sql_fault \<Rightarrow> path \<Rightarrow> nat \<Rightarrow> (passage \<times> f32 list) list \<Rightarrow> ('x, unit) search" where
  "insert_embeddings fault p ix [] = okE ()"
| "insert_embeddings fault p ix ((c, v) # rows) =
     bindE (sql_exec fault (\<lambda>d. d\<lparr> ix_embeddings := ix_embeddings d
       @ [((p, ix), \<lparr> er_passage = c, er_vector = encode_vector v \<rparr>)] \<rparr>))
     (\<lambda>_. insert_embeddings fault p (ix + 1) rows)"

definition stamp :: "path \<Rightarrow> ustr \<Rightarrow> (ustr, source_row) table \<Rightarrow> (ustr, source_row) table" where
  "stamp p fp t = map (\<lambda>(q, r). (q, if q = p then r\<lparr> sr_embedded := Some fp \<rparr> else r)) t"

definition store_embeddings :: "sql_fault \<Rightarrow> path \<Rightarrow> ustr \<Rightarrow> (passage \<times> f32 list) list \<Rightarrow> ('x, unit) search" where
  "store_embeddings fault p fp rows =
     bindE (sql_exec fault (delete_embeddings p)) (\<lambda>_.
     bindE (insert_embeddings fault p 0 rows) (\<lambda>_.
     sql_exec fault (\<lambda>d. d\<lparr> ix_sources := stamp p fp (ix_sources d) \<rparr>)))"

text \<open>A call of the embedder.\<close>

definition call_embed :: "'x llm_embed \<Rightarrow> embed_request \<Rightarrow> 'x index_world
    \<Rightarrow> (llm_error + embed_response) \<times> 'x index_world" where
  "call_embed embedder request w = (case embedder request (iw_ext w) of (r, s) \<Rightarrow> (r, w\<lparr> iw_ext := s \<rparr>))"

fun embed_notes :: "sql_fault \<Rightarrow> vault \<Rightarrow> 'x llm_embed \<Rightarrow> ustr option \<Rightarrow> nat \<Rightarrow> path list \<Rightarrow> ('x, nat) search" where
  "embed_notes fault files embedder model embedded [] = okE embedded"
| "embed_notes fault files embedder model embedded (p # ps) =
     (case read_and_chunk files p of
        None \<Rightarrow> embed_notes fault files embedder model embedded ps
      | Some (fp, chunks) \<Rightarrow>
          if chunks = []
          then bindE (store_embeddings fault p fp []) (\<lambda>_. embed_notes fault files embedder model (embedded + 1) ps)
          else (\<lambda>w. case call_embed embedder \<lparr> eq_model = model, eq_input = map pg_body chunks \<rparr> w of
              (Inl e, w') \<Rightarrow> (Inr embedded, w')
            | (Inr r, w') \<Rightarrow>
                if length (es_vectors r) \<noteq> length chunks
                then embed_notes fault files embedder model embedded ps w'
                else bindE (store_embeddings fault p fp (zip chunks (es_vectors r)))
                  (\<lambda>_. embed_notes fault files embedder model (embedded + 1) ps) w'))"

definition embed_pending :: "sql_fault \<Rightarrow> vault \<Rightarrow> 'x llm_embed \<Rightarrow> ustr option \<Rightarrow> ('x, nat) search" where
  "embed_pending fault files embedder model =
     bindE (sql_query fault pending_paths) (embed_notes fault files embedder model 0)"

section \<open>Nearest neighbours\<close>

definition cmp_score_desc :: "(f64 \<times> 'a) \<Rightarrow> (f64 \<times> 'a) \<Rightarrow> ordering" where
  "cmp_score_desc a b = cmp_or_equal (fst b) (fst a)"

definition vector_search :: "f32 list \<Rightarrow> nat \<Rightarrow> index_db \<Rightarrow> passage list" where
  "vector_search query limit d =
     (let scored = filter (\<lambda>(score, _). \<not> f64_le score f64_zero)
        (map (\<lambda>(_, row). (cosine_similarity query (decode_vector (er_vector row)), er_passage row)) (ix_embeddings d))
      in map snd (take limit (sort_by cmp_score_desc scored)))"

section \<open>The bytes read back\<close>

lemma from_to_le_bytes: "from_le_bytes (ucast w) (ucast (drop_bit 8 w)) (ucast (drop_bit 16 w)) (ucast (drop_bit 24 w)) = w"
proof (rule bit_word_eqI)
  fix n assume "n < LENGTH(32)"
  then have n: "n < 32" by simp
  then consider "n < 8" | "8 \<le> n" "n < 16" | "16 \<le> n" "n < 24" | "24 \<le> n" by linarith
  then show "bit (from_le_bytes (ucast w) (ucast (drop_bit 8 w)) (ucast (drop_bit 16 w)) (ucast (drop_bit 24 w))) n = bit w n"
    using n by cases (auto simp: from_le_bytes_def bit_or_iff bit_push_bit_iff bit_ucast_iff bit_drop_bit_eq)
qed

text \<open>A stored vector is read back bit for bit.\<close>

theorem decode_encode_vector: "decode_vector (encode_vector v) = v"
  by (induction v) (simp_all add: encode_vector_def to_le_bytes_def from_to_le_bytes)

lemma length_decode: "length (decode_vector bytes) = length bytes div 4"
  by (induction bytes rule: decode_vector.induct) simp_all

end
