(* ===== verification/Search_Embed.thy ===== *)
theory Search_Embed
  imports Search_Vectors
begin

text \<open>
  The embedding pass: it only ever writes the embedding rows and stamps of notes that were pending,
  a note that is stamped has one row per chunk of the content that was read, and the number it
  returns is the number of notes that stop being pending.
\<close>

section \<open>The rows of a note\<close>

definition embedded_rows :: "path \<Rightarrow> nat \<Rightarrow> (passage \<times> f32 list) list \<Rightarrow> ((ustr \<times> nat) \<times> embedding_row) list" where
  "embedded_rows p ix rows = map (\<lambda>(k, c, v). ((p, k), \<lparr> er_passage = c, er_vector = encode_vector v \<rparr>)) (enumerate ix rows)"

lemma embedded_rows_simps:
  "embedded_rows p ix [] = []"
  "embedded_rows p ix ((c, v) # rows) = ((p, ix), \<lparr> er_passage = c, er_vector = encode_vector v \<rparr>) # embedded_rows p (Suc ix) rows"
  by (simp_all add: embedded_rows_def)

lemma embedded_rows_passages: "map (er_passage \<circ> snd) (embedded_rows p ix rows) = map fst rows"
  by (induction rows arbitrary: ix) (auto simp: embedded_rows_simps)

lemma embedded_rows_numbers: "map (snd \<circ> fst) (embedded_rows p ix rows) = [ix..<ix + length rows]"
proof -
  have "map (snd \<circ> fst) (embedded_rows p ix rows) = map fst (enumerate ix rows)"
    by (simp add: embedded_rows_def comp_def split_beta)
  then show ?thesis by simp
qed

lemma embedded_rows_path: "r \<in> set (embedded_rows p ix rows) \<Longrightarrow> fst (fst r) = p"
  by (auto simp: embedded_rows_def)

text \<open>The chunks of the note as it is, in order and numbered from zero, each with the vector that the embedder
  answered for its body when it was asked, in some state, for the bodies of all of them; a note without
  chunks has no rows and the embedder is not asked.\<close>

definition embeds_note :: "'x llm_embed \<Rightarrow> ustr option \<Rightarrow> vault \<Rightarrow> index_db \<Rightarrow> path \<Rightarrow> bool" where
  "embeds_note embedder model files d p \<longleftrightarrow> (\<exists>content vs. nf_content (files p) = Some content
     \<and> emb_rows p d = embedded_rows p 0 (zip (note_rows p content) vs) \<and> length vs = length (note_rows p content)
     \<and> (note_rows p content \<noteq> [] \<longrightarrow> (\<exists>x x' reply. es_vectors reply = vs
          \<and> embedder \<lparr> eq_model = model, eq_input = map pg_body (note_rows p content) \<rparr> x = (Inr reply, x'))))"

section \<open>Storing the rows of one note\<close>

text \<open>Only the embedding rows of \<open>p\<close> have been touched.\<close>

definition emb_touched :: "path \<Rightarrow> index_db \<Rightarrow> index_db \<Rightarrow> bool" where
  "emb_touched p d0 d \<longleftrightarrow> ix_chunks d = ix_chunks d0 \<and> ix_sources d = ix_sources d0
     \<and> (\<forall>q. q \<noteq> p \<longrightarrow> emb_rows q d = emb_rows q d0)"

definition emb_stored :: "path \<Rightarrow> ustr \<Rightarrow> (passage \<times> f32 list) list \<Rightarrow> index_db \<Rightarrow> index_db \<Rightarrow> bool" where
  "emb_stored p fp rows d0 d \<longleftrightarrow> ix_chunks d = ix_chunks d0 \<and> ix_sources d = stamp p fp (ix_sources d0)
     \<and> emb_rows p d = embedded_rows p 0 rows \<and> (\<forall>q. q \<noteq> p \<longrightarrow> emb_rows q d = emb_rows q d0)"

lemma emb_rows_append:
  "emb_rows q (d\<lparr> ix_embeddings := ix_embeddings d @ [((p, ix), e)] \<rparr>) = emb_rows q d @ (if q = p then [((p, ix), e)] else [])"
  by (auto simp: emb_rows_def)

lemma insert_embeddings_triple:
  "outE (\<lambda>w. emb_touched p d0 (iw_db w) \<and> emb_rows p (iw_db w) = pre)
     (insert_embeddings fault p ix rows :: ('x, unit) search)
     (\<lambda>_ w. emb_touched p d0 (iw_db w) \<and> emb_rows p (iw_db w) = pre @ embedded_rows p ix rows)
     (\<lambda>_ w. emb_touched p d0 (iw_db w))"
proof (induction rows arbitrary: pre ix)
  case Nil
  then show ?case by (auto intro!: outE_okE simp: embedded_rows_simps)
next
  case (Cons row rows)
  obtain c v where row: "row = (c, v)" by (cases row)
  let ?e = "\<lparr> er_passage = c, er_vector = encode_vector v \<rparr>"
  show ?case unfolding row insert_embeddings.simps
  proof (rule outE_bind)
    show "outE (\<lambda>w. emb_touched p d0 (iw_db w) \<and> emb_rows p (iw_db w) = pre)
        (sql_exec fault (\<lambda>d. d\<lparr> ix_embeddings := ix_embeddings d @ [((p, ix), ?e)] \<rparr>) :: ('x, unit) search)
        (\<lambda>_ w. emb_touched p d0 (iw_db w) \<and> emb_rows p (iw_db w) = pre @ [((p, ix), ?e)])
        (\<lambda>_ w. emb_touched p d0 (iw_db w))"
      by (rule sql_exec_triple) (auto simp: emb_touched_def emb_rows_append)
  qed (use Cons.IH [of "pre @ [((p, ix), ?e)]" "ix + 1"] in \<open>simp add: embedded_rows_simps\<close>)
qed

lemma store_embeddings_triple:
  "outE (\<lambda>w. iw_db w = d0) (store_embeddings fault p fp rows :: ('x, unit) search)
     (\<lambda>_ w. emb_stored p fp rows d0 (iw_db w)) (\<lambda>_ w. emb_touched p d0 (iw_db w))"
  unfolding store_embeddings_def
proof (intro outE_bind)
  show "outE (\<lambda>w. iw_db w = d0) (sql_exec fault (delete_embeddings p) :: ('x, unit) search)
      (\<lambda>_ w. emb_touched p d0 (iw_db w) \<and> emb_rows p (iw_db w) = []) (\<lambda>_ w. emb_touched p d0 (iw_db w))"
    by (rule sql_exec_triple) (auto simp: emb_touched_def emb_rows_delete)
  show "outE (\<lambda>w. emb_touched p d0 (iw_db w) \<and> emb_rows p (iw_db w) = [])
      (insert_embeddings fault p 0 rows :: ('x, unit) search)
      (\<lambda>_ w. emb_touched p d0 (iw_db w) \<and> emb_rows p (iw_db w) = embedded_rows p 0 rows)
      (\<lambda>_ w. emb_touched p d0 (iw_db w))" for x :: unit
    using insert_embeddings_triple [of p d0 "[]"] by simp
  show "outE (\<lambda>w. emb_touched p d0 (iw_db w) \<and> emb_rows p (iw_db w) = embedded_rows p 0 rows)
      (sql_exec fault (\<lambda>d. d\<lparr> ix_sources := stamp p fp (ix_sources d) \<rparr>) :: ('x, unit) search)
      (\<lambda>_ w. emb_stored p fp rows d0 (iw_db w)) (\<lambda>_ w. emb_touched p d0 (iw_db w))" for x y :: unit
    by (rule sql_exec_triple) (auto simp: emb_touched_def emb_stored_def emb_rows_def)
qed

section \<open>The pass\<close>

text \<open>The notes \<open>S\<close> have been embedded since \<open>d0\<close>, and the rows of no note outside \<open>S\<close> and \<open>B\<close> changed.\<close>

definition stamped :: "vault \<Rightarrow> path set \<Rightarrow> (ustr, source_row) table \<Rightarrow> (ustr, source_row) table" where
  "stamped files S t = map (\<lambda>(q, r). (q, if q \<in> S then r\<lparr> sr_embedded := fingerprint files q \<rparr> else r)) t"

definition emb_done :: "'x llm_embed \<Rightarrow> ustr option \<Rightarrow> vault \<Rightarrow> path set \<Rightarrow> path set \<Rightarrow> index_db \<Rightarrow> index_db \<Rightarrow> bool" where
  "emb_done embedder model files S B d0 d \<longleftrightarrow> ix_chunks d = ix_chunks d0 \<and> ix_sources d = stamped files S (ix_sources d0)
     \<and> (\<forall>q \<in> S. fingerprint files q \<noteq> None \<and> embeds_note embedder model files d q)
     \<and> (\<forall>q. q \<notin> S \<union> B \<longrightarrow> emb_rows q d = emb_rows q d0)"

lemma stamped_stamp:
  "p \<notin> S \<Longrightarrow> fingerprint files p = Some fp \<Longrightarrow> stamp p fp (stamped files S t) = stamped files (insert p S) t"
  by (auto simp: stamp_def stamped_def)

text \<open>The vectors the embedder answered for the bodies of the chunks.\<close>

definition vectors_for :: "'x llm_embed \<Rightarrow> ustr option \<Rightarrow> passage list \<Rightarrow> f32 list list \<Rightarrow> bool" where
  "vectors_for embedder model chunks vs \<longleftrightarrow> length vs = length chunks \<and> (chunks \<noteq> [] \<longrightarrow> (\<exists>x x' reply.
     es_vectors reply = vs \<and> embedder \<lparr> eq_model = model, eq_input = map pg_body chunks \<rparr> x = (Inr reply, x')))"

lemma emb_done_stored:
  assumes "emb_done embedder model files S {} d0 d" "emb_stored p fp (zip chunks vs) d d'" "p \<notin> S"
    and "read_and_chunk files p = Some (fp, chunks)" "vectors_for embedder model chunks vs"
  shows "emb_done embedder model files (insert p S) {} d0 d'"
proof -
  obtain content where fp: "fingerprint files p = Some fp" and c: "nf_content (files p) = Some content" "chunks = note_rows p content"
    using assms(4) by (auto simp: read_and_chunk_def note_rows_def Let_def split: option.splits)
  have p: "embeds_note embedder model files d' p"
    using assms(2,5) c by (auto simp: embeds_note_def emb_stored_def vectors_for_def)
  have "ix_sources d' = stamped files (insert p S) (ix_sources d0)"
    using assms(1,2) stamped_stamp [OF assms(3) fp] by (simp add: emb_done_def emb_stored_def)
  moreover have "embeds_note embedder model files d' q" if "q \<in> S" for q
    using assms(1,2,3) that by (auto simp: emb_done_def emb_stored_def embeds_note_def)
  ultimately show ?thesis using assms(1,2) p fp by (auto simp: emb_done_def emb_stored_def)
qed

lemma emb_done_touched:
  assumes "emb_done embedder model files S {} d0 d" "emb_touched p d d'" "p \<notin> S"
  shows "emb_done embedder model files S {p} d0 d'"
  using assms by (auto simp: emb_done_def emb_touched_def embeds_note_def)

definition emb_pass :: "'x llm_embed \<Rightarrow> ustr option \<Rightarrow> vault \<Rightarrow> path set \<Rightarrow> path list \<Rightarrow> index_db \<Rightarrow> nat \<Rightarrow> index_db \<Rightarrow> bool" where
  "emb_pass embedder model files S ps d0 n d \<longleftrightarrow> (\<exists>T. T \<subseteq> set ps \<and> n = card T \<and> emb_done embedder model files (S \<union> T) {} d0 d)"

definition emb_failed :: "'x llm_embed \<Rightarrow> ustr option \<Rightarrow> vault \<Rightarrow> path set \<Rightarrow> path list \<Rightarrow> index_db \<Rightarrow> index_db \<Rightarrow> bool" where
  "emb_failed embedder model files S ps d0 d \<longleftrightarrow> (\<exists>T p. T \<subseteq> set ps \<and> p \<in> set ps \<and> p \<notin> S \<union> T \<and> emb_done embedder model files (S \<union> T) {p} d0 d)"

lemma emb_pass_skip: "emb_pass embedder model files S ps d0 n d \<Longrightarrow> emb_pass embedder model files S (p # ps) d0 n d"
  unfolding emb_pass_def by auto

lemma emb_failed_skip: "emb_failed embedder model files S ps d0 d \<Longrightarrow> emb_failed embedder model files S (p # ps) d0 d"
  unfolding emb_failed_def by (metis insert_iff list.set(2) subset_insertI2)

lemma emb_pass_more:
  assumes "emb_pass embedder model files (insert p S) ps d0 n d" "p \<notin> set ps"
  shows "emb_pass embedder model files S (p # ps) d0 (Suc n) d"
proof -
  obtain T where T: "T \<subseteq> set ps" "n = card T" "emb_done embedder model files (insert p S \<union> T) {} d0 d"
    using assms(1) by (auto simp: emb_pass_def)
  then have "card (insert p T) = Suc n" 
    using assms(2) by (metis List.finite_set card_insert_disjoint finite_subset subsetD)
  then show ?thesis using T unfolding emb_pass_def by (intro exI [of _ "insert p T"]) auto
qed

lemma emb_failed_more: "emb_failed embedder model files (insert p S) ps d0 d \<Longrightarrow> emb_failed embedder model files S (p # ps) d0 d"
  unfolding emb_failed_def
proof (elim exE conjE)
  fix T q assume "T \<subseteq> set ps" "q \<in> set ps" "q \<notin> insert p S \<union> T" "emb_done embedder model files (insert p S \<union> T) {q} d0 d"
  then show "\<exists>T q. T \<subseteq> set (p # ps) \<and> q \<in> set (p # ps) \<and> q \<notin> S \<union> T \<and> emb_done embedder model files (S \<union> T) {q} d0 d"
    by (intro exI [of _ "insert p T"] exI [of _ q]) auto
qed


lemma call_embed_db: "call_embed embedder request w = (r, w') \<Longrightarrow> iw_db w' = iw_db w"
  by (auto simp: call_embed_def split: prod.splits)

lemma outE_call_embed:
  fixes embedder :: "'x llm_embed"
  assumes "\<And>e. outE (\<lambda>w. P (iw_db w)) (f e) Q E"
    and "\<And>r x x'. embedder request x = (Inr r, x') \<Longrightarrow> outE (\<lambda>w. P (iw_db w)) (g r) Q E"
  shows "outE (\<lambda>w. P (iw_db w))
     (\<lambda>w. case call_embed embedder request w of (Inl e, w') \<Rightarrow> f e w' | (Inr r, w') \<Rightarrow> g r w') Q E"
  unfolding outE_def
proof (intro allI impI)
  fix w :: "'x index_world" assume P: "P (iw_db w)"
  obtain r w' where c: "call_embed embedder request w = (r, w')" by (cases "call_embed embedder request w")
  then have "P (iw_db w')" using P by (simp add: call_embed_db)
  then show "case (case call_embed embedder request w of (Inl e, w') \<Rightarrow> f e w' | (Inr r, w') \<Rightarrow> g r w') of
      (Inl e, s') \<Rightarrow> E e s' | (Inr x, s') \<Rightarrow> Q x s'"
  proof (cases r)
    case (Inl e)
    then show ?thesis using assms(1) c \<open>P (iw_db w')\<close> by (simp add: outE_def)
  next
    case (Inr x)
    obtain x' where "embedder request (iw_ext w) = (Inr x, x')"
      using c Inr by (auto simp: call_embed_def split: prod.splits)
    from assms(2) [OF this] show ?thesis using Inr c \<open>P (iw_db w')\<close> by (simp add: outE_def)
  qed
qed

lemma embed_notes_triple:
  "distinct ps \<Longrightarrow> S \<inter> set ps = {} \<Longrightarrow>
   outE (\<lambda>w. emb_done embedder model files S {} d0 (iw_db w)) (embed_notes fault files embedder model n ps)
     (\<lambda>m w. \<exists>k. m = n + k \<and> emb_pass embedder model files S ps d0 k (iw_db w)) (\<lambda>_ w. emb_failed embedder model files S ps d0 (iw_db w))"
proof (induction ps arbitrary: S n)
  case Nil
  then show ?case by (auto intro!: outE_okE simp: emb_pass_def)
next
  case (Cons p ps)
  let ?P = "\<lambda>w. emb_done embedder model files S {} d0 (iw_db w)"
  let ?Q = "\<lambda>m w. \<exists>k. m = n + k \<and> emb_pass embedder model files S (p # ps) d0 k (iw_db w)"
  let ?E = "\<lambda>_ w. emb_failed embedder model files S (p # ps) d0 (iw_db w)"
  have skip: "outE ?P (embed_notes fault files embedder model n ps) ?Q ?E"
    by (rule outE_conseq [OF Cons.IH]) (use Cons.prems emb_pass_skip emb_failed_skip in auto)
  have go: "outE ?P (bindE (store_embeddings fault p fp (zip chunks vs))
      (\<lambda>_. embed_notes fault files embedder model (n + 1) ps)) ?Q ?E"
    if rc: "read_and_chunk files p = Some (fp, chunks)" and vs: "vectors_for embedder model chunks vs" for fp chunks vs
  proof (rule outE_bind)
    show "outE ?P (store_embeddings fault p fp (zip chunks vs))
        (\<lambda>_ w. emb_done embedder model files (insert p S) {} d0 (iw_db w)) ?E"
    proof (rule outE_from_db)
      fix d assume d: "emb_done embedder model files S {} d0 d"
      have p: "p \<notin> S" using Cons.prems by auto
      have "emb_failed embedder model files S (p # ps) d0 d'" if "emb_touched p d d'" for d'
        using emb_done_touched [OF d that p] p unfolding emb_failed_def
        by (intro exI [of _ "{}"] exI [of _ p]) simp
      then show "outE (\<lambda>w. iw_db w = d) (store_embeddings fault p fp (zip chunks vs))
          (\<lambda>_ w. emb_done embedder model files (insert p S) {} d0 (iw_db w)) ?E"
        by (intro outE_conseq [OF store_embeddings_triple]) (auto intro: emb_done_stored [OF d _ p rc vs])
    qed
    show "outE (\<lambda>w. emb_done embedder model files (insert p S) {} d0 (iw_db w)) (embed_notes fault files embedder model (n + 1) ps) ?Q ?E"
      for x :: unit
    proof (rule outE_conseq [OF Cons.IH [of "insert p S" "n + 1"]])
      fix m w assume "\<exists>k. m = n + 1 + k \<and> emb_pass embedder model files (insert p S) ps d0 k (iw_db w)"
      then obtain k where "m = n + Suc k" "emb_pass embedder model files S (p # ps) d0 (Suc k) (iw_db w)"
        using emb_pass_more Cons.prems by (metis add.assoc add_Suc_right distinct.simps(2) plus_1_eq_Suc)
      then show "\<exists>k. m = n + k \<and> emb_pass embedder model files S (p # ps) d0 k (iw_db w)" by blast
    qed (use Cons.prems emb_failed_more in auto)
  qed
  show ?case
  proof (cases "read_and_chunk files p")
    case None
    then show ?thesis using skip by simp
  next
    case (Some rc)
    obtain fp chunks where rc: "read_and_chunk files p = Some (fp, chunks)" using Some by (cases rc) auto
    show ?thesis
    proof (cases "chunks = []")
      case True
      then show ?thesis using go [OF rc, of "[]"] rc by (simp add: vectors_for_def)
    next
      case False
      have stop: "outE ?P (\<lambda>w. (Inr n, w)) ?Q ?E"
        by (auto simp: outE_def emb_pass_def intro!: exI [of _ "{}"])
      have "outE ?P (\<lambda>w'. if length (es_vectors r) \<noteq> length chunks then embed_notes fault files embedder model n ps w'
          else bindE (store_embeddings fault p fp (zip chunks (es_vectors r)))
            (\<lambda>_. embed_notes fault files embedder model (n + 1) ps) w') ?Q ?E"
        if "embedder \<lparr> eq_model = model, eq_input = map pg_body chunks \<rparr> x = (Inr r, x')" for r x x'
      proof (cases "length (es_vectors r) = length chunks")
        case True
        then have "vectors_for embedder model chunks (es_vectors r)" using that unfolding vectors_for_def by blast
        from go [OF rc this] True show ?thesis by simp
      qed (simp add: skip)
      from outE_call_embed [OF stop this] show ?thesis using rc False by simp
    qed
  qed
qed


section \<open>What a pass leaves behind\<close>

lemma map_of_stamped:
  "map_of (stamped files S t) p = map_option (\<lambda>r. if p \<in> S then r\<lparr> sr_embedded := fingerprint files p \<rparr> else r) (map_of t p)"
  unfolding stamped_def by (induction t) auto

lemma known_sources_stamped: "ix_sources d = stamped files S (ix_sources d0) \<Longrightarrow> known_sources d = known_sources d0"
  by (auto simp: known_sources_def stamped_def)

lemma pending_iff:
  "table_ok (ix_sources d) \<Longrightarrow> p \<in> set (pending_paths d)
     \<longleftrightarrow> (\<exists>r. map_of (ix_sources d) p = Some r \<and> sr_embedded r \<noteq> Some (sr_fingerprint r))"
  by (force simp: pending_paths_def table_ok_def keys_def)

lemma distinct_pending: "table_ok (ix_sources d) \<Longrightarrow> distinct (pending_paths d)"
  by (simp add: table_ok_def keys_def pending_paths_def distinct_map_filter)

lemma emb_done_start: "emb_done embedder model files {} {} d d"
  by (simp add: emb_done_def stamped_def)

lemma embed_pending_triple:
  assumes "table_ok (ix_sources db)"
  shows "outE (\<lambda>w. iw_db w = db) (embed_pending fault files embedder model)
     (\<lambda>n w. emb_pass embedder model files {} (pending_paths db) db n (iw_db w))
     (\<lambda>_ w. emb_failed embedder model files {} (pending_paths db) db (iw_db w) \<or> iw_db w = db)"
  unfolding embed_pending_def
proof (rule outE_bind)
  show "outE (\<lambda>w. iw_db w = db) (sql_query fault pending_paths) (\<lambda>ps w. iw_db w = db \<and> ps = pending_paths db)
      (\<lambda>_ w. emb_failed embedder model files {} (pending_paths db) db (iw_db w) \<or> iw_db w = db)"
    by (rule outE_conseq [OF sql_query_triple [where P = "\<lambda>d. d = db"]]) auto
  fix ps :: "path list"
  show "outE (\<lambda>w. iw_db w = db \<and> ps = pending_paths db) (embed_notes fault files embedder model 0 ps)
      (\<lambda>n w. emb_pass embedder model files {} (pending_paths db) db n (iw_db w))
      (\<lambda>_ w. emb_failed embedder model files {} (pending_paths db) db (iw_db w) \<or> iw_db w = db)"
  proof (cases "ps = pending_paths db")
    case False
    then show ?thesis by (simp add: outE_def)
  next
    case True
    show ?thesis unfolding True
      by (rule outE_conseq [OF embed_notes_triple [OF distinct_pending [OF assms], of "{}"]])
        (auto simp: emb_done_start)
  qed
qed

lemma pending_after:
  assumes "emb_done embedder model files T {} d0 d" "T \<subseteq> set (pending_paths d0)"
    and "\<forall>p \<in> T. source_fp d0 p = fingerprint files p" "table_ok (ix_sources d0)"
  shows "pending_paths d = filter (\<lambda>p. p \<notin> T) (pending_paths d0)"
proof -
  have "filter (\<lambda>(p, r). sr_embedded r \<noteq> Some (sr_fingerprint r)) (stamped files T t)
      = filter (\<lambda>(p, r). p \<notin> T \<and> sr_embedded r \<noteq> Some (sr_fingerprint r)) t"
    if "\<forall>(p, r) \<in> set t. p \<in> T \<longrightarrow> fingerprint files p = Some (sr_fingerprint r)" for t
    using that by (induction t) (auto simp: stamped_def split: if_splits)
  moreover have "\<forall>(p, r) \<in> set (ix_sources d0). p \<in> T \<longrightarrow> fingerprint files p = Some (sr_fingerprint r)"
    using assms(3,4) by (auto simp: source_fp_def table_ok_def keys_def)
  ultimately show ?thesis
    using assms(1) by (simp add: pending_paths_def emb_done_def filter_map comp_def case_prod_unfold conj_commute)
qed

text \<open>C29. The embedding pass, whether it completes or is cut short by an error: it embeds some of the pending
  notes, which it stamps with their present fingerprints, and as many as it returns. The vectors of such a
  note are then exactly the chunks of its present text, in order and numbered from zero, each with the vector
  the embedder answered for it when it was asked for the bodies of all of them. Nothing else changes: not the
  passages, not the recorded fingerprints, no other stamp, and no vector of another note - except, when a
  statement failed, those of the one pending note at which the pass was stopped, which stays pending as it
  was. That the paths of the recorded notes are distinct is the table's primary key.\<close>

theorem embed_pending_faithful:
  assumes "embed_pending fault files embedder model w = (r, w')"
    and "table_ok (ix_sources (iw_db w))"
  shows "\<exists>S B. S \<subseteq> set (pending_paths (iw_db w)) \<and> B \<subseteq> set (pending_paths (iw_db w)) - S
    \<and> (case r of Inr n \<Rightarrow> n = card S \<and> B = {} | Inl _ \<Rightarrow> card B \<le> 1)
    \<and> ix_chunks (iw_db w') = ix_chunks (iw_db w)
    \<and> ix_sources (iw_db w') = map (\<lambda>(q, row). (q, if q \<in> S then row\<lparr> sr_embedded := fingerprint files q \<rparr> else row)) (ix_sources (iw_db w))
    \<and> (\<forall>q. q \<in> S \<longrightarrow> fingerprint files q \<noteq> None \<and> embeds_note embedder model files (iw_db w') q)
    \<and> (\<forall>q. q \<notin> S \<union> B \<longrightarrow> emb_rows q (iw_db w') = emb_rows q (iw_db w))"
proof -
  let ?ps = "pending_paths (iw_db w)"
  note t = embed_pending_triple [OF assms(2), of fault files embedder model]
  have "\<exists>S B. S \<subseteq> set ?ps \<and> B \<subseteq> set ?ps - S \<and> (case r of Inr n \<Rightarrow> n = card S \<and> B = {} | Inl _ \<Rightarrow> card B \<le> 1)
      \<and> emb_done embedder model files S B (iw_db w) (iw_db w')"
  proof (cases r)
    case (Inr n)
    from outE_ok [OF t refl assms(1) [unfolded Inr]]
    obtain T where "T \<subseteq> set ?ps" "n = card T" "emb_done embedder model files ({} \<union> T) {} (iw_db w) (iw_db w')"
      unfolding emb_pass_def by blast
    then show ?thesis using Inr by (intro exI [of _ T] exI [of _ "{}"]) simp
  next
    case (Inl e)
    from outE_err [OF t refl assms(1) [unfolded Inl]]
    consider T p where "T \<subseteq> set ?ps" "p \<in> set ?ps" "p \<notin> {} \<union> T" "emb_done embedder model files ({} \<union> T) {p} (iw_db w) (iw_db w')"
      | "iw_db w' = iw_db w" unfolding emb_failed_def by blast
    then show ?thesis
    proof cases
      case (1 T p)
      then show ?thesis using Inl by (intro exI [of _ T] exI [of _ "{p}"]) simp
    next
      case 2
      then show ?thesis using Inl emb_done_start by (intro exI [of _ "{}"]) simp
    qed
  qed
  then show ?thesis unfolding emb_done_def stamped_def by blast
qed

text \<open>Progress: after a synchronised index, a pass that returns \<open>n\<close> has taken exactly \<open>n\<close> notes off the
  pending list, in particular it is done when \<open>n\<close> was the number of pending notes.\<close>

theorem embed_pending_progress:
  assumes "embed_pending fault files embedder model w = (Inr n, w')"
    and "table_ok (ix_sources (iw_db w))"
    and "\<forall>p \<in> set (pending_paths (iw_db w)). fingerprint files p \<in> {None, source_fp (iw_db w) p}"
  shows "length (pending_paths (iw_db w')) + n = length (pending_paths (iw_db w))"
proof -
  let ?ps = "pending_paths (iw_db w)"
  from outE_ok [OF embed_pending_triple [OF assms(2)] refl assms(1)]
  obtain T where T: "T \<subseteq> set ?ps" "n = card T" "emb_done embedder model files T {} (iw_db w) (iw_db w')"
    unfolding emb_pass_def by auto
  have "\<forall>p \<in> T. source_fp (iw_db w) p = fingerprint files p"
    using assms(3) T(1,3) unfolding emb_done_def by (metis insertE singletonD subsetD)
  note pending = pending_after [OF T(3,1) this assms(2)]
  have "card T = length (filter (\<lambda>p. p \<in> T) ?ps)"
    using distinct_pending [OF assms(2)] T(1)
    by (simp add: distinct_length_filter Int_absorb1 Int_absorb2)
  then show ?thesis
    using sum_length_filter_compl [of "\<lambda>p. p \<in> T" ?ps] by (simp add: pending T(2))
qed

section \<open>The small vault, embedded\<close>

text \<open>An embedder that answers one vector of one number per input.\<close>

definition demo_embedder :: "unit llm_embed" where
  "demo_embedder request s = (Inr \<lparr> es_vectors = map (\<lambda>_. [0x3F800000]) (eq_input request), es_model = [] \<rparr>, s)"

lemma demo_embed: "\<exists>w'. embed_pending (\<lambda>_. None) demo_vault demo_embedder None (demo_world\<lparr> iw_db := demo_index \<rparr>)
    = (Inr 1, w') \<and> pending_paths (iw_db w') = []"
proof -
  have rc: "read_and_chunk demo_vault (lit ''/v/a.md'') = Some (lit ''7:4'', [demo_row])"
    using demo_note_rows demo_fingerprint by (simp add: read_and_chunk_def note_rows_def Let_def demo_vault_def)
  show ?thesis
    by (simp add: embed_pending_def pending_paths_def demo_index_def demo_world_def sql_query_def sql_exec_def sql_def
        bindE_def okE_def Let_def rc call_embed_def demo_embedder_def store_embeddings_def delete_embeddings_def stamp_def)
qed

theorem embed_pending_faithful_witness:
  "\<exists>w'. embed_pending (\<lambda>_. None) demo_vault demo_embedder None (demo_world\<lparr> iw_db := demo_index \<rparr>) = (Inr 1, w')
     \<and> emb_rows (lit ''/v/a.md'') (iw_db w')
       = [((lit ''/v/a.md'', 0), \<lparr> er_passage = demo_row, er_vector = encode_vector [0x3F800000] \<rparr>)]"
proof -
  from demo_embed obtain w' where
    w': "embed_pending (\<lambda>_. None) demo_vault demo_embedder None (demo_world\<lparr> iw_db := demo_index \<rparr>) = (Inr 1, w')" by blast
  have "table_ok (ix_sources (iw_db (demo_world\<lparr> iw_db := demo_index \<rparr>)))"
    by (simp add: demo_index_def table_ok_def keys_def)
  from embed_pending_faithful [OF w' this] obtain S where
    S: "S \<subseteq> set (pending_paths (iw_db (demo_world\<lparr> iw_db := demo_index \<rparr>)))" "1 = card S"
    "\<forall>q. q \<in> S \<longrightarrow> fingerprint demo_vault q \<noteq> None \<and> embeds_note demo_embedder None demo_vault (iw_db w') q"
    unfolding sum.case by blast
  have "set (pending_paths (iw_db (demo_world\<lparr> iw_db := demo_index \<rparr>))) = {lit ''/v/a.md''}"
    by (simp add: pending_paths_def demo_index_def)
  then have "S = {lit ''/v/a.md''}" using S(1,2) by (metis card.empty subset_singletonD zero_neq_one)
  then have "embeds_note demo_embedder None demo_vault (iw_db w') (lit ''/v/a.md'')" using S(3) by blast
  moreover have "nf_content (demo_vault (lit ''/v/a.md'')) = Some demo_note" by (simp add: demo_vault_def)
  ultimately obtain vs x reply where "emb_rows (lit ''/v/a.md'') (iw_db w') = embedded_rows (lit ''/v/a.md'') 0 (zip [demo_row] vs)"
    "es_vectors reply = vs" "fst (demo_embedder \<lparr> eq_model = None, eq_input = [pg_body demo_row] \<rparr> x) = Inr reply"
    unfolding embeds_note_def by (force simp: demo_note_rows)
  then show ?thesis using w' by (auto simp: demo_embedder_def embedded_rows_simps)
qed

theorem embed_pending_progress_witness:
  "\<exists>w'. embed_pending (\<lambda>_. None) demo_vault demo_embedder None (demo_world\<lparr> iw_db := demo_index \<rparr>) = (Inr 1, w')
     \<and> length (pending_paths (iw_db w')) + 1 = length (pending_paths demo_index)"
proof -
  from demo_embed obtain w' where
    w': "embed_pending (\<lambda>_. None) demo_vault demo_embedder None (demo_world\<lparr> iw_db := demo_index \<rparr>) = (Inr 1, w')" by blast
  have "table_ok (ix_sources (iw_db (demo_world\<lparr> iw_db := demo_index \<rparr>)))"
    by (simp add: demo_index_def table_ok_def keys_def)
  moreover have "\<forall>p \<in> set (pending_paths (iw_db (demo_world\<lparr> iw_db := demo_index \<rparr>))).
      fingerprint demo_vault p \<in> {None, source_fp (iw_db (demo_world\<lparr> iw_db := demo_index \<rparr>)) p}"
    by (simp add: demo_index_def pending_paths_def source_fp_def demo_fingerprint)
  ultimately show ?thesis using embed_pending_progress [OF w'] w' by simp
qed

end
