(* ===== verification/Search_Retrieve.thy ===== *)
theory Search_Retrieve
  imports Search_Embed
begin

text \<open>
  Retrieval (\<open>engine/src/search/index.rs\<close>): the FTS5 query built from a question, full-text and hybrid
  retrieval, and reciprocal rank fusion. SQLite's FTS5 matching with its BM25 order and limit is the
  parameter \<open>fts\<close>; the iteration order of the score map is the parameter \<open>hash_order\<close>.
\<close>

section \<open>The query\<close>

fun fts_tokens :: "unicode \<Rightarrow> ustr list \<Rightarrow> ustr list \<Rightarrow> ustr list" where
  "fts_tokens u seen [] = []"
| "fts_tokens u seen (raw # raws) =
     (let t = to_lowercase u (trim raw) in
      if str_len t < 2 then fts_tokens u seen raws
      else if t \<in> set seen then fts_tokens u seen raws
      else (t @ lit ''*'') # fts_tokens u (t # seen) raws)"

definition to_fts_query :: "unicode \<Rightarrow> ustr \<Rightarrow> ustr" where
  "to_fts_query u query = str_join (lit '' OR '') (fts_tokens u [] (split_on (\<lambda>c. \<not> is_alphanumeric u c) query))"

section \<open>Reciprocal rank fusion\<close>

definition RRF_K :: f64 where "RRF_K = Finite 60"

type_synonym passage_key = "ustr \<times> nat"

definition passage_key :: "passage \<Rightarrow> passage_key" where
  "passage_key p = (pg_path p, pg_start_line p)"

definition rrf_term :: "nat \<Rightarrow> f64" where
  "rrf_term rank = fdiv binary64 (Finite 1) (fadd binary64 (fadd binary64 RRF_K (f64_of_nat rank)) (Finite 1))"

fun fuse_list :: "nat \<Rightarrow> passage list \<Rightarrow> (passage_key, f64) table \<times> (passage_key, passage) table
    \<Rightarrow> (passage_key, f64) table \<times> (passage_key, passage) table" where
  "fuse_list rank [] (scores, passages) = (scores, passages)"
| "fuse_list rank (p # ps) (scores, passages) = fuse_list (rank + 1) ps
     (upsert (passage_key p) (fadd binary64 f64_zero (rrf_term rank)) (\<lambda>s. fadd binary64 s (rrf_term rank)) scores,
      upsert (passage_key p) p (\<lambda>old. old) passages)"

definition cmp_rank_desc :: "passage_key \<times> f64 \<Rightarrow> passage_key \<times> f64 \<Rightarrow> ordering" where
  "cmp_rank_desc a b = cmp_or_equal (snd b) (snd a)"

text \<open>\<open>filter_map(|(key, _)| passages.remove(&key))\<close>.\<close>

fun take_passages :: "(passage_key, passage) table \<Rightarrow> (passage_key \<times> f64) list \<Rightarrow> passage list" where
  "take_passages passages [] = []"
| "take_passages passages ((k, s) # ranked) = (case map_of passages k of
       None \<Rightarrow> take_passages passages ranked
     | Some p \<Rightarrow> p # take_passages (filter (\<lambda>r. fst r \<noteq> k) passages) ranked)"

definition fuse_rrf :: "((passage_key \<times> f64) list \<Rightarrow> (passage_key \<times> f64) list)
    \<Rightarrow> passage list \<Rightarrow> passage list \<Rightarrow> nat \<Rightarrow> passage list" where
  "fuse_rrf hash_order lexical dense limit =
     (case fuse_list 0 dense (fuse_list 0 lexical ([], [])) of (scores, passages) \<Rightarrow>
        take_passages passages (take limit (sort_by cmp_rank_desc (hash_order scores))))"

section \<open>Retrieval\<close>

record retriever =
  rt_unicode :: unicode
  rt_fts :: "ustr \<Rightarrow> nat \<Rightarrow> passage list \<Rightarrow> passage list"
  rt_hash_order :: "(passage_key \<times> f64) list \<Rightarrow> (passage_key \<times> f64) list"

definition search_fts :: "retriever \<Rightarrow> sql_fault \<Rightarrow> ustr \<Rightarrow> nat \<Rightarrow> ('x, passage list) search" where
  "search_fts rt fault match_query limit = sql_query fault (\<lambda>d. rt_fts rt match_query limit (ix_chunks d))"

definition retrieve :: "retriever \<Rightarrow> sql_fault \<Rightarrow> ustr \<Rightarrow> nat \<Rightarrow> ('x, passage list) search" where
  "retrieve rt fault query limit =
     (let match_query = to_fts_query (rt_unicode rt) query in
      if match_query = [] then okE [] else search_fts rt fault match_query limit)"

definition search :: "retriever \<Rightarrow> sql_fault \<Rightarrow> ustr \<Rightarrow> nat \<Rightarrow> ('x, search_hit list) search" where
  "search rt fault query limit = bindE (retrieve rt fault query limit) (\<lambda>ps. okE (map to_hit ps))"

definition retrieve_hybrid :: "retriever \<Rightarrow> sql_fault \<Rightarrow> ustr \<Rightarrow> nat \<Rightarrow> f32 list option
    \<Rightarrow> ('x, passage list) search" where
  "retrieve_hybrid rt fault query limit query_vector =
     (let match_query = to_fts_query (rt_unicode rt) query in
      bindE (if match_query = [] then okE [] else search_fts rt fault match_query limit) (\<lambda>lexical.
      bindE (case query_vector of
          Some v \<Rightarrow> if v \<noteq> [] then sql_query fault (vector_search v limit) else okE []
        | None \<Rightarrow> okE []) (\<lambda>dense.
      if dense = [] then okE lexical
      else okE (fuse_rrf (rt_hash_order rt) lexical dense limit))))"

section \<open>Scores\<close>

text \<open>Scores are never NaN and never negative, so that comparing them is a total preorder.\<close>

fun is_score :: "f64 \<Rightarrow> bool" where
  "is_score PosInf = True"
| "is_score (Finite y) = (y \<ge> 0)"
| "is_score _ = False"

lemma is_score_not_NaN: "is_score x \<Longrightarrow> x \<noteq> NaN"
  by auto

lemma round_half_even_nonneg: "x \<ge> 0 \<Longrightarrow> round_half_even x \<ge> 0"
  by (simp add: round_half_even_def Let_def)

lemma round_to_score: "x \<ge> 0 \<Longrightarrow> is_score (round_to fmt x)"
proof -
  assume x: "x \<ge> 0"
  have "is_score (overflowing fmt y)" if "y \<ge> 0" for y
  proof -
    have "\<not> y \<le> - pow2 (fm_emax fmt + 1)" using that pow2_pos [of "fm_emax fmt + 1"] by linarith
    then show ?thesis using that by (simp add: overflowing_def)
  qed
  then show ?thesis
    using x round_half_even_nonneg [of "x / pow2 (quantum fmt (ilog2 \<bar>x\<bar>))"]
    by (simp add: round_to_def Let_def less_imp_le)
qed

lemma fadd_score: "is_score a \<Longrightarrow> is_score b \<Longrightarrow> is_score (fadd fmt a b)"
  by (cases a; cases b) (simp_all add: round_to_score)

lemma rrf_term_score: "is_score (rrf_term rank)"
proof -
  have "is_score (f64_of_nat rank)" unfolding f64_of_nat_def by (rule round_to_score) simp
  then have "is_score (fadd binary64 (fadd binary64 RRF_K (f64_of_nat rank)) (Finite 1))"
    by (intro fadd_score) (simp_all add: RRF_K_def)
  then show ?thesis unfolding rrf_term_def
    by (cases "fadd binary64 (fadd binary64 RRF_K (f64_of_nat rank)) (Finite 1)")
      (simp_all add: round_to_score inf_of_def)
qed

lemma cmp_order_desc: "cmp_order (\<lambda>a b. cmp_or_equal (key b) (key a)) (\<lambda>a. key a \<noteq> NaN)"
proof
  fix x y assume "key x \<noteq> NaN" "key y \<noteq> NaN"
  then show "cmp_or_equal (key y) (key x) = Greater \<longleftrightarrow> cmp_or_equal (key x) (key y) = Less"
    by (rule cmp_or_equal_anti [rotated])
next
  fix x y z assume "key x \<noteq> NaN" "key y \<noteq> NaN" "key z \<noteq> NaN"
    "cmp_or_equal (key y) (key x) \<noteq> Greater" "cmp_or_equal (key z) (key y) \<noteq> Greater"
  then show "cmp_or_equal (key z) (key x) \<noteq> Greater"
    using f64_le_trans by (simp add: cmp_or_equal_iff)
qed

interpretation rank_order: cmp_order cmp_rank_desc "\<lambda>a. snd a \<noteq> NaN"
  unfolding cmp_rank_desc_def by (rule cmp_order_desc)

interpretation score_order: cmp_order cmp_score_desc "\<lambda>a. fst a \<noteq> NaN"
  unfolding cmp_score_desc_def by (rule cmp_order_desc)


section \<open>Fusion\<close>

text \<open>The specification: the terms a key collects over both lists, added up in order.\<close>

fun rank_terms :: "nat \<Rightarrow> passage_key \<Rightarrow> passage list \<Rightarrow> f64 list" where
  "rank_terms rank k [] = []"
| "rank_terms rank k (p # ps) = (if passage_key p = k then [rrf_term rank] else []) @ rank_terms (rank + 1) k ps"

definition fused_score :: "passage list \<Rightarrow> passage list \<Rightarrow> passage_key \<Rightarrow> f64" where
  "fused_score lexical dense k = foldl (fadd binary64) f64_zero (rank_terms 0 k lexical @ rank_terms 0 k dense)"

lemma rank_terms_Nil_iff: "rank_terms rank k ps = [] \<longleftrightarrow> k \<notin> passage_key ` set ps"
  by (induction ps arbitrary: rank) auto

lemma rank_terms_scores: "t \<in> set (rank_terms rank k ps) \<Longrightarrow> is_score t"
  by (induction ps arbitrary: rank) (auto simp: rrf_term_score split: if_splits)

lemma foldl_scores: "is_score x \<Longrightarrow> (\<forall>t \<in> set ts. is_score t) \<Longrightarrow> is_score (foldl (fadd binary64) x ts)"
  by (induction ts arbitrary: x) (auto intro: fadd_score)

lemma fused_score_is_score: "is_score (fused_score lexical dense k)"
  unfolding fused_score_def by (rule foldl_scores) (auto simp: f64_zero_def dest: rank_terms_scores)

lemma fuse_list_scores:
  "map_of (fst (fuse_list rank ps (scores, passages))) k = (case map_of scores k of
       Some x \<Rightarrow> Some (foldl (fadd binary64) x (rank_terms rank k ps))
     | None \<Rightarrow> if rank_terms rank k ps = [] then None else Some (foldl (fadd binary64) f64_zero (rank_terms rank k ps)))"
  by (induction ps arbitrary: rank scores passages) (auto simp: table_simps split: option.splits)

lemma fuse_list_passages:
  "map_of (snd (fuse_list rank ps (scores, passages))) k = (case map_of passages k of
       Some p \<Rightarrow> Some p | None \<Rightarrow> find (\<lambda>p. passage_key p = k) ps)"
  by (induction ps arbitrary: rank scores passages) (auto simp: table_simps split: option.splits)

lemma fuse_list_ok: "table_ok scores \<Longrightarrow> table_ok (fst (fuse_list rank ps (scores, passages)))"
  by (induction ps arbitrary: rank scores passages) (simp_all add: table_ok_upsert)

lemma find_append: "find P (xs @ ys) = (case find P xs of Some x \<Rightarrow> Some x | None \<Rightarrow> find P ys)"
  by (induction xs) auto

definition fuse_tables :: "passage list \<Rightarrow> passage list \<Rightarrow> (passage_key, f64) table \<times> (passage_key, passage) table" where
  "fuse_tables lexical dense = fuse_list 0 dense (fuse_list 0 lexical ([], []))"

lemma fuse_tables_scores:
  "map_of (fst (fuse_tables lexical dense)) k =
     (if k \<in> passage_key ` set (lexical @ dense) then Some (fused_score lexical dense k) else None)"
proof -
  obtain s m where sm: "fuse_list 0 lexical ([], []) = (s, m)" by (cases "fuse_list 0 lexical ([], [])")
  have s: "map_of s k = (if rank_terms 0 k lexical = [] then None
      else Some (foldl (fadd binary64) f64_zero (rank_terms 0 k lexical)))"
    using fuse_list_scores [of 0 lexical "[]" "[]" k] by (simp add: sm)
  show ?thesis
    unfolding fuse_tables_def sm fuse_list_scores s fused_score_def
    using rank_terms_Nil_iff [of 0 k lexical] rank_terms_Nil_iff [of 0 k dense]
    by (cases "rank_terms 0 k lexical"; cases "rank_terms 0 k dense"; simp add: image_Un)
qed

lemma fuse_tables_passages:
  "map_of (snd (fuse_tables lexical dense)) k = find (\<lambda>p. passage_key p = k) (lexical @ dense)"
proof -
  obtain s m where sm: "fuse_list 0 lexical ([], []) = (s, m)" by (cases "fuse_list 0 lexical ([], [])")
  have "map_of m k = find (\<lambda>p. passage_key p = k) lexical"
    using fuse_list_passages [of 0 lexical "[]" "[]" k] by (simp add: sm)
  then show ?thesis unfolding fuse_tables_def sm fuse_list_passages find_append by simp
qed

lemma fuse_tables_ok: "table_ok (fst (fuse_tables lexical dense))"
  unfolding fuse_tables_def
  by (metis fst_conv fuse_list_ok prod.collapse table_ok_Nil)

lemma take_passages_map:
  "distinct (map fst ranked) \<Longrightarrow> (\<forall>r \<in> set ranked. map_of passages (fst r) \<noteq> None)
     \<Longrightarrow> take_passages passages ranked = map (\<lambda>r. the (map_of passages (fst r))) ranked"
proof (induction ranked arbitrary: passages)
  case Nil
  then show ?case by simp
next
  case (Cons r ranked)
  obtain p where p: "map_of passages (fst r) = Some p" using Cons.prems by auto
  have other: "map_of (filter (\<lambda>x. fst x \<noteq> fst r) passages) (fst q) = map_of passages (fst q)" if "q \<in> set ranked" for q
    using Cons.prems(1) that by (intro map_of_filter_other) (metis distinct.simps(2) imageI list.set_map list.simps(9))
  have "take_passages (filter (\<lambda>x. fst x \<noteq> fst r) passages) ranked
      = map (\<lambda>q. the (map_of (filter (\<lambda>x. fst x \<noteq> fst r) passages) (fst q))) ranked"
    using Cons.IH Cons.prems other by simp
  also have "\<dots> = map (\<lambda>q. the (map_of passages (fst q))) ranked" using other by simp
  finally show ?case using p by (cases r) simp
qed

text \<open>The ranking before truncation, and what is taken of it.\<close>

lemma fuse_rrf_ranking:
  fixes lexical dense :: "passage list"
  assumes "\<And>s. mset (hash_order s) = mset s"
  defines "ranked \<equiv> sort_by cmp_rank_desc (hash_order (fst (fuse_tables lexical dense)))"
  shows "fuse_rrf hash_order lexical dense limit
      = map (\<lambda>r. the (find (\<lambda>p. passage_key p = fst r) (lexical @ dense))) (take limit ranked)"
    and "distinct (map fst ranked)" "fst ` set ranked = passage_key ` set (lexical @ dense)"
    and "\<And>r. r \<in> set ranked \<Longrightarrow> snd r = fused_score lexical dense (fst r)"
    and "sorted_wrt (\<lambda>a b. f64_le (snd b) (snd a)) ranked"
proof -
  let ?S = "fst (fuse_tables lexical dense)"
  have m: "mset ranked = mset ?S" by (simp add: ranked_def sort_by_mset assms(1))
  then have set: "set ranked = set ?S" by (metis set_mset_mset)
  have ok: "distinct (map fst ?S)" using fuse_tables_ok [of lexical dense] by (simp add: table_ok_def keys_def)
  then show d: "distinct (map fst ranked)" by (metis m mset_eq_imp_distinct_iff mset_map)
  have in_S: "r \<in> set ?S \<longleftrightarrow> map_of ?S (fst r) = Some (snd r)" for r
    using ok by (metis map_of_SomeD map_of_is_SomeI prod.collapse)
  show score: "snd r = fused_score lexical dense (fst r)" if "r \<in> set ranked" for r
    using that unfolding set in_S fuse_tables_scores by (simp split: if_splits)
  have "fst ` set ?S = dom (map_of ?S)" by (rule dom_map_of_conv_image_fst [symmetric])
  also have "\<dots> = passage_key ` set (lexical @ dense)" by (auto simp: fuse_tables_scores dom_def)
  finally show k: "fst ` set ranked = passage_key ` set (lexical @ dense)" by (simp add: set)
  have "\<forall>r \<in> set (hash_order ?S). snd r \<noteq> NaN"
    using score fused_score_is_score is_score_not_NaN by (simp add: ranked_def)
  then have "sorted_wrt (\<lambda>a b. cmp_rank_desc a b \<noteq> Greater) ranked"
    unfolding ranked_def by (rule rank_order.sort_by_sorted)
  then show "sorted_wrt (\<lambda>a b. f64_le (snd b) (snd a)) ranked"
    by (rule sorted_wrt_mono_rel [rotated])
      (metis cmp_or_equal_iff cmp_rank_desc_def fused_score_is_score is_score_not_NaN score)
  have "\<forall>r \<in> set (take limit ranked). map_of (snd (fuse_tables lexical dense)) (fst r) \<noteq> None"
  proof
    fix r assume "r \<in> set (take limit ranked)"
    then have "fst r \<in> passage_key ` set (lexical @ dense)" using k by (metis imageI in_set_takeD)
    then show "map_of (snd (fuse_tables lexical dense)) (fst r) \<noteq> None"
      by (auto simp: fuse_tables_passages find_None_iff)
  qed
  moreover have "distinct (map fst (take limit ranked))" using d by (metis distinct_take take_map)
  ultimately have "take_passages (snd (fuse_tables lexical dense)) (take limit ranked)
      = map (\<lambda>r. the (find (\<lambda>p. passage_key p = fst r) (lexical @ dense))) (take limit ranked)"
    by (simp add: take_passages_map fuse_tables_passages)
  then show "fuse_rrf hash_order lexical dense limit
      = map (\<lambda>r. the (find (\<lambda>p. passage_key p = fst r) (lexical @ dense))) (take limit ranked)"
    by (simp add: fuse_rrf_def fuse_tables_def [symmetric] ranked_def split_beta)
qed


lemma find_key: "k \<in> passage_key ` set ps \<Longrightarrow> \<exists>p. find (\<lambda>p. passage_key p = k) ps = Some p \<and> passage_key p = k \<and> p \<in> set ps"
  by (induction ps) auto

lemma sorted_wrt_take_rest:
  "sorted_wrt R xs \<Longrightarrow> x \<in> set (take n xs) \<Longrightarrow> y \<in> set xs \<Longrightarrow> y \<notin> set (take n xs) \<Longrightarrow> R x y"
proof -
  assume s: "sorted_wrt R xs" and x: "x \<in> set (take n xs)" and y: "y \<in> set xs" "y \<notin> set (take n xs)"
  have "y \<in> set (drop n xs)" using y by (metis Un_iff append_take_drop_id set_append)
  moreover have "sorted_wrt R (take n xs @ drop n xs)" using s by simp
  ultimately show "R x y" using x by (simp only: sorted_wrt_append)
qed

text \<open>C19. Rank fusion: a passage found by both searches appears once, in the version of the full-text
  search; the result is the best \<open>limit\<close> passages by fused score, in descending order.\<close>

theorem fuse_rrf_correct:
  assumes "\<And>s. mset (hash_order s) = mset s" "fuse_rrf hash_order lexical dense limit = found"
  shows "distinct (map passage_key found)
    \<and> length found = min limit (card (passage_key ` set (lexical @ dense)))
    \<and> (\<forall>p \<in> set found. find (\<lambda>q. passage_key q = passage_key p) (lexical @ dense) = Some p)
    \<and> sorted_wrt (\<lambda>p q. f64_le (fused_score lexical dense (passage_key q)) (fused_score lexical dense (passage_key p))) found
    \<and> (\<forall>p \<in> set found. \<forall>q \<in> set (lexical @ dense). passage_key q \<notin> passage_key ` set found \<longrightarrow>
         f64_le (fused_score lexical dense (passage_key q)) (fused_score lexical dense (passage_key p)))"
proof -
  let ?ranked = "sort_by cmp_rank_desc (hash_order (fst (fuse_tables lexical dense)))"
  let ?first = "\<lambda>k. the (find (\<lambda>p. passage_key p = k) (lexical @ dense))"
  let ?score = "fused_score lexical dense"
  note R = fuse_rrf_ranking [where hash_order = hash_order and lexical = lexical and dense = dense, OF assms(1)]
  have found: "found = map (?first \<circ> fst) (take limit ?ranked)" unfolding assms(2) [symmetric] R(1) by (simp add: comp_def)
  have first: "\<exists>p. find (\<lambda>p. passage_key p = fst r) (lexical @ dense) = Some p \<and> passage_key p = fst r"
    if "r \<in> set ?ranked" for r
  proof -
    have "fst r \<in> passage_key ` set (lexical @ dense)" using that R(3) by (metis imageI)
    then show ?thesis using find_key by blast
  qed
  have keys: "map passage_key found = map fst (take limit ?ranked)"
    unfolding found by (simp only: map_map map_eq_conv comp_apply) (metis first in_set_takeD option.sel)
  have "distinct (map passage_key found)" unfolding keys by (metis R(2) distinct_take take_map)
  moreover have "length found = min limit (card (passage_key ` set (lexical @ dense)))"
  proof -
    have "length ?ranked = card (fst ` set ?ranked)" using distinct_card [OF R(2)] by simp
    then show ?thesis by (simp only: found length_map length_take R(3) min.commute)
  qed
  moreover have "find (\<lambda>q. passage_key q = passage_key p) (lexical @ dense) = Some p" if "p \<in> set found" for p
  proof -
    obtain r where r: "r \<in> set ?ranked" "p = ?first (fst r)" using \<open>p \<in> set found\<close> unfolding found by (auto dest: in_set_takeD)
    then show ?thesis using first [OF r(1)] by auto
  qed
  moreover have "sorted_wrt (\<lambda>p q. f64_le (?score (passage_key q)) (?score (passage_key p))) found"
  proof -
    have "sorted_wrt (\<lambda>a b. f64_le (?score (fst b)) (?score (fst a))) (take limit ?ranked)"
      by (rule sorted_wrt_mono_rel [OF _ sorted_wrt_take [OF R(5)]]) (metis R(4) in_set_takeD)
    then have "sorted_wrt (\<lambda>k k'. f64_le (?score k') (?score k)) (map passage_key found)"
      unfolding keys by (simp add: sorted_wrt_map)
    then show ?thesis by (simp add: sorted_wrt_map)
  qed
  moreover have "f64_le (?score (passage_key q)) (?score (passage_key p))"
    if p: "p \<in> set found" and q: "q \<in> set (lexical @ dense)" "passage_key q \<notin> passage_key ` set found" for p q
  proof -
    obtain a where a: "a \<in> set (take limit ?ranked)" "fst a = passage_key p"
      using p keys by (metis (no_types, lifting) imageE image_eqI list.set_map)
    have "passage_key q \<in> fst ` set ?ranked" unfolding R(3) using q(1) by (rule imageI)
    then obtain b where b: "b \<in> set ?ranked" "fst b = passage_key q" by auto
    have "b \<notin> set (take limit ?ranked)"
      using b(2) q(2) keys by (metis (no_types, lifting) image_eqI list.set_map)
    then have "f64_le (snd b) (snd a)" using sorted_wrt_take_rest [OF R(5) a(1) b(1)] by blast
    then show ?thesis using R(4) a b in_set_takeD by metis
  qed
  ultimately show ?thesis by blast
qed

definition demo_passage :: "string \<Rightarrow> nat \<Rightarrow> passage" where
  "demo_passage p n = \<lparr> pg_path = lit p, pg_title = [], pg_start_line = n, pg_end_line = n, pg_body = [] \<rparr>"

theorem fuse_rrf_correct_witness:
  "length (fuse_rrf id [demo_passage ''a'' 0, demo_passage ''b'' 0] [demo_passage ''c'' 0, demo_passage ''a'' 0] 10) = 3"
proof -
  have "card (passage_key ` set ([demo_passage ''a'' 0, demo_passage ''b'' 0] @ [demo_passage ''c'' 0, demo_passage ''a'' 0])) = 3"
    by (simp add: passage_key_def demo_passage_def lit_def card_insert_if)
  then show ?thesis
    using fuse_rrf_correct [OF _ refl, where hash_order = id and limit = 10
        and lexical = "[demo_passage ''a'' 0, demo_passage ''b'' 0]" and dense = "[demo_passage ''c'' 0, demo_passage ''a'' 0]"]
    by simp
qed


section \<open>The query is harmless\<close>

text \<open>What a bare token of an FTS5 query may consist of: no operator can be spelled with it.\<close>

definition fts_token_char :: "uchar \<Rightarrow> bool" where
  "fts_token_char c \<longleftrightarrow> (48 \<le> c \<and> c \<le> 57) \<or> (97 \<le> c \<and> c \<le> 122) \<or> 128 \<le> c"

text \<open>The law of the Unicode tables that is relied on: lower-casing alphanumeric characters leaves no
  ASCII character other than digits and small letters.\<close>

definition lowercase_law :: "unicode \<Rightarrow> bool" where
  "lowercase_law u \<longleftrightarrow> (\<forall>s. list_all (is_alphanumeric u) s \<longrightarrow> list_all fts_token_char (to_lowercase u s))"

lemma lowercase_law_ascii: "lowercase_law ascii_unicode"
  by (auto simp: lowercase_law_def ascii_unicode_def list_all_iff to_ascii_lowercase_def to_ascii_lowercase_char_def
      fts_token_char_def)

lemma fts_tokens_shape:
  "\<exists>ts. fts_tokens u seen raws = map (\<lambda>t. t @ lit ''*'') ts \<and> distinct ts \<and> set ts \<inter> set seen = {}
     \<and> (\<forall>t \<in> set ts. 2 \<le> str_len t \<and> t \<in> (to_lowercase u \<circ> trim) ` set raws)"
proof (induction raws arbitrary: seen)
  case Nil
  show ?case by (intro exI [of _ "[]"]) simp
next
  case (Cons raw raws)
  let ?t = "to_lowercase u (trim raw)"
  show ?case
  proof (cases "str_len ?t < 2 \<or> ?t \<in> set seen")
    case True
    then have "fts_tokens u seen (raw # raws) = fts_tokens u seen raws" by (auto simp: Let_def)
    then show ?thesis using Cons.IH [of seen] by auto
  next
    case False
    obtain ts where ts: "fts_tokens u (?t # seen) raws = map (\<lambda>t. t @ lit ''*'') ts" "distinct ts"
      "set ts \<inter> set (?t # seen) = {}" "\<forall>t \<in> set ts. 2 \<le> str_len t \<and> t \<in> (to_lowercase u \<circ> trim) ` set raws"
      using Cons.IH [of "?t # seen"] by blast
    then show ?thesis using False by (intro exI [of _ "?t # ts"]) (auto simp: Let_def)
  qed
qed

text \<open>Any question gives a well-formed FTS5 query: prefix terms over distinct tokens of at least two
  bytes, made of characters no operator contains, joined by \<open>OR\<close>.\<close>

theorem to_fts_query_safe:
  assumes "lowercase_law u"
  shows "\<exists>ts. to_fts_query u query = str_join (lit '' OR '') (map (\<lambda>t. t @ lit ''*'') ts) \<and> distinct ts
    \<and> list_all (\<lambda>t. 2 \<le> str_len t \<and> list_all fts_token_char t) ts"
proof -
  let ?raws = "split_on (\<lambda>c. \<not> is_alphanumeric u c) query"
  obtain ts where ts: "fts_tokens u [] ?raws = map (\<lambda>t. t @ lit ''*'') ts" "distinct ts"
    "\<forall>t \<in> set ts. 2 \<le> str_len t \<and> t \<in> (to_lowercase u \<circ> trim) ` set ?raws"
    using fts_tokens_shape [of u "[]" ?raws] by blast
  have "list_all fts_token_char t" if "t \<in> set ts" for t
  proof -
    obtain raw where raw: "raw \<in> set ?raws" "t = to_lowercase u (trim raw)" using ts(3) \<open>t \<in> set ts\<close> by auto
    then have "list_all (is_alphanumeric u) (trim raw)"
      using split_on_pieces [OF raw(1)] set_trim_subset [of raw] by (auto simp: list_all_iff)
    then show ?thesis using assms raw(2) by (simp add: lowercase_law_def)
  qed
  then show ?thesis using ts by (intro exI [of _ ts]) (auto simp: to_fts_query_def list_all_iff)
qed

theorem to_fts_query_safe_witness:
  "\<exists>ts. to_fts_query ascii_unicode (lit ''a AND (b OR c)'') = str_join (lit '' OR '') (map (\<lambda>t. t @ lit ''*'') ts)
     \<and> list_all (\<lambda>t. 2 \<le> str_len t \<and> list_all fts_token_char t) ts"
  using to_fts_query_safe [OF lowercase_law_ascii, of "lit ''a AND (b OR c)''"] by blast

section \<open>What is found\<close>

lemma vector_search_subset: "set (vector_search v limit d) \<subseteq> (er_passage \<circ> snd) ` set (ix_embeddings d)"
  by (auto simp: vector_search_def Let_def dest!: in_set_takeD split: prod.splits) (metis comp_apply image_eqI snd_conv)

lemma length_vector_search: "length (vector_search v limit d) \<le> limit"
  by (simp add: vector_search_def Let_def)

text \<open>What SQLite promises of a \<open>MATCH ... LIMIT\<close>, and the standard library of a map's iteration.\<close>

definition retriever_ok :: "retriever \<Rightarrow> bool" where
  "retriever_ok rt \<longleftrightarrow> (\<forall>q n rows. set (rt_fts rt q n rows) \<subseteq> set rows \<and> length (rt_fts rt q n rows) \<le> n)
     \<and> (\<forall>s. mset (rt_hash_order rt s) = mset s)"

lemma fuse_rrf_subset:
  assumes "\<And>s. mset (hash_order s) = mset s"
  shows "set (fuse_rrf hash_order lexical dense limit) \<subseteq> set lexical \<union> set dense
    \<and> length (fuse_rrf hash_order lexical dense limit) \<le> limit"
proof -
  note R = fuse_rrf_ranking [where hash_order = hash_order and lexical = lexical and dense = dense, OF assms]
  have "the (find (\<lambda>p. passage_key p = fst r) (lexical @ dense)) \<in> set lexical \<union> set dense"
    if "r \<in> set (take limit (sort_by cmp_rank_desc (hash_order (fst (fuse_tables lexical dense)))))" for r
  proof -
    have "fst r \<in> passage_key ` set (lexical @ dense)" using that R(3) by (metis imageI in_set_takeD)
    from find_key [OF this] show ?thesis by auto
  qed
  then show ?thesis by (auto simp: R(1))
qed

lemma retrieve_hybrid_triple:
  assumes "retriever_ok rt"
  shows "outE (\<lambda>w. iw_db w = db) (retrieve_hybrid rt fault query limit qv)
     (\<lambda>ps w. iw_db w = db \<and> length ps \<le> limit
       \<and> set ps \<subseteq> set (ix_chunks db) \<union> (if qv = None then {} else (er_passage \<circ> snd) ` set (ix_embeddings db)))
     (\<lambda>_ w. iw_db w = db)"
  unfolding retrieve_hybrid_def Let_def
proof (intro outE_bind)
  let ?lex = "\<lambda>lexical w. iw_db w = db \<and> length lexical \<le> limit \<and> set lexical \<subseteq> set (ix_chunks db)"
  show "outE (\<lambda>w. iw_db w = db) (if to_fts_query (rt_unicode rt) query = [] then okE []
      else search_fts rt fault (to_fts_query (rt_unicode rt) query) limit) ?lex (\<lambda>_ w. iw_db w = db)"
    using assms
    by (auto simp: search_fts_def retriever_ok_def intro!: outE_okE outE_conseq [OF sql_query_triple [where P = "\<lambda>d. d = db"]])
  fix lexical :: "passage list"
  let ?dense = "\<lambda>dense w. ?lex lexical w \<and> length dense \<le> limit
    \<and> set dense \<subseteq> (if qv = None then {} else (er_passage \<circ> snd) ` set (ix_embeddings db))"
  show "outE (?lex lexical) (case qv of Some v \<Rightarrow> if v \<noteq> [] then sql_query fault (vector_search v limit) else okE []
      | None \<Rightarrow> okE []) ?dense (\<lambda>_ w. iw_db w = db)"
  proof (cases qv)
    case None
    then show ?thesis by (auto intro!: outE_okE)
  next
    case (Some v)
    have "outE (?lex lexical) (sql_query fault (vector_search v limit)) ?dense (\<lambda>_ w. iw_db w = db)"
      by (rule outE_conseq [OF sql_query_triple
            [where P = "\<lambda>d. d = db \<and> length lexical \<le> limit \<and> set lexical \<subseteq> set (ix_chunks db)"]])
        (use vector_search_subset length_vector_search Some in auto)
    then show ?thesis using Some by (auto intro!: outE_okE)
  qed
  fix dense :: "passage list"
  show "outE (?dense dense) (if dense = [] then okE lexical else okE (fuse_rrf (rt_hash_order rt) lexical dense limit))
      (\<lambda>ps w. iw_db w = db \<and> length ps \<le> limit
       \<and> set ps \<subseteq> set (ix_chunks db) \<union> (if qv = None then {} else (er_passage \<circ> snd) ` set (ix_embeddings db)))
      (\<lambda>_ w. iw_db w = db)"
    using assms fuse_rrf_subset [of "rt_hash_order rt" lexical dense limit]
    by (auto simp: retriever_ok_def intro!: outE_okE)
qed


section \<open>The history of an index\<close>

text \<open>An index in use: it starts empty, and synchronisation and embedding passes are made over it while the
  vault goes through the states \<open>V\<close>; any of them may fail at any statement, and anything else, such as a
  search, leaves the database alone.\<close>

type_synonym vault_state = "vault \<times> path \<times> fs_node"

inductive index_history :: "vault_state set \<Rightarrow> 'x index_world \<Rightarrow> bool" for V where
  hist_empty: "iw_db w = index_empty \<Longrightarrow> index_history V w"
| hist_sync: "index_history V w \<Longrightarrow> (files, dir, tree) \<in> V \<Longrightarrow> sync_vault fault files key_order dir tree w = (r, w')
    \<Longrightarrow> index_history V w'"
| hist_embed: "index_history V w \<Longrightarrow> (files, dir, tree) \<in> V \<Longrightarrow> embed_pending fault files embedder model w = (r, w')
    \<Longrightarrow> index_history V w'"
| hist_other: "index_history V w \<Longrightarrow> iw_db w' = iw_db w \<Longrightarrow> index_history V w'"

text \<open>A path that the vault listed as a Markdown note, and a passage that is a chunk of a text that such a note had.\<close>

definition listed :: "vault_state set \<Rightarrow> path \<Rightarrow> bool" where
  "listed V p \<longleftrightarrow> (\<exists>files dir tree. (files, dir, tree) \<in> V \<and> p \<in> set (collect_markdown dir tree))"

definition quoted :: "vault_state set \<Rightarrow> passage \<Rightarrow> bool" where
  "quoted V row \<longleftrightarrow> listed V (pg_path row) \<and> (\<exists>files dir tree content. (files, dir, tree) \<in> V
     \<and> nf_content (files (pg_path row)) = Some content \<and> row \<in> set (note_rows (pg_path row) content))"

definition all_quoted :: "vault_state set \<Rightarrow> index_db \<Rightarrow> bool" where
  "all_quoted V d \<longleftrightarrow> (\<forall>row \<in> set (ix_chunks d). quoted V row) \<and> (\<forall>e \<in> set (ix_embeddings d). quoted V (er_passage (snd e)))
     \<and> (\<forall>p \<in> set (keys (ix_sources d)). listed V p)"

abbreviation keeps_quoted :: "vault_state set \<Rightarrow> ('x, 'a) search \<Rightarrow> bool" where
  "keeps_quoted V m \<equiv> outE (\<lambda>w. all_quoted V (iw_db w)) m (\<lambda>_ w. all_quoted V (iw_db w)) (\<lambda>_ w. all_quoted V (iw_db w))"

lemma keeps_exec: "(\<And>d. all_quoted V d \<Longrightarrow> all_quoted V (f d)) \<Longrightarrow> keeps_quoted V (sql_exec fault f)"
  by (rule sql_exec_triple)

lemma keeps_bind: "keeps_quoted V m \<Longrightarrow> (\<And>x. keeps_quoted V (f x)) \<Longrightarrow> keeps_quoted V (bindE m f)"
  by (rule outE_bind)

lemma keeps_okE: "keeps_quoted V (okE x)"
  by (rule outE_okE)

lemma all_quoted_deletes:
  "all_quoted V d \<Longrightarrow> all_quoted V (delete_chunks p d)" "all_quoted V d \<Longrightarrow> all_quoted V (delete_embeddings p d)"
  "all_quoted V d \<Longrightarrow> all_quoted V (d\<lparr> ix_sources := filter P (ix_sources d) \<rparr>)"
  by (auto simp: all_quoted_def delete_chunks_def delete_embeddings_def keys_def)

lemma all_quoted_adds:
  "all_quoted V d \<Longrightarrow> quoted V row \<Longrightarrow> all_quoted V (d\<lparr> ix_chunks := ix_chunks d @ [row] \<rparr>)"
  "all_quoted V d \<Longrightarrow> quoted V (er_passage (snd e)) \<Longrightarrow> all_quoted V (d\<lparr> ix_embeddings := ix_embeddings d @ [e] \<rparr>)"
  by (auto simp: all_quoted_def)

lemma keys_stamp: "keys (stamp p fp t) = keys t"
  by (auto simp: keys_def stamp_def)

lemma note_rows_path: "row \<in> set (note_rows p content) \<Longrightarrow> pg_path row = p"
  by (auto simp: note_rows_def chunk_row_def)

lemma note_rows_quoted:
  assumes "listed V p" "(files, dir, tree) \<in> V" "nf_content (files p) = Some content" "row \<in> set (note_rows p content)"
  shows "quoted V row"
  using assms note_rows_path [OF assms(4)] unfolding quoted_def by blast

lemma keeps_insert_chunks: "(\<forall>row \<in> set rows. quoted V row) \<Longrightarrow> keeps_quoted V (insert_chunks fault rows)"
  by (induction rows) (auto intro!: keeps_okE keeps_bind keeps_exec all_quoted_adds)

lemma keeps_index_file:
  assumes "listed V p" "(files, dir, tree) \<in> V" "nf_content (files p) = Some content"
  shows "keeps_quoted V (index_file fault p content)"
  unfolding index_file_def Let_def note_rows_def [symmetric]
  by (intro keeps_bind keeps_exec all_quoted_deletes keeps_insert_chunks ballI note_rows_quoted [OF assms])

lemma keeps_upsert_source: "listed V p \<Longrightarrow> keeps_quoted V (upsert_source fault p fp)"
  unfolding upsert_source_def by (rule keeps_exec) (auto simp: all_quoted_def keys_upsert split: if_splits)

lemma keeps_sync_files:
  "(files, dir, tree) \<in> V \<Longrightarrow> (\<forall>p \<in> set ps. listed V p) \<Longrightarrow> keeps_quoted V (sync_files fault files known stats ps)"
  by (induction ps arbitrary: stats)
    (auto split: option.split intro!: keeps_okE keeps_bind keeps_index_file keeps_upsert_source)

lemma keeps_prune_sources: "keeps_quoted V (prune_sources fault stats ks)"
  by (induction ks arbitrary: stats)
    (auto simp: delete_source_def intro!: keeps_okE keeps_bind keeps_exec all_quoted_deletes)

lemma keeps_sync_vault:
  assumes "(files, dir, tree) \<in> V"
  shows "keeps_quoted V (sync_vault fault files key_order dir tree)"
  unfolding sync_vault_def Let_def
proof (rule keeps_bind)
  show "keeps_quoted V (sql_query fault known_sources)"
    by (rule outE_conseq [OF sql_query_triple [where P = "all_quoted V"]]) auto
  have "\<forall>p \<in> set (collect_markdown dir tree). listed V p" using assms unfolding listed_def by blast
  then show "keeps_quoted V (bindE (sync_files fault files (map_of rows) sync_stats_default (collect_markdown dir tree))
      (\<lambda>stats. prune_sources fault stats (filter (\<lambda>k. k \<notin> set (collect_markdown dir tree)) (key_order (map fst rows)))))" for rows
    by (intro keeps_bind keeps_sync_files [OF assms] keeps_prune_sources)
qed

lemma keeps_insert_embeddings:
  "(\<forall>row \<in> set rows. quoted V (fst row)) \<Longrightarrow> keeps_quoted V (insert_embeddings fault p ix rows)"
  by (induction rows arbitrary: ix) (auto intro!: keeps_okE keeps_bind keeps_exec all_quoted_adds)

lemma keeps_store_embeddings:
  "(\<forall>row \<in> set rows. quoted V (fst row)) \<Longrightarrow> keeps_quoted V (store_embeddings fault p fp rows)"
  unfolding store_embeddings_def
  by (intro keeps_bind keeps_exec all_quoted_deletes keeps_insert_embeddings) (auto simp: all_quoted_def keys_stamp)

lemma keeps_embed_notes:
  assumes "(files, dir, tree) \<in> V"
  shows "(\<forall>p \<in> set ps. listed V p) \<Longrightarrow> keeps_quoted V (embed_notes fault files embedder model n ps)"
proof (induction ps arbitrary: n)
  case Nil
  then show ?case by (simp add: keeps_okE)
next
  case (Cons p ps)
  have IH: "keeps_quoted V (embed_notes fault files embedder model m ps)" for m
    using Cons by simp
  show ?case
  proof (cases "read_and_chunk files p")
    case None
    then show ?thesis using IH by simp
  next
    case (Some rc)
    obtain fp chunks where rc: "read_and_chunk files p = Some (fp, chunks)" using Some by (cases rc) auto
    then have q: "quoted V row" if "row \<in> set chunks" for row
      using that note_rows_quoted [OF _ assms] Cons.prems
      by (auto simp: read_and_chunk_def note_rows_def Let_def split: option.splits)
    have store: "keeps_quoted V (bindE (store_embeddings fault p fp (zip chunks vs)) (\<lambda>_. embed_notes fault files embedder model (n + 1) ps))" for vs
      by (intro keeps_bind keeps_store_embeddings IH) (auto dest!: set_zip_leftD intro: q)
    show ?thesis
    proof (cases "chunks = []")
      case True
      then show ?thesis using rc store [of "[]"] by simp
    next
      case False
      have stop: "keeps_quoted V (\<lambda>w. (Inr n, w))" by (simp add: outE_def)
      have "keeps_quoted V (\<lambda>w'. if length (es_vectors r) \<noteq> length chunks then embed_notes fault files embedder model n ps w'
          else bindE (store_embeddings fault p fp (zip chunks (es_vectors r)))
            (\<lambda>_. embed_notes fault files embedder model (n + 1) ps) w')" for r
        using IH store by (cases "length (es_vectors r) = length chunks") simp_all
      from outE_call_embed [OF stop this] show ?thesis using rc False by simp
    qed
  qed
qed

lemma keeps_embed_pending:
  assumes "(files, dir, tree) \<in> V"
  shows "keeps_quoted V (embed_pending fault files embedder model)"
  unfolding embed_pending_def
proof (rule outE_bind)
  show "outE (\<lambda>w. all_quoted V (iw_db w)) (sql_query fault pending_paths)
      (\<lambda>ps w. all_quoted V (iw_db w) \<and> (\<forall>p \<in> set ps. listed V p)) (\<lambda>_ w. all_quoted V (iw_db w))"
    by (rule outE_conseq [OF sql_query_triple [where P = "all_quoted V"]])
      (auto simp: all_quoted_def pending_paths_def keys_def)
  show "outE (\<lambda>w. all_quoted V (iw_db w) \<and> (\<forall>p \<in> set ps. listed V p)) (embed_notes fault files embedder model 0 ps)
      (\<lambda>_ w. all_quoted V (iw_db w)) (\<lambda>_ w. all_quoted V (iw_db w))" for ps
  proof (cases "\<forall>p \<in> set ps. listed V p")
    case True
    show ?thesis by (rule outE_conseq [OF keeps_embed_notes [OF assms True]]) auto
  qed (auto simp: outE_def)
qed

lemma history_quoted: "index_history V w \<Longrightarrow> all_quoted V (iw_db w)"
proof (induction rule: index_history.induct)
  case (hist_empty w)
  then show ?case by (simp add: all_quoted_def index_empty_def keys_def)
next
  case (hist_sync w files dir tree fault key_order r w')
  from keeps_sync_vault [OF hist_sync.hyps(2), of fault key_order] hist_sync.IH hist_sync.hyps(3) show ?case
    by (cases r) (auto dest: outE_ok outE_err)
next
  case (hist_embed w files dir tree fault embedder model r w')
  from keeps_embed_pending [OF hist_embed.hyps(2), of fault embedder model] hist_embed.IH hist_embed.hyps(3) show ?case
    by (cases r) (auto dest: outE_ok outE_err)
next
  case (hist_other w w')
  then show ?case by simp
qed

lemma chunk_markdown_cited: "c \<in> set (chunk_markdown content n) \<Longrightarrow> cites (md_lines content) c"
  by (auto simp: chunk_markdown_map md_chunk_cites)


text \<open>A full-text engine that finds every row.\<close>

definition demo_retriever :: retriever where
  "demo_retriever = \<lparr> rt_unicode = ascii_unicode, rt_fts = (\<lambda>q n rows. take n rows), rt_hash_order = id \<rparr>"

lemma demo_fts_query: "to_fts_query ascii_unicode (lit ''Hi'') = lit ''hi*''"
  by (simp add: to_fts_query_def lit_def ascii_unicode_def trim_def trim_start_def trim_end_def is_whitespace_def
      to_ascii_lowercase_def to_ascii_lowercase_char_def)

lemma demo_history: "index_history {(demo_vault, lit ''/v'', demo_tree)} (demo_world\<lparr> iw_db := demo_index, iw_tick := 4 \<rparr>)"
proof (rule hist_sync [OF _ _ demo_sync])
  show "index_history {(demo_vault, lit ''/v'', demo_tree)} demo_world"
    by (rule hist_empty) (simp add: demo_world_def)
qed simp


section \<open>Scores that are not numbers\<close>

text \<open>A component of about ten to the power of 30 overflows the sums of the similarity: the score is NaN, which
  the filter \<open>score <= 0.0\<close> keeps and the sort treats as equal to everything.\<close>

lemma overflow_value: "f32_value 0x7149F2CA = Finite (13234890 * 2 ^ 76)"
  by (simp add: f32_value_def pow2_def)

lemma overflow_product: "fmul binary32 (f32_value 0x7149F2CA) (f32_value 0x7149F2CA) = PosInf"
proof -
  have "\<lfloor>43790578328025 / 4194304 :: rat\<rfloor> = 10440487" by (simp add: floor_eq_iff)
  then show ?thesis
    by (simp add: overflow_value round_to_def ilog2_def bit_len.simps quantum_def binary32_def Let_def pow2_def
        overflowing_def round_half_even_def)
qed

lemma overflow_scores_NaN: "cosine_similarity [0x7149F2CA] [0x7149F2CA] = NaN"
  by (simp add: cosine_similarity_def overflow_product f64_zero_def)

end
