(* ===== verification/Search_Qa.thy ===== *)
theory Search_Qa
  imports Search_Retrieve
begin

text \<open>
  Source-grounded answering (\<open>engine/src/search/qa.rs\<close>): the prompt, the cleaning of the reply and the
  answer with its citations. The model is the \<open>generate\<close> function of a provider; answering cannot fail.
  \<open>f32\<close> literals are their bit patterns: 0.2 is \<open>0x3E4CCCCD\<close>.
\<close>

section \<open>The code\<close>

definition DEFAULT_TOP_K :: nat where "DEFAULT_TOP_K = 6"

definition QA_SYSTEM_PROMPT :: ustr where
  "QA_SYSTEM_PROMPT = lit (''You are Notely, answering questions strictly from the user'' @ [CHR 0x27]
     @ ''s own notes. Use ONLY the numbered sources provided. Support every claim with a citation marker like ''
     @ ''[1] or [2] that refers to the source it came from. If the sources do not contain the answer, say ''
     @ ''so plainly. Never invent facts, names, dates, or sources. Answer concisely in Markdown.'')"

definition source_lines :: "passage \<Rightarrow> ustr" where
  "source_lines p = (if pg_start_line p = pg_end_line p then lit ''line '' @ show_nat (pg_start_line p + 1)
     else lit ''lines '' @ show_nat (pg_start_line p + 1) @ lit ''-'' @ show_nat (pg_end_line p + 1))"

fun prompt_sources :: "nat \<Rightarrow> passage list \<Rightarrow> ustr" where
  "prompt_sources i [] = []"
| "prompt_sources i (p # ps) =
     lit ''['' @ show_nat (i + 1) @ lit ''] '' @ pg_title p @ lit '' ('' @ source_lines p @ lit ''):'' @ [nl]
       @ trim (pg_body p) @ [nl, nl] @ prompt_sources (i + 1) ps"

definition build_prompt :: "ustr \<Rightarrow> passage list \<Rightarrow> ustr" where
  "build_prompt question passages = lit ''Question: '' @ trim question @ [nl, nl] @ lit ''Sources:'' @ [nl]
     @ prompt_sources 0 passages
     @ lit ''Answer the question using only these sources, citing them by number (e.g. [1]).''"

text \<open>The loop that removes \<open><think>...</think>\<close>: an unclosed block removes the rest.\<close>

definition think_open :: ustr where "think_open = lit ''<think>''"
definition think_close :: ustr where "think_close = lit ''</think>''"

function clean_loop :: "ustr \<Rightarrow> ustr" where
  "clean_loop s = (case str_find think_open s of
       None \<Rightarrow> s
     | Some start \<Rightarrow> (case str_find think_close (drop start s) of
          Some k \<Rightarrow> clean_loop (take start s @ drop (start + k + length think_close) s)
        | None \<Rightarrow> take start s))"
  by pat_completeness auto
termination
proof (relation "measure length", goal_cases)
  case (2 s start k)
  then have "start + length think_open \<le> length s" using str_find_Some by blast
  moreover have "length think_open = 7" "length think_close = 8" by (simp_all add: think_open_def think_close_def)
  ultimately show ?case by simp
qed simp

declare clean_loop.simps [simp del]

definition clean_answer :: "ustr \<Rightarrow> ustr" where
  "clean_answer s = trim (clean_loop (trim s))"

definition lead :: "ustr \<Rightarrow> ustr" where
  "lead s = (let s = trim s in if length s > 150 then trim_end (take 150 s) @ [0x2026] else s)"

fun fallback_items :: "nat \<Rightarrow> citation list \<Rightarrow> ustr" where
  "fallback_items i [] = []"
| "fallback_items i (c # cs) =
     lit ''- '' @ lead (ct_snippet c) @ lit '' ['' @ show_nat (i + 1) @ lit '']'' @ [nl] @ fallback_items (i + 1) cs"

definition fallback_text :: "ustr \<Rightarrow> citation list \<Rightarrow> ustr" where
  "fallback_text question citations =
     lit (''Here'' @ [CHR 0x27] @ ''s what I found in your notes about **'') @ trim question @ lit ''**:'' @ [nl, nl]
       @ fallback_items 0 citations @ [nl] @ lit ''Click a citation to open the exact passage.''"

definition passage_preview :: "ustr \<Rightarrow> ustr" where
  "passage_preview body = snippet body 240"

definition citation_of :: "passage \<Rightarrow> citation" where
  "citation_of p = \<lparr> ct_path = pg_path p, ct_start_line = pg_start_line p, ct_end_line = pg_end_line p,
     ct_snippet = passage_preview (pg_body p) \<rparr>"

fun unique_paths_loop :: "ustr list \<Rightarrow> citation list \<Rightarrow> ustr list" where
  "unique_paths_loop out [] = out"
| "unique_paths_loop out (c # cs) =
     unique_paths_loop (if ct_path c \<in> set out then out else out @ [ct_path c]) cs"

definition unique_paths :: "citation list \<Rightarrow> ustr list" where
  "unique_paths cs = unique_paths_loop [] cs"

definition nothing_found :: "ustr \<Rightarrow> ustr" where
  "nothing_found question = lit (''I couldn'' @ [CHR 0x27] @ ''t find anything about **'') @ trim question
     @ lit ''** in this vault.'' @ [nl, nl] @ lit ''Try different keywords, or add a note about it.''"

definition qa_request :: "ustr \<Rightarrow> passage list \<Rightarrow> ustr option \<Rightarrow> generate_request" where
  "qa_request question passages model =
     (with_temperature 0x3E4CCCCD (with_system QA_SYSTEM_PROMPT (request_new (build_prompt question passages))))
       \<lparr> rq_model := model \<rparr>"

definition answer :: "'s llm_generate \<Rightarrow> ustr \<Rightarrow> passage list \<Rightarrow> ustr option \<Rightarrow> 's \<Rightarrow> ask_answer \<times> 's" where
  "answer llm question passages model s =
     (let citations = map citation_of passages; files_read = unique_paths citations in
      if passages = []
      then (\<lparr> an_text = nothing_found question, an_files_read = files_read, an_citations = citations \<rparr>, s)
      else case llm (qa_request question passages model) s of
          (Inr resp, s') \<Rightarrow>
            (let text = clean_answer (rs_text resp);
                 text = (if text = [] then fallback_text question citations else text)
             in (\<lparr> an_text = text, an_files_read = files_read, an_citations = citations \<rparr>, s'))
        | (Inl _, s') \<Rightarrow>
            (\<lparr> an_text = fallback_text question citations, an_files_read = files_read, an_citations = citations \<rparr>, s'))"

section \<open>The cleaned reply\<close>

lemma str_find_first: "str_find n h = Some i \<Longrightarrow> n \<noteq> [] \<Longrightarrow> \<not> sublist n (take (i + length n - 1) h)"
proof (induction h arbitrary: i)
  case Nil
  then show ?case by (simp split: if_splits)
next
  case (Cons c h)
  show ?case
  proof (cases "prefix n (c # h)")
    case True
    then have "i = 0" using Cons.prems by simp
    have "length (take (length n - 1) (c # h)) < length n" using Cons.prems(2) by (cases n) auto
    then show ?thesis using \<open>i = 0\<close> sublist_length_le [of n "take (length n - 1) (c # h)"] by auto
  next
    case False
    then obtain j where j: "i = Suc j" "str_find n h = Some j" using Cons.prems(1) by auto
    have "take (i + length n - 1) (c # h) = c # take (j + length n - 1) h"
      using Cons.prems(2) j(1) by (cases n) auto
    moreover have "\<not> prefix n (c # take (j + length n - 1) h)"
      using False take_is_prefix [of "j + length n - 1" h] by (metis Cons_prefix_Cons prefix_order.trans)
    ultimately show ?thesis using Cons.IH [OF j(2) Cons.prems(2)] by (simp add: sublist_Cons_right)
  qed
qed

lemma clean_loop_no_think: "\<not> sublist think_open (clean_loop s)"
proof (induction s rule: clean_loop.induct)
  case (1 s)
  show ?case
  proof (cases "str_find think_open s")
    case None
    then show ?thesis using str_find_None_iff [of think_open s] by (simp add: clean_loop.simps [of s])
  next
    case (Some start)
    have ne: "think_open \<noteq> []" by (simp add: think_open_def lit_def)
    show ?thesis
    proof (cases "str_find think_close (drop start s)")
      case None
      have "prefix (take start s) (take (start + length think_open - 1) s)"
        using take_is_prefix [of start "take (start + length think_open - 1) s"]
        by (simp add: think_open_def min_def)
      then have "\<not> sublist think_open (take start s)"
        using str_find_first [OF Some ne] by (meson prefix_imp_sublist sublist_order.order_trans)
      then show ?thesis using Some None by (simp add: clean_loop.simps [of s])
    next
      case (Some k)
      then show ?thesis using 1 \<open>str_find think_open s = Some start\<close> by (simp add: clean_loop.simps [of s])
    qed
  qed
qed

text \<open>C38. Cleaning always ends, and whatever the model wrote - nested, unclosed or interleaved markers, or
  markers that only appear when others are removed - no \<open><think>\<close> is left in what the user sees.\<close>

theorem clean_answer_no_think: "\<not> str_contains (clean_answer reply) think_open"
proof -
  have "sublist (clean_answer reply) (clean_loop (trim reply))" unfolding clean_answer_def by (rule sublist_trim)
  then have "\<not> sublist think_open (clean_answer reply)"
    using clean_loop_no_think [of "trim reply"] by (meson sublist_order.order_trans)
  then show ?thesis by (simp add: str_contains_iff)
qed


section \<open>The answer\<close>

lemma unique_paths_loop_eq:
  "distinct out \<Longrightarrow> unique_paths_loop out cs = rev (remdups (rev (out @ map ct_path cs)))"
proof (induction cs arbitrary: out)
  case Nil
  then show ?case by (simp add: distinct_remdups_id)
next
  case (Cons c cs)
  have "remdups (rs @ p # xs) = remdups (rs @ xs)" if "p \<in> set xs" for p :: ustr and rs xs
    using that by (induction rs) auto
  from this [of "ct_path c" "rev out" "rev (map ct_path cs)"] show ?case
    using Cons.IH [of out] Cons.IH [of "out @ [ct_path c]"] Cons.prems
    by (auto simp: remdups_append2)
qed

lemma unique_paths_eq: "unique_paths cs = rev (remdups (rev (map ct_path cs)))"
  by (simp add: unique_paths_def unique_paths_loop_eq)

lemma lit_nonblank: "c \<in> set s \<Longrightarrow> \<not> is_whitespace (of_char c) \<Longrightarrow> trim (a @ lit s @ b) \<noteq> []"
  by (rule trim_nonblank [of "of_char c"]) (auto simp: lit_def)

lemma fallback_nonblank: "trim (fallback_text question citations) \<noteq> []"
  unfolding fallback_text_def
  by (rule lit_nonblank [of "CHR ''H''" _ "[]", simplified]) (simp_all add: is_whitespace_def)

lemma nothing_found_nonblank: "trim (nothing_found question) \<noteq> []"
  unfolding nothing_found_def
  by (rule lit_nonblank [of "CHR ''I''" _ "[]", simplified]) (simp_all add: is_whitespace_def)

lemma answer_shape:
  "an_citations (fst (answer llm question passages model s)) = map citation_of passages
   \<and> an_files_read (fst (answer llm question passages model s)) = rev (remdups (rev (map pg_path passages)))
   \<and> trim (an_text (fst (answer llm question passages model s))) \<noteq> []
   \<and> snd (answer llm question passages model s)
       = (if passages = [] then s else snd (llm (qa_request question passages model) s))"
proof -
  have "ct_path \<circ> citation_of = pg_path" by (rule ext) (simp add: citation_of_def)
  moreover have "trim (clean_answer t) \<noteq> []" if "clean_answer t \<noteq> []" for t
    using that by (simp add: clean_answer_def)
  ultimately show ?thesis
    using fallback_nonblank nothing_found_nonblank
    by (auto simp: answer_def unique_paths_eq Let_def split: prod.splits sum.splits)
qed

text \<open>Asking never fails and is always traceable: whatever the model does, the answer cites exactly the
  retrieved passages in order, lists their notes once each in order of first use, and has a text that
  is not blank; the model is asked at most once, and not at all when nothing was retrieved.\<close>

theorem answer_grounded:
  "an_citations (fst (answer llm question passages model s)) = map citation_of passages
   \<and> an_files_read (fst (answer llm question passages model s)) = rev (remdups (rev (map pg_path passages)))
   \<and> trim (an_text (fst (answer llm question passages model s))) \<noteq> []
   \<and> snd (answer llm question passages model s)
       = (if passages = [] then s else snd (llm (qa_request question passages model) s))"
  by (rule answer_shape)

end
