(* ===== verification/Config.thy ===== *)
theory Config
  imports Preprocess Rust_Path Jobs
begin

text \<open>
  The engine's configuration (\<open>engine/src/config.rs\<close>): the defaults, what the environment overrides and
  the paths derived from the data directory. An environment is a function from variable names to the
  values \<open>std::env::var\<close> returns; a \<open>Duration\<close> is its number of seconds, and a \<open>SocketAddr\<close> is its
  text, which the parameter \<open>parse_addr\<close> (the standard library's parser) returns in canonical form.
\<close>

section \<open>The knobs\<close>

type_synonym environment = "ustr \<Rightarrow> ustr option"

datatype llm_provider_kind = Ollama | Mlx

definition llm_provider_kind_parse :: "ustr \<Rightarrow> llm_provider_kind option" where
  "llm_provider_kind_parse s = (let k = to_ascii_lowercase (trim s) in
     if k = lit ''ollama'' then Some Ollama
     else if k = lit ''mlx'' \<or> k = lit ''mlx-lm'' \<or> k = lit ''mlx_lm'' then Some Mlx else None)"

datatype asr_provider_kind = Qwen3Asr | Whisper | Fixture

definition asr_provider_kind_parse :: "ustr \<Rightarrow> asr_provider_kind option" where
  "asr_provider_kind_parse s = (let k = to_ascii_lowercase (trim s) in
     if k = lit ''qwen3-asr'' \<or> k = lit ''qwen3_asr'' \<or> k = lit ''qwen'' then Some Qwen3Asr
     else if k = lit ''whisper'' then Some Whisper
     else if k = lit ''fixture'' \<or> k = lit ''mock'' then Some Fixture else None)"

text \<open>\<open>MlxConfig\<close>, \<open>OllamaConfig\<close>: the same fields.\<close>

record runtime_config =
  rc_base_url :: ustr
  rc_model :: ustr
  rc_timeout :: nat

definition DEFAULT_LLM_MODEL :: ustr where "DEFAULT_LLM_MODEL = lit ''qwen3:1.7b''"

definition mlx_config_default :: runtime_config where
  "mlx_config_default = \<lparr> rc_base_url = lit ''http://localhost:8080'', rc_model = DEFAULT_LLM_MODEL, rc_timeout = 180 \<rparr>"

definition ollama_config_default :: runtime_config where
  "ollama_config_default = \<lparr> rc_base_url = lit ''http://localhost:11434'', rc_model = DEFAULT_LLM_MODEL,
     rc_timeout = 180 \<rparr>"

record model_routes =
  mo_extraction :: "ustr option"
  mo_synthesis :: "ustr option"
  mo_qa :: "ustr option"
  mo_embedding :: "ustr option"

definition model_routes_default :: model_routes where
  "model_routes_default = \<lparr> mo_extraction = None, mo_synthesis = None, mo_qa = None, mo_embedding = None \<rparr>"

record asr_config =
  ac_provider :: asr_provider_kind
  ac_base_url :: ustr
  ac_model :: ustr
  ac_timeout :: nat

definition asr_config_default :: asr_config where
  "asr_config_default = \<lparr> ac_provider = Qwen3Asr, ac_base_url = lit ''http://localhost:9000'',
     ac_model = lit ''qwen3-asr'', ac_timeout = 600 \<rparr>"

record config =
  cf_llm_provider :: llm_provider_kind
  cf_ollama :: runtime_config
  cf_mlx :: runtime_config
  cf_models :: model_routes
  cf_asr :: asr_config
  cf_chunking :: chunking_config
  cf_data_dir :: path
  cf_log_level :: ustr
  cf_ipc_addr :: ustr

text \<open>\<open>default_data_dir\<close> where the target is not macOS.\<close>

definition default_data_dir :: "environment \<Rightarrow> path" where
  "default_data_dir env = (case env (lit ''HOME'') of
     Some dir \<Rightarrow> path_join (path_join (path_join dir (lit ''.local'')) (lit ''share'')) (lit ''notely'')
   | None \<Rightarrow> lit ''.notely-data'')"

definition config_default :: "environment \<Rightarrow> config" where
  "config_default env = \<lparr> cf_llm_provider = Ollama, cf_ollama = ollama_config_default,
     cf_mlx = mlx_config_default, cf_models = model_routes_default, cf_asr = asr_config_default,
     cf_chunking = chunking_config_default, cf_data_dir = default_data_dir env,
     cf_log_level = lit ''info'', cf_ipc_addr = lit ''127.0.0.1:8765'' \<rparr>"

section \<open>Reading the environment\<close>

text \<open>\<open>str::parse::<u64>\<close>: an optional plus sign and at least one digit, in range.\<close>

definition is_digit :: "uchar \<Rightarrow> bool" where
  "is_digit c \<longleftrightarrow> 48 \<le> c \<and> c \<le> 57"

definition parse_u64 :: "ustr \<Rightarrow> nat option" where
  "parse_u64 s = (let ds = (if s \<noteq> [] \<and> hd s = 43 then tl s else s) in
     if ds = [] \<or> \<not> list_all is_digit ds \<or> read_nat ds \<ge> 2 ^ 64 then None else Some (read_nat ds))"

definition env_secs :: "environment \<Rightarrow> ustr \<Rightarrow> nat option" where
  "env_secs env name = Option.bind (env name) parse_u64"

text \<open>\<open>if let Some(v) = value { .. }\<close> on the configuration.\<close>

definition when_some :: "'a option \<Rightarrow> ('a \<Rightarrow> config \<Rightarrow> config) \<Rightarrow> config \<Rightarrow> config" where
  "when_some v f cfg = (case v of Some x \<Rightarrow> f x cfg | None \<Rightarrow> cfg)"

definition env_or :: "'a option \<Rightarrow> 'a option \<Rightarrow> 'a option" where
  "env_or a b = (case a of Some x \<Rightarrow> Some x | None \<Rightarrow> b)"

definition from_env :: "(ustr \<Rightarrow> ustr option) \<Rightarrow> environment \<Rightarrow> config" where
  "from_env parse_addr env =
     (let cfg = config_default env;
          cfg = when_some (Option.bind (env (lit ''NOTELY_LLM_PROVIDER'')) llm_provider_kind_parse)
            (\<lambda>kind c. c\<lparr> cf_llm_provider := kind \<rparr>) cfg;
          cfg = when_some (env (lit ''NOTELY_OLLAMA_URL''))
            (\<lambda>v c. c\<lparr> cf_ollama := (cf_ollama c)\<lparr> rc_base_url := v \<rparr> \<rparr>) cfg;
          cfg = when_some (env_or (env (lit ''NOTELY_LLM_MODEL'')) (env (lit ''NOTELY_OLLAMA_MODEL'')))
            (\<lambda>v c. c\<lparr> cf_ollama := (cf_ollama c)\<lparr> rc_model := v \<rparr>, cf_mlx := (cf_mlx c)\<lparr> rc_model := v \<rparr> \<rparr>) cfg;
          cfg = when_some (env_secs env (lit ''NOTELY_OLLAMA_TIMEOUT_SECS''))
            (\<lambda>d c. c\<lparr> cf_ollama := (cf_ollama c)\<lparr> rc_timeout := d \<rparr> \<rparr>) cfg;
          cfg = when_some (env (lit ''NOTELY_MLX_URL''))
            (\<lambda>v c. c\<lparr> cf_mlx := (cf_mlx c)\<lparr> rc_base_url := v \<rparr> \<rparr>) cfg;
          cfg = when_some (env (lit ''NOTELY_MLX_MODEL''))
            (\<lambda>v c. c\<lparr> cf_mlx := (cf_mlx c)\<lparr> rc_model := v \<rparr> \<rparr>) cfg;
          cfg = when_some (env_secs env (lit ''NOTELY_MLX_TIMEOUT_SECS''))
            (\<lambda>d c. c\<lparr> cf_mlx := (cf_mlx c)\<lparr> rc_timeout := d \<rparr> \<rparr>) cfg;
          cfg = cfg\<lparr> cf_models := \<lparr> mo_extraction = env (lit ''NOTELY_LLM_MODEL_EXTRACTION''),
            mo_synthesis = env (lit ''NOTELY_LLM_MODEL_SYNTHESIS''), mo_qa = env (lit ''NOTELY_LLM_MODEL_QA''),
            mo_embedding = env (lit ''NOTELY_LLM_MODEL_EMBEDDING'') \<rparr> \<rparr>;
          cfg = when_some (Option.bind (env (lit ''NOTELY_ASR_PROVIDER'')) asr_provider_kind_parse)
            (\<lambda>kind c. c\<lparr> cf_asr := (cf_asr c)\<lparr> ac_provider := kind \<rparr> \<rparr>) cfg;
          cfg = when_some (env (lit ''NOTELY_ASR_URL''))
            (\<lambda>v c. c\<lparr> cf_asr := (cf_asr c)\<lparr> ac_base_url := v \<rparr> \<rparr>) cfg;
          cfg = when_some (env (lit ''NOTELY_ASR_MODEL''))
            (\<lambda>v c. c\<lparr> cf_asr := (cf_asr c)\<lparr> ac_model := v \<rparr> \<rparr>) cfg;
          cfg = when_some (env_secs env (lit ''NOTELY_ASR_TIMEOUT_SECS''))
            (\<lambda>d c. c\<lparr> cf_asr := (cf_asr c)\<lparr> ac_timeout := d \<rparr> \<rparr>) cfg;
          cfg = when_some (env (lit ''NOTELY_DATA_DIR'')) (\<lambda>v c. c\<lparr> cf_data_dir := v \<rparr>) cfg;
          cfg = when_some (env (lit ''NOTELY_LOG_LEVEL'')) (\<lambda>v c. c\<lparr> cf_log_level := v \<rparr>) cfg
      in when_some (Option.bind (env (lit ''NOTELY_IPC_ADDR'')) parse_addr) (\<lambda>a c. c\<lparr> cf_ipc_addr := a \<rparr>) cfg)"

definition database_path :: "config \<Rightarrow> path" where
  "database_path cfg = path_join (cf_data_dir cfg) (lit ''notely.db'')"

definition search_index_path :: "config \<Rightarrow> path" where
  "search_index_path cfg = path_join (cf_data_dir cfg) (lit ''search.db'')"

definition jobs_path :: "config \<Rightarrow> path" where
  "jobs_path cfg = path_join (cf_data_dir cfg) (lit ''jobs.db'')"

definition llm_cache_path :: "config \<Rightarrow> path" where
  "llm_cache_path cfg = path_join (cf_data_dir cfg) (lit ''llm_cache.db'')"

definition active_model :: "config \<Rightarrow> ustr" where
  "active_model cfg = (case cf_llm_provider cfg of Ollama \<Rightarrow> rc_model (cf_ollama cfg) | Mlx \<Rightarrow> rc_model (cf_mlx cfg))"

section \<open>What the environment decides\<close>

text \<open>The variables whose values are parsed, and when a value of one is not accepted.\<close>

definition rejected :: "(ustr \<Rightarrow> ustr option) \<Rightarrow> ustr \<Rightarrow> ustr \<Rightarrow> bool" where
  "rejected parse_addr name v \<longleftrightarrow>
     (name = lit ''NOTELY_LLM_PROVIDER'' \<and> llm_provider_kind_parse v = None)
     \<or> (name = lit ''NOTELY_ASR_PROVIDER'' \<and> asr_provider_kind_parse v = None)
     \<or> (name \<in> {lit ''NOTELY_OLLAMA_TIMEOUT_SECS'', lit ''NOTELY_MLX_TIMEOUT_SECS'', lit ''NOTELY_ASR_TIMEOUT_SECS''}
         \<and> parse_u64 v = None)
     \<or> (name = lit ''NOTELY_IPC_ADDR'' \<and> parse_addr v = None)"

text \<open>C39. A malformed setting is ignored: it has the effect of the variable not being set, so that the knob
  keeps its default and every other knob its own value.\<close>

theorem malformed_setting_ignored:
  assumes "rejected parse_addr name v"
  shows "from_env parse_addr (env(name \<mapsto> v)) = from_env parse_addr (env(name := None))"
  using assms unfolding rejected_def insert_iff empty_iff
  by (elim disjE conjE FalseE; simp only: from_env_def env_secs_def config_default_def default_data_dir_def
      fun_upd_apply lit_eq_iff list.inject char.inject list.distinct simp_thms if_True if_False Option.bind.simps)

lemma malformed_setting_ignored_witness:
  "from_env (\<lambda>_. None) [lit ''NOTELY_MLX_TIMEOUT_SECS'' \<mapsto> lit ''3 minutes''] = from_env (\<lambda>_. None) Map.empty"
proof -
  have "rejected (\<lambda>_. None) (lit ''NOTELY_MLX_TIMEOUT_SECS'') (lit ''3 minutes'')"
    by (simp add: rejected_def parse_u64_def is_digit_def lit_def)
  from malformed_setting_ignored [OF this, of Map.empty] show ?thesis by simp
qed

lemma when_some_keeps: "(\<And>x c. p (f x c) = p c) \<Longrightarrow> p (when_some v f c) = p c"
  by (simp add: when_some_def split: option.split)

lemma when_some_sets: "(\<And>x c. p (f x c) = x) \<Longrightarrow> p (when_some v f c) = (case v of Some x \<Rightarrow> x | None \<Rightarrow> p c)"
  by (simp add: when_some_def split: option.split)

lemmas when_some_models =
  when_some_keeps [of "\<lambda>c. rc_model (cf_ollama c)"] when_some_sets [of "\<lambda>c. rc_model (cf_ollama c)"]
  when_some_keeps [of "\<lambda>c. rc_model (cf_mlx c)"] when_some_sets [of "\<lambda>c. rc_model (cf_mlx c)"]
  when_some_keeps [of cf_llm_provider] when_some_sets [of cf_llm_provider]

text \<open>Which model runs: the provider is the one named, Ollama otherwise; for Ollama the model is the
  preferred variable's, else the legacy one's, else the default; MLX's own variable comes before those.\<close>

theorem active_model_from_env:
  "active_model (from_env parse_addr env) =
     (let general = env_or (env (lit ''NOTELY_LLM_MODEL'')) (env (lit ''NOTELY_OLLAMA_MODEL''))
      in case Option.bind (env (lit ''NOTELY_LLM_PROVIDER'')) llm_provider_kind_parse of
        Some Mlx \<Rightarrow> or_default (env_or (env (lit ''NOTELY_MLX_MODEL'')) general) DEFAULT_LLM_MODEL
      | _ \<Rightarrow> or_default general DEFAULT_LLM_MODEL)"
proof -
  let ?general = "env_or (env (lit ''NOTELY_LLM_MODEL'')) (env (lit ''NOTELY_OLLAMA_MODEL''))"
  have "cf_llm_provider (from_env parse_addr env)
      = or_default (Option.bind (env (lit ''NOTELY_LLM_PROVIDER'')) llm_provider_kind_parse) Ollama"
    by (simp add: from_env_def Let_def when_some_models config_default_def or_default_def
        split: option.split)
  moreover have "rc_model (cf_ollama (from_env parse_addr env)) = or_default ?general DEFAULT_LLM_MODEL"
    by (simp add: from_env_def Let_def when_some_models config_default_def or_default_def ollama_config_default_def
        split: option.split)
  moreover have "rc_model (cf_mlx (from_env parse_addr env))
      = or_default (env_or (env (lit ''NOTELY_MLX_MODEL'')) ?general) DEFAULT_LLM_MODEL"
    by (simp add: from_env_def Let_def when_some_models config_default_def or_default_def mlx_config_default_def
        env_or_def [of "env (lit ''NOTELY_MLX_MODEL'')"] split: option.split)
  ultimately show ?thesis
    by (simp add: active_model_def Let_def or_default_def split: option.splits llm_provider_kind.splits)
qed

text \<open>The four database files never share a path.\<close>

lemma database_files_distinct:
  "distinct [database_path cfg, search_index_path cfg, jobs_path cfg, llm_cache_path cfg]"
  by (simp add: database_path_def search_index_path_def jobs_path_def llm_cache_path_def path_join_def lit_def)

end
