(* ===== verification/Ipc_Protocol.thy ===== *)
theory Ipc_Protocol
  imports Ipc_Events
begin

text \<open>
  The wire contract of the engine (\<open>engine/src/ipc/protocol.rs\<close>): requests, responses and their
  envelopes.
\<close>

definition PROTOCOL_VERSION :: "32 word" where "PROTOCOL_VERSION = 3"

datatype request_id = RequestId (request_id_str: ustr)

datatype process_input = InputOfTranscript "ustr option" transcript | InputOfAudio "ustr option" ustr

datatype request =
    RqHealth
  | RqProcessMeeting process_input
  | RqGetJob job_id
  | RqCancelJob job_id
  | RqGetMeeting meeting_id
  | RqGetTranscript meeting_id
  | RqGetMom meeting_id
  | RqSearch ustr ustr "nat option"
  | RqAsk ustr ustr
  | RqListMeetings
  | RqReprocessMeeting meeting_id

record health_info =
  hi_protocol_version :: "32 word"
  hi_engine_ok :: bool
  hi_llm_ok :: bool
  hi_model :: ustr
  hi_asr_provider :: ustr

datatype response =
    RpHealth health_info
  | RpJobAccepted job_id
  | RpJob job
  | RpMeeting meeting
  | RpTranscript transcript
  | RpMom ustr
  | RpSearchResults "search_hit list"
  | RpAnswer ask_answer
  | RpMeetingList "meeting_summary list"
  | RpError ustr

record request_envelope =
  qe_protocol_version :: "32 word"
  qe_request_id :: request_id
  qe_request :: request

record response_envelope =
  pe_protocol_version :: "32 word"
  pe_request_id :: request_id
  pe_response :: response

end
