(* ===== verification/Engine.thy ===== *)
theory Engine
  imports Orchestrator_Store Search_Qa Config Ipc_Protocol
begin

text \<open>
  The engine (\<open>engine/src/lib.rs\<close>): the dispatch of requests, the background tasks it spawns and the
  recovery at startup. Its state is the pipeline's world, the search index, the flag of the background
  embedding pass and the tasks spawned and not yet run. A spawned task runs as one step; between two
  steps any request may be served and any other task may run. The choices of the environment are indexed
  as in the pipeline by the tick, those of the search index by the number of its SQL statements.
\<close>

section \<open>The engine and its state\<close>

datatype task = TaskProcess job_id meeting_input | TaskReprocess job_id meeting_id | TaskEmbed ustr

record 's engine_world =
  ew_main :: "'s world"
  ew_index :: index_db
  ew_sql_tick :: nat
  ew_embedding :: bool
  ew_tasks :: "task list"

record 's engine =
  eg_config :: config
  eg_orch :: "'s orchestrator"
  eg_health :: "('s, llm_error, unit) effect"
  eg_generate :: "'s llm_generate"
  eg_embed :: "'s llm_embed"
  eg_retriever :: retriever
  eg_sql_fault :: sql_fault
  eg_key_order :: "path list \<Rightarrow> path list"
  eg_files :: "nat \<Rightarrow> vault"
  eg_tree :: "nat \<Rightarrow> path \<Rightarrow> fs_node"
  eg_job_id :: "nat \<Rightarrow> job_id"
  eg_list_fails :: "nat \<Rightarrow> bool"

type_synonym ('s, 'a) engine_op = "'s engine_world \<Rightarrow> 'a \<times> 's engine_world"

text \<open>The parts an operation works on: the pipeline's world, the services, the store, the job registry and
  the search index.\<close>

definition on_main :: "('s world \<Rightarrow> 'a \<times> 's world) \<Rightarrow> ('s, 'a) engine_op" where
  "on_main f w = (case f (ew_main w) of (x, m) \<Rightarrow> (x, w\<lparr> ew_main := m \<rparr>))"

definition on_ext :: "('s \<Rightarrow> 'a \<times> 's) \<Rightarrow> ('s, 'a) engine_op" where
  "on_ext f = on_main (\<lambda>m. case f (wd_ext m) of (x, s) \<Rightarrow> (x, m\<lparr> wd_ext := s \<rparr>))"

definition on_store :: "'s engine \<Rightarrow> (ustr option \<Rightarrow> (store_db, storage_error, 'a) effect)
    \<Rightarrow> ('s, storage_error + 'a) engine_op" where
  "on_store eg oper = on_main (\<lambda>m. case oper (en_db_fault (or_env (eg_orch eg)) (wd_tick m)) (wd_db m) of
     (r, d) \<Rightarrow> (r, m\<lparr> wd_db := d, wd_tick := Suc (wd_tick m) \<rparr>))"

definition on_jobs :: "'s engine \<Rightarrow> (job_write \<Rightarrow> registry \<Rightarrow> 'a \<times> registry) \<Rightarrow> ('s, 'a) engine_op" where
  "on_jobs eg f = on_main (\<lambda>m. let en = or_env (eg_orch eg) in
     case f \<lparr> jw_now = en_now en (wd_tick m), jw_fails = en_job_write_fails en (wd_tick m) \<rparr> (wd_jobs m) of
       (x, r) \<Rightarrow> (x, m\<lparr> wd_jobs := r, wd_tick := Suc (wd_tick m) \<rparr>))"

definition on_index :: "('s, 'a) search \<Rightarrow> ('s, search_error + 'a) engine_op" where
  "on_index f w = (case f \<lparr> iw_db = ew_index w, iw_tick = ew_sql_tick w, iw_ext = wd_ext (ew_main w) \<rparr> of
     (r, iw) \<Rightarrow> (r, w\<lparr> ew_main := (ew_main w)\<lparr> wd_ext := iw_ext iw \<rparr>, ew_index := iw_db iw,
       ew_sql_tick := iw_tick iw \<rparr>))"

definition spawn :: "task \<Rightarrow> 's engine_world \<Rightarrow> 's engine_world" where
  "spawn t w = w\<lparr> ew_tasks := ew_tasks w @ [t] \<rparr>"

definition send_event :: "event \<Rightarrow> 's engine_world \<Rightarrow> 's engine_world" where
  "send_event ev w = w\<lparr> ew_main := (ew_main w)\<lparr> wd_events := wd_events (ew_main w) @ [ev] \<rparr> \<rparr>"

section \<open>Jobs\<close>

definition create_job :: "'s engine \<Rightarrow> job_kind \<Rightarrow> ('s, job_id) engine_op" where
  "create_job eg kind w = (let i = eg_job_id eg (wd_tick (ew_main w)) in
     case on_jobs eg (\<lambda>jw r. ((), registry_create jw i kind r)) w of (_, w) \<Rightarrow> (i, w))"

fun meeting_input_of :: "process_input \<Rightarrow> meeting_input" where
  "meeting_input_of (InputOfTranscript title transcript) = InputTranscript title transcript"
| "meeting_input_of (InputOfAudio title p) = InputAudio title p"

definition start_processing :: "'s engine \<Rightarrow> process_input \<Rightarrow> ('s, response) engine_op" where
  "start_processing eg input w = (case create_job eg Process w of (i, w) \<Rightarrow>
     (RpJobAccepted i, spawn (TaskProcess i (meeting_input_of input)) (send_event (EvJobCreated i) w)))"

definition start_reprocessing :: "'s engine \<Rightarrow> meeting_id \<Rightarrow> ('s, response) engine_op" where
  "start_reprocessing eg m w = (case create_job eg Reprocess w of (i, w) \<Rightarrow>
     (RpJobAccepted i, spawn (TaskReprocess i m) (send_event (EvJobCreated i) w)))"

definition unknown_job :: "job_id \<Rightarrow> response" where
  "unknown_job i = RpError (lit ''unknown job: '' @ job_id_str i)"

definition get_job :: "job_id \<Rightarrow> ('s, response) engine_op" where
  "get_job i w = (case registry_get i (wd_jobs (ew_main w)) of Some j \<Rightarrow> (RpJob j, w) | None \<Rightarrow> (unknown_job i, w))"

definition cancel_job :: "job_id \<Rightarrow> ('s, response) engine_op" where
  "cancel_job i w = (case on_main (\<lambda>m. case request_cancel i (wd_jobs m) of (b, r) \<Rightarrow> (b, m\<lparr> wd_jobs := r \<rparr>)) w of
     (True, w) \<Rightarrow> get_job i w
   | (False, w) \<Rightarrow> (unknown_job i, w))"

section \<open>Reading the store\<close>

text \<open>The three ends of a read: a value, no row, an error.\<close>

definition read_response :: "('a \<Rightarrow> response) \<Rightarrow> ustr \<Rightarrow> storage_error + 'a option \<Rightarrow> response" where
  "read_response found missing r = (case r of Inr (Some x) \<Rightarrow> found x | Inr None \<Rightarrow> RpError missing
     | Inl e \<Rightarrow> RpError (storage_error_display e))"

definition engine_get_meeting :: "'s engine \<Rightarrow> meeting_id \<Rightarrow> ('s, response) engine_op" where
  "engine_get_meeting eg i w = (case on_store eg (\<lambda>fault. get_meeting (or_json (eg_orch eg)) fault i) w of (r, w) \<Rightarrow>
     (read_response RpMeeting (lit ''unknown meeting: '' @ meeting_id_str i) r, w))"

definition engine_get_transcript :: "'s engine \<Rightarrow> meeting_id \<Rightarrow> ('s, response) engine_op" where
  "engine_get_transcript eg i w =
     (case on_store eg (\<lambda>fault. get_transcript (or_json (eg_orch eg)) fault i) w of (r, w) \<Rightarrow>
     (read_response RpTranscript (lit ''no transcript for meeting: '' @ meeting_id_str i) r, w))"

definition engine_get_mom :: "'s engine \<Rightarrow> meeting_id \<Rightarrow> ('s, response) engine_op" where
  "engine_get_mom eg i w = (case on_store eg (\<lambda>fault. get_mom fault i) w of (r, w) \<Rightarrow>
     (read_response RpMom (lit ''no MOM for meeting: '' @ meeting_id_str i) r, w))"

text \<open>Collecting into a \<open>HashMap\<close> keeps the last status of an id.\<close>

definition summaries :: "(meeting_id \<times> processing_status) list \<Rightarrow> meeting list \<Rightarrow> meeting_summary list" where
  "summaries statuses ms = map (\<lambda>m. \<lparr> ms_meeting = m, ms_status = map_of (rev statuses) (mt_id m) \<rparr>) ms"

definition engine_list_meetings :: "'s engine \<Rightarrow> ('s, response) engine_op" where
  "engine_list_meetings eg w = (case on_store eg (list_meetings (or_json (eg_orch eg))) w of
     (Inl e, w) \<Rightarrow> (RpError (storage_error_display e), w)
   | (Inr ms, w) \<Rightarrow> (case on_store eg (list_processing_statuses (or_json (eg_orch eg))) w of (r, w) \<Rightarrow>
       (RpMeetingList (summaries (case r of Inr statuses \<Rightarrow> statuses | Inl _ \<Rightarrow> []) ms), w)))"

section \<open>Searching and asking\<close>

text \<open>The lowercase of the debug form of the provider.\<close>

fun asr_provider_name :: "asr_provider_kind \<Rightarrow> ustr" where
  "asr_provider_name Qwen3Asr = lit ''qwen3asr''"
| "asr_provider_name Whisper = lit ''whisper''"
| "asr_provider_name Fixture = lit ''fixture''"

definition health :: "'s engine \<Rightarrow> ('s, response) engine_op" where
  "health eg w = (case on_ext (eg_health eg) w of (r, w) \<Rightarrow>
     (RpHealth \<lparr> hi_protocol_version = PROTOCOL_VERSION, hi_engine_ok = True, hi_llm_ok = is_ok r,
        hi_model = active_model (eg_config eg), hi_asr_provider = asr_provider_name (ac_provider (cf_asr (eg_config eg))) \<rparr>, w))"

definition engine_sync :: "'s engine \<Rightarrow> path \<Rightarrow> ('s, search_error + sync_stats) engine_op" where
  "engine_sync eg dir w = on_index (sync_vault (eg_sql_fault eg) (eg_files eg (ew_sql_tick w)) (eg_key_order eg) dir
     (eg_tree eg (ew_sql_tick w) dir)) w"

definition maybe_spawn_embedding :: "'s engine \<Rightarrow> 's engine_world \<Rightarrow> 's engine_world" where
  "maybe_spawn_embedding eg w = (case mo_embedding (cf_models (eg_config eg)) of
     None \<Rightarrow> w
   | Some model \<Rightarrow> if ew_embedding w then w else spawn (TaskEmbed model) (w\<lparr> ew_embedding := True \<rparr>))"

definition embed_query :: "'s engine \<Rightarrow> ustr \<Rightarrow> ('s, f32 list option) engine_op" where
  "embed_query eg query w = (case mo_embedding (cf_models (eg_config eg)) of
     None \<Rightarrow> (None, w)
   | Some model \<Rightarrow> (case on_ext (eg_embed eg \<lparr> eq_model = Some model, eq_input = [query] \<rparr>) w of
       (Inr r, w) \<Rightarrow> (case es_vectors r of v # _ \<Rightarrow> (Some v, w) | [] \<Rightarrow> (None, w))
     | (Inl _, w) \<Rightarrow> (None, w)))"

text \<open>The part that searching and asking share.\<close>

definition find_passages :: "'s engine \<Rightarrow> ustr \<Rightarrow> path \<Rightarrow> nat \<Rightarrow> ('s, search_error + passage list) engine_op" where
  "find_passages eg query dir limit w =
     (case engine_sync eg dir w of (_, w) \<Rightarrow>
      case embed_query eg query (maybe_spawn_embedding eg w) of (v, w) \<Rightarrow>
      on_index (retrieve_hybrid (eg_retriever eg) (eg_sql_fault eg) query limit v) w)"

definition search_vault :: "'s engine \<Rightarrow> ustr \<Rightarrow> path \<Rightarrow> nat option \<Rightarrow> ('s, response) engine_op" where
  "search_vault eg query dir limit w =
     (case find_passages eg query dir (or_default limit 20) w of
        (Inr passages, w) \<Rightarrow> (RpSearchResults (map to_hit passages), w)
      | (Inl e, w) \<Rightarrow> (RpError (search_error_display e), w))"

definition ask_vault :: "'s engine \<Rightarrow> ustr \<Rightarrow> path \<Rightarrow> ('s, response) engine_op" where
  "ask_vault eg question dir w =
     (case find_passages eg question dir DEFAULT_TOP_K w of (r, w) \<Rightarrow>
      let passages = (case r of Inr ps \<Rightarrow> ps | Inl _ \<Rightarrow> []) in
      case on_ext (answer (eg_generate eg) question passages (mo_qa (cf_models (eg_config eg)))) w of (a, w) \<Rightarrow>
      (RpAnswer a, w))"

section \<open>Requests\<close>

fun dispatch :: "'s engine \<Rightarrow> request \<Rightarrow> ('s, response) engine_op" where
  "dispatch eg RqHealth = health eg"
| "dispatch eg (RqProcessMeeting input) = start_processing eg input"
| "dispatch eg (RqGetJob i) = get_job i"
| "dispatch eg (RqCancelJob i) = cancel_job i"
| "dispatch eg (RqGetMeeting m) = engine_get_meeting eg m"
| "dispatch eg (RqGetTranscript m) = engine_get_transcript eg m"
| "dispatch eg (RqGetMom m) = engine_get_mom eg m"
| "dispatch eg (RqSearch query dir limit) = search_vault eg query dir limit"
| "dispatch eg (RqAsk question dir) = ask_vault eg question dir"
| "dispatch eg RqListMeetings = engine_list_meetings eg"
| "dispatch eg (RqReprocessMeeting m) = start_reprocessing eg m"

section \<open>Background tasks\<close>

definition update_job :: "'s engine \<Rightarrow> job_id \<Rightarrow> (job \<Rightarrow> job) \<Rightarrow> 's engine_world \<Rightarrow> 's engine_world" where
  "update_job eg i f w = snd (on_jobs eg (\<lambda>jw r. ((), registry_update jw i f r)) w)"

definition embedding_outcome :: "search_error + nat \<Rightarrow> job \<Rightarrow> job" where
  "embedding_outcome r j = (case r of Inr _ \<Rightarrow> j\<lparr> jb_status := Completed, jb_stage := Done \<rparr>
     | Inl e \<Rightarrow> j\<lparr> jb_status := JobFailedStatus, jb_error := Some (search_error_display e) \<rparr>)"

definition run_embedding :: "'s engine \<Rightarrow> ustr \<Rightarrow> 's engine_world \<Rightarrow> 's engine_world" where
  "run_embedding eg model w =
     (case on_index (pending_embedding_count (eg_sql_fault eg)) w of (pending, w) \<Rightarrow>
      if (case pending of Inr n \<Rightarrow> n | Inl _ \<Rightarrow> 0) = 0 then w\<lparr> ew_embedding := False \<rparr>
      else case create_job eg Embedding w of (i, w) \<Rightarrow>
        let w = update_job eg i (\<lambda>j. j\<lparr> jb_status := Running \<rparr>) w in
        case on_index (embed_pending (eg_sql_fault eg) (eg_files eg (ew_sql_tick w)) (eg_embed eg) (Some model)) w of
          (result, w) \<Rightarrow> (update_job eg i (embedding_outcome result) w)\<lparr> ew_embedding := False \<rparr>)"

fun run_task :: "'s engine \<Rightarrow> task \<Rightarrow> 's engine_world \<Rightarrow> 's engine_world" where
  "run_task eg (TaskProcess i input) w = snd (on_main (process (eg_orch eg) i input) w)"
| "run_task eg (TaskReprocess i m) w = snd (on_main (reprocess (eg_orch eg) i m) w)"
| "run_task eg (TaskEmbed model) w = run_embedding eg model w"

section \<open>Startup\<close>

definition INTERRUPTED :: ustr where "INTERRUPTED = lit ''processing was interrupted; will retry''"

fun recover_statuses :: "'s engine \<Rightarrow> (meeting_id \<times> processing_status) list \<Rightarrow> ('s, nat) engine_op" where
  "recover_statuses eg [] w = (0, w)"
| "recover_statuses eg ((i, status) # rows) w =
     (if ps_state status = Processing then
        case on_store eg (\<lambda>fault. save_processing_status (or_json (eg_orch eg)) fault i
            (status_deferred (en_now (or_env (eg_orch eg)) (wd_tick (ew_main w))) INTERRUPTED)) w of
          (r, w) \<Rightarrow> (case recover_statuses eg rows w of (n, w) \<Rightarrow> ((if is_ok r then 1 else 0) + n, w))
      else recover_statuses eg rows w)"

definition recover_interrupted :: "'s engine \<Rightarrow> ('s, nat) engine_op" where
  "recover_interrupted eg w = (case on_store eg (list_processing_statuses (or_json (eg_orch eg))) w of
     (Inl _, w) \<Rightarrow> (0, w)
   | (Inr statuses, w) \<Rightarrow> recover_statuses eg statuses w)"

definition MAX_JOB_ATTEMPTS :: "32 word" where "MAX_JOB_ATTEMPTS = 3"

text \<open>A direct write of a job's row.\<close>

definition store_job :: "'s engine \<Rightarrow> job \<Rightarrow> 's engine_world \<Rightarrow> 's engine_world" where
  "store_job eg j w = snd (on_jobs eg (\<lambda>jw r. ((), persist jw j r)) w)"

definition close_job :: "'s engine \<Rightarrow> job \<Rightarrow> ustr \<Rightarrow> 's engine_world \<Rightarrow> 's engine_world" where
  "close_job eg j reason = store_job eg (j\<lparr> jb_status := JobFailedStatus, jb_error := Some reason \<rparr>)"

definition resumable :: "'s engine \<Rightarrow> job \<Rightarrow> ('s, bool) engine_op" where
  "resumable eg j w = (case jb_meeting_id j of None \<Rightarrow> (False, w)
     | Some m \<Rightarrow> (case on_store eg (\<lambda>fault. get_transcript (or_json (eg_orch eg)) fault m) w of
         (r, w) \<Rightarrow> (case r of Inr (Some _) \<Rightarrow> True | _ \<Rightarrow> False, w)))"

definition resumed_job :: "job \<Rightarrow> job" where
  "resumed_job j = j\<lparr> jb_attempts := jb_attempts j + 1, jb_status := Queued, jb_kind := Reprocess \<rparr>"

text \<open>The body of the loop; a resumable job has a meeting.\<close>

definition recover_job :: "'s engine \<Rightarrow> job \<Rightarrow> ('s, nat) engine_op" where
  "recover_job eg j w =
     (if jb_kind j = Embedding then (0, close_job eg j (lit ''interrupted; will re-embed on next search'') w)
      else case resumable eg j w of (ok, w) \<Rightarrow>
        if jb_attempts j \<ge> MAX_JOB_ATTEMPTS \<or> \<not> ok
        then (0, close_job eg j (if ok then lit ''exceeded retry budget'' else lit ''cannot resume: no stored transcript'') w)
        else case jb_meeting_id j of None \<Rightarrow> (0, w)
          | Some m \<Rightarrow> (case on_jobs eg (\<lambda>jw r. ((), registry_reinsert jw (resumed_job j) r)) w of (_, w) \<Rightarrow>
              (1, spawn (TaskReprocess (jb_id j) m) w)))"

fun recover_each :: "'s engine \<Rightarrow> job list \<Rightarrow> ('s, nat) engine_op" where
  "recover_each eg [] w = (0, w)"
| "recover_each eg (j # js) w = (case recover_job eg j w of (a, w) \<Rightarrow>
     (case recover_each eg js w of (b, w) \<Rightarrow> (a + b, w)))"

definition recover_jobs :: "'s engine \<Rightarrow> ('s, nat) engine_op" where
  "recover_jobs eg w = (case rg_store (wd_jobs (ew_main w)) of None \<Rightarrow> (0, w)
     | Some t \<Rightarrow> if eg_list_fails eg (wd_tick (ew_main w)) then (0, w) else recover_each eg (list_unfinished t) w)"

text \<open>
  A new process: \<open>Engine::new\<close> on the same files, then the recovery of \<open>run\<close>. What was in memory - the
  registry's jobs, the pending tasks, the flag of the embedding pass - is gone.
\<close>

definition engine_new :: "'s engine_world \<Rightarrow> 's engine_world" where
  "engine_new w = w\<lparr> ew_main := (ew_main w)\<lparr> wd_jobs := (wd_jobs (ew_main w))\<lparr> rg_jobs := Map.empty \<rparr> \<rparr>,
     ew_embedding := False, ew_tasks := [] \<rparr>"

definition startup :: "'s engine \<Rightarrow> 's engine_world \<Rightarrow> 's engine_world" where
  "startup eg w = snd (recover_jobs eg (snd (recover_interrupted eg (engine_new w))))"

text \<open>The engine at work: it serves a request, a spawned task runs, or the process is started again.\<close>

inductive engine_step :: "'s engine \<Rightarrow> 's engine_world \<Rightarrow> 's engine_world \<Rightarrow> bool" for eg where
  serve: "dispatch eg rq w = (rp, w') \<Longrightarrow> engine_step eg w w'"
| task: "ew_tasks w = ts @ t # ts' \<Longrightarrow> engine_step eg w (run_task eg t (w\<lparr> ew_tasks := ts @ ts' \<rparr>))"
| restart: "engine_step eg w (startup eg w)"

end
