(* ===== verification/Llm_Cache.thy ===== *)
theory Llm_Cache
  imports Llm Storage
begin

text \<open>
  The result cache around a provider (\<open>engine/src/llm/cache.rs\<close>). The table is keyed by a hash of
  everything that is meant to change the output. \<open>DefaultHasher\<close>, whose algorithm the standard
  library leaves open, the JSON text of a schema and the debug form of an \<open>f32\<close> are parameters. A
  failing backend makes a read miss and a write disappear, decided by the environment per call.
\<close>

section \<open>The key\<close>

record key_env =
  ky_hash :: "ustr \<Rightarrow> 64 word \<times> 64 word"
  ky_json :: "json \<Rightarrow> ustr"
  ky_f32 :: "f32 \<Rightarrow> ustr"

definition debug_option :: "('a \<Rightarrow> ustr) \<Rightarrow> 'a option \<Rightarrow> ustr" where
  "debug_option f v = (case v of None \<Rightarrow> lit ''None'' | Some x \<Rightarrow> lit ''Some('' @ f x @ lit '')'')"

definition show_u32 :: "u32 \<Rightarrow> ustr" where
  "show_u32 n = show_nat (unat n)"

definition show_bool :: "bool \<Rightarrow> ustr" where
  "show_bool b = (if b then lit ''true'' else lit ''false'')"

definition resolved_model :: "ustr \<Rightarrow> generate_request \<Rightarrow> ustr" where
  "resolved_model default_model r = (case rq_model r of Some m \<Rightarrow> m | None \<Rightarrow> default_model)"

text \<open>The fields of the canonical text, which \<open>U+001F\<close> separates.\<close>

definition key_fields :: "key_env \<Rightarrow> ustr \<Rightarrow> generate_request \<Rightarrow> ustr list" where
  "key_fields ky default_model r =
     [lit ''v1'', resolved_model default_model r, case rq_system r of Some s \<Rightarrow> s | None \<Rightarrow> [], rq_prompt r,
      case rq_format r of Some v \<Rightarrow> ky_json ky v | None \<Rightarrow> [],
      debug_option (ky_f32 ky) (gc_temperature (rq_config r)),
      debug_option show_u32 (gc_num_ctx (rq_config r)),
      debug_option show_u32 (gc_max_tokens (rq_config r)), show_bool (rq_think r)]"

definition key_canonical :: "key_env \<Rightarrow> ustr \<Rightarrow> generate_request \<Rightarrow> ustr" where
  "key_canonical ky default_model r = str_join [0x1F] (key_fields ky default_model r)"

text \<open>\<open>{:016x}\<close> of a 64-bit number.\<close>

definition hex_digit :: "nat \<Rightarrow> uchar" where
  "hex_digit d = (if d < 10 then 48 + d else 87 + d)"

definition hex16 :: "64 word \<Rightarrow> ustr" where
  "hex16 h = map (\<lambda>k. hex_digit (unat (drop_bit (4 * k) h) mod 16)) (rev [0..<16])"

definition cache_key :: "key_env \<Rightarrow> ustr \<Rightarrow> generate_request \<Rightarrow> ustr" where
  "cache_key ky default_model r = (case ky_hash ky (key_canonical ky default_model r) of (h1, h2) \<Rightarrow>
     resolved_model default_model r @ lit '':'' @ hex16 h1 @ hex16 h2)"

section \<open>The cache and the wrapper\<close>

record cache_row =
  cr_model :: ustr
  cr_response :: ustr
  cr_created_at :: timestamp

type_synonym llm_cache = "(ustr, cache_row) table"

definition cache_get :: "ustr \<Rightarrow> llm_cache \<Rightarrow> (ustr \<times> ustr) option" where
  "cache_get k t = map_option (\<lambda>row. (cr_response row, cr_model row)) (map_of t k)"

definition cache_put :: "ustr \<Rightarrow> cache_row \<Rightarrow> llm_cache \<Rightarrow> llm_cache" where
  "cache_put k row t = upsert k row (\<lambda>_. row) t"

interpretation llm_rows: keyed_store cache_put cache_get "\<lambda>row. (cr_response row, cr_model row)"
  by unfold_locales (simp_all add: cache_put_def cache_get_def table_simps split: option.splits)

text \<open>The state of a wrapped provider; \<open>ca_tick\<close> numbers its calls of the backend.\<close>

record 's cached =
  ca_table :: llm_cache
  ca_inner :: 's
  ca_tick :: nat

record cache_env =
  ce_get_fails :: "nat \<Rightarrow> bool"
  ce_put_fails :: "nat \<Rightarrow> bool"
  ce_now :: "nat \<Rightarrow> timestamp"

definition cached_generate :: "key_env \<Rightarrow> cache_env \<Rightarrow> ustr \<Rightarrow> 's llm_generate \<Rightarrow> 's cached llm_generate" where
  "cached_generate ky ce default_model inner request st =
     (let key = cache_key ky default_model request; n = ca_tick st; st = st\<lparr> ca_tick := Suc n \<rparr> in
      case (if ce_get_fails ce n then None else cache_get key (ca_table st)) of
        Some (text, model) \<Rightarrow> (Inr \<lparr> rs_text = text, rs_model = model \<rparr>, st)
      | None \<Rightarrow> (case inner request (ca_inner st) of
            (Inl e, s) \<Rightarrow> (Inl e, st\<lparr> ca_inner := s \<rparr>)
          | (Inr r, s) \<Rightarrow> (Inr r, st\<lparr> ca_inner := s, ca_table := (if ce_put_fails ce n then ca_table st
              else cache_put key \<lparr> cr_model = rs_model r, cr_response = rs_text r, cr_created_at = ce_now ce n \<rparr>
                (ca_table st)) \<rparr>)))"

definition cached_embed :: "'s llm_embed \<Rightarrow> 's cached llm_embed" where
  "cached_embed inner request st = (case inner request (ca_inner st) of (r, s) \<Rightarrow> (r, st\<lparr> ca_inner := s \<rparr>))"

definition cached_health :: "('s \<Rightarrow> (llm_error + unit) \<times> 's) \<Rightarrow> 's cached \<Rightarrow> (llm_error + unit) \<times> 's cached" where
  "cached_health inner st = (case inner (ca_inner st) of (r, s) \<Rightarrow> (r, st\<lparr> ca_inner := s \<rparr>))"

section \<open>What the cache may answer\<close>

text \<open>The answers to a sequence of requests.\<close>

fun run_cached :: "key_env \<Rightarrow> cache_env \<Rightarrow> ustr \<Rightarrow> 's llm_generate \<Rightarrow> generate_request list \<Rightarrow> 's cached
    \<Rightarrow> (llm_error + generate_response) list \<times> 's cached" where
  "run_cached ky ce dm inner [] st = ([], st)"
| "run_cached ky ce dm inner (r # rs) st = (case cached_generate ky ce dm inner r st of (x, st) \<Rightarrow>
     (case run_cached ky ce dm inner rs st of (xs, st) \<Rightarrow> (x # xs, st)))"

text \<open>
  A runtime that answers from the request alone, and whose answers to the requests \<open>R\<close> in play depend on
  no more than the key covers.
\<close>

definition runtime_function :: "'s llm_generate \<Rightarrow> (generate_request \<Rightarrow> llm_error + generate_response) \<Rightarrow> bool" where
  "runtime_function inner f \<longleftrightarrow> (\<forall>r s. fst (inner r s) = f r)"

definition key_covers :: "key_env \<Rightarrow> ustr \<Rightarrow> generate_request set
    \<Rightarrow> (generate_request \<Rightarrow> llm_error + generate_response) \<Rightarrow> bool" where
  "key_covers ky dm R f \<longleftrightarrow> (\<forall>r \<in> R. \<forall>r' \<in> R. cache_key ky dm r = cache_key ky dm r' \<longrightarrow> f r = f r')"

definition rows_right :: "key_env \<Rightarrow> ustr \<Rightarrow> generate_request set
    \<Rightarrow> (generate_request \<Rightarrow> llm_error + generate_response) \<Rightarrow> llm_cache \<Rightarrow> bool" where
  "rows_right ky dm R f t \<longleftrightarrow> (\<forall>r \<in> R. \<forall>text model. cache_get (cache_key ky dm r) t = Some (text, model)
     \<longrightarrow> f r = Inr \<lparr> rs_text = text, rs_model = model \<rparr>)"

lemma rows_right_put:
  assumes "key_covers ky dm R f" "rows_right ky dm R f t" "f r = Inr y" "r \<in> R"
  shows "rows_right ky dm R f (cache_put (cache_key ky dm r)
    \<lparr> cr_model = rs_model y, cr_response = rs_text y, cr_created_at = n \<rparr> t)"
  unfolding rows_right_def
proof (intro ballI allI impI)
  fix r' tx m
  assume R: "r' \<in> R"
  assume got: "cache_get (cache_key ky dm r') (cache_put (cache_key ky dm r)
    \<lparr> cr_model = rs_model y, cr_response = rs_text y, cr_created_at = n \<rparr> t) = Some (tx, m)"
  show "f r' = Inr \<lparr> rs_text = tx, rs_model = m \<rparr>"
  proof (cases "cache_key ky dm r' = cache_key ky dm r")
    case True
    then have "f r' = Inr y" using assms(1,3,4) R unfolding key_covers_def by metis
    moreover have "tx = rs_text y" "m = rs_model y" using got True by (simp_all add: llm_rows.get_put_iff)
    ultimately show ?thesis by simp
  next
    case False
    then have "cache_get (cache_key ky dm r') t = Some (tx, m)" using got by (simp add: llm_rows.get_put_iff)
    then show ?thesis using assms(2) R unfolding rows_right_def by blast
  qed
qed

lemma cached_generate_miss:
  assumes "ce_get_fails ce (ca_tick st) \<or> cache_get (cache_key ky dm r) (ca_table st) = None"
    "inner r (ca_inner st) = (x, s)"
  shows "cached_generate ky ce dm inner r st = (x, st\<lparr> ca_tick := Suc (ca_tick st), ca_inner := s,
     ca_table := (case x of Inl _ \<Rightarrow> ca_table st | Inr y \<Rightarrow>
       if ce_put_fails ce (ca_tick st) then ca_table st
       else cache_put (cache_key ky dm r) \<lparr> cr_model = rs_model y, cr_response = rs_text y,
         cr_created_at = ce_now ce (ca_tick st) \<rparr> (ca_table st)) \<rparr>)"
  using assms by (cases x) (auto simp: cached_generate_def Let_def)

lemma cached_generate_right:
  assumes "runtime_function inner f" "key_covers ky dm R f" "rows_right ky dm R f (ca_table st)"
    "r \<in> R"
  shows "fst (cached_generate ky ce dm inner r st) = f r"
    and "rows_right ky dm R f (ca_table (snd (cached_generate ky ce dm inner r st)))"
proof -
  obtain x s where x: "inner r (ca_inner st) = (x, s)" by (cases "inner r (ca_inner st)")
  then have f: "f r = x" using assms(1) by (metis fst_conv runtime_function_def)
  have "fst (cached_generate ky ce dm inner r st) = f r
    \<and> rows_right ky dm R f (ca_table (snd (cached_generate ky ce dm inner r st)))"
  proof (cases "ce_get_fails ce (ca_tick st) \<or> cache_get (cache_key ky dm r) (ca_table st) = None")
    case True
    then show ?thesis using f assms(3) rows_right_put [OF assms(2,3) _ assms(4)]
      by (simp add: cached_generate_miss [where inner = inner, OF True x] split: sum.splits)
  next
    case False
    then obtain tx m where hit: "cache_get (cache_key ky dm r) (ca_table st) = Some (tx, m)"
      "\<not> ce_get_fails ce (ca_tick st)" by auto
    then have "f r = Inr \<lparr> rs_text = tx, rs_model = m \<rparr>"
      using assms(3,4) unfolding rows_right_def by blast
    then show ?thesis using hit assms(3)
      by (simp add: cached_generate_def Let_def)
  qed
  then show "fst (cached_generate ky ce dm inner r st) = f r"
    and "rows_right ky dm R f (ca_table (snd (cached_generate ky ce dm inner r st)))" by simp_all
qed

lemma run_cached_right:
  assumes "runtime_function inner f" "key_covers ky dm R f" "rows_right ky dm R f (ca_table st)"
    "set rs \<subseteq> R"
  shows "fst (run_cached ky ce dm inner rs st) = map f rs"
  using assms(3,4)
proof (induction rs arbitrary: st)
  case (Cons r rs)
  obtain x st' where g: "cached_generate ky ce dm inner r st = (x, st')" by fastforce
  obtain xs st'' where run: "run_cached ky ce dm inner rs st' = (xs, st'')" by fastforce
  have "x = f r" "rows_right ky dm R f (ca_table st')"
    using cached_generate_right [OF assms(1,2) Cons.prems(1), of r ce] Cons.prems(2) g by simp_all
  then have "xs = map f rs" using Cons.IH [of st'] Cons.prems(2) run by simp
  then show ?case using g run \<open>x = f r\<close> by simp
qed simp

text \<open>A hit never reaches the runtime; a failed generation leaves the table as it was.\<close>

lemma cached_generate_hit:
  assumes "\<not> ce_get_fails ce (ca_tick st)" "cache_get (cache_key ky dm r) (ca_table st) = Some (tx, m)"
  shows "cached_generate ky ce dm inner r st
    = (Inr \<lparr> rs_text = tx, rs_model = m \<rparr>, st\<lparr> ca_tick := Suc (ca_tick st) \<rparr>)"
  using assms by (simp add: cached_generate_def Let_def)

lemma cached_generate_failed:
  "cached_generate ky ce dm inner r st = (Inl e, st') \<Longrightarrow> ca_table st' = ca_table st"
  by (auto simp: cached_generate_def Let_def split: if_splits option.splits prod.splits sum.splits)

lemma cached_generate_stores:
  assumes "cached_generate ky ce dm inner r st = (Inr y, st')" "\<not> ce_get_fails ce (ca_tick st)"
    "\<not> ce_put_fails ce (ca_tick st)"
  shows "cache_get (cache_key ky dm r) (ca_table st') = Some (rs_text y, rs_model y)"
  using assms by (auto simp: cached_generate_def Let_def llm_rows.get_put_iff
      split: if_splits option.splits prod.splits sum.splits)

text \<open>
  A text holding the separator makes two different requests share a key: the canonical text does not
  delimit its fields unambiguously. A request without a system text shares the key of one whose system
  text is empty.
\<close>

lemma key_collision:
  "cache_key ky dm (with_system (lit ''a'') (request_new (lit ''b'' @ [0x1F] @ lit ''c'')))
     = cache_key ky dm (with_system (lit ''a'' @ [0x1F] @ lit ''b'') (request_new (lit ''c'')))"
  by (simp add: cache_key_def key_canonical_def key_fields_def with_system_def request_new_def
      resolved_model_def generation_config_default_def lit_def)

lemma key_collision_system:
  "cache_key ky dm (with_system [] (request_new p)) = cache_key ky dm (request_new p)"
  by (simp add: cache_key_def key_canonical_def key_fields_def with_system_def request_new_def
      resolved_model_def)

end
