(* ===== verification/Llm_Providers.thy ===== *)
theory Llm_Providers
  imports Llm_Cache Media_Asr Rust_Ieee
begin

text \<open>
  The two runtimes behind the LLM boundary (\<open>engine/src/llm/ollama.rs\<close>, \<open>mlx.rs\<close>) and the model
  descriptor (\<open>model.rs\<close>). A provider talks to its server over the HTTP client of the speech provider;
  decoding the reply's JSON into the response types (\<open>serde\<close>) is a parameter. The last part composes the
  result cache with the Ollama provider: what the cache key covers is what the request body is made of.
\<close>

section \<open>Model descriptor\<close>

record model_descriptor =
  md_name :: ustr
  md_context_length :: "u32 option"
  md_quantization :: "ustr option"

definition model_descriptor_default :: model_descriptor where
  "model_descriptor_default = \<lparr> md_name = lit ''qwen3:1.7b'', md_context_length = Some 32768,
     md_quantization = Some (lit ''q4_k_m'') \<rparr>"

section \<open>Request bodies\<close>

text \<open>\<open>json!\<close> of an \<open>f32\<close> and of a \<open>u32\<close>; a number that is not finite becomes \<open>null\<close>.\<close>

definition json_f32 :: "f32 \<Rightarrow> json" where
  "json_f32 w = (case f32_value w of Finite x \<Rightarrow> JNum (Finite x) | _ \<Rightarrow> JNull)"

definition json_u32 :: "u32 \<Rightarrow> json" where
  "json_u32 n = JInt (uint n)"

record llm_http =
  lh_base_url :: ustr
  lh_default_model :: ustr

text \<open>\<open>OllamaProvider::new\<close> and \<open>MlxProvider::new\<close>.\<close>

definition llm_http_new :: "ustr \<Rightarrow> ustr \<Rightarrow> llm_http" where
  "llm_http_new base_url model = \<lparr> lh_base_url = trim_end_matches 47 base_url, lh_default_model = model \<rparr>"

definition model_for :: "llm_http \<Rightarrow> generate_request \<Rightarrow> ustr" where
  "model_for p r = (case rq_model r of Some m \<Rightarrow> m | None \<Rightarrow> lh_default_model p)"

definition set_opt :: "string \<Rightarrow> ('a \<Rightarrow> json) \<Rightarrow> 'a option \<Rightarrow> json \<Rightarrow> json" where
  "set_opt k f v body = (case v of None \<Rightarrow> body | Some x \<Rightarrow> jset body (lit k) (f x))"

definition build_embed_body :: "ustr \<Rightarrow> ustr list \<Rightarrow> json" where
  "build_embed_body model input = JObj [(lit ''model'', JStr model), (lit ''input'', JArr (map JStr input))]"

definition generate_options :: "generation_config \<Rightarrow> json" where
  "generate_options c = set_opt ''num_predict'' json_u32 (gc_max_tokens c)
     (set_opt ''num_ctx'' json_u32 (gc_num_ctx c)
       (set_opt ''temperature'' json_f32 (gc_temperature c) (JObj [])))"

definition build_generate_body :: "ustr \<Rightarrow> generate_request \<Rightarrow> json" where
  "build_generate_body model r =
     (let body = JObj [(lit ''model'', JStr model), (lit ''prompt'', JStr (rq_prompt r)),
            (lit ''stream'', JBool False), (lit ''think'', JBool (rq_think r))];
          body = set_opt ''system'' JStr (rq_system r) body;
          body = set_opt ''format'' (\<lambda>f. f) (rq_format r) body;
          options = generate_options (rq_config r)
      in if options \<noteq> JObj [] then jset body (lit ''options'') options else body)"

definition chat_messages :: "generate_request \<Rightarrow> json list" where
  "chat_messages r =
     (case rq_system r of None \<Rightarrow> []
      | Some s \<Rightarrow> [JObj [(lit ''role'', jstr ''system''), (lit ''content'', JStr s)]])
     @ [JObj [(lit ''role'', jstr ''user''), (lit ''content'', JStr (rq_prompt r))]]"

definition build_chat_body :: "ustr \<Rightarrow> generate_request \<Rightarrow> json" where
  "build_chat_body model r =
     (let body = JObj [(lit ''model'', JStr model), (lit ''messages'', JArr (chat_messages r)),
            (lit ''stream'', JBool False)];
          body = set_opt ''temperature'' json_f32 (gc_temperature (rq_config r)) body;
          body = set_opt ''max_tokens'' json_u32 (gc_max_tokens (rq_config r)) body
      in set_opt ''response_format'' (\<lambda>_. JObj [(lit ''type'', jstr ''json_object'')]) (rq_format r) body)"

section \<open>The providers\<close>

text \<open>The status check and the decoding of a reply, the same in every call.\<close>

definition reply_json :: "(ustr \<Rightarrow> ustr + 'r) \<Rightarrow> http_reply \<Rightarrow> ('s, llm_error, 'r) effect" where
  "reply_json decode resp =
     (if \<not> hr_success resp then errE (LlmRuntime (lit ''HTTP '' @ hr_status resp @ lit '': ''
        @ (case hr_text resp of Inr t \<Rightarrow> t | Inl _ \<Rightarrow> [])))
      else case hr_text resp of Inl e \<Rightarrow> errE (LlmDecode e)
        | Inr t \<Rightarrow> (case decode t of Inl e \<Rightarrow> errE (LlmDecode e) | Inr r \<Rightarrow> okE r))"

definition send :: "('s, ustr, http_reply) effect \<Rightarrow> ('s, llm_error, http_reply) effect" where
  "send m = map_errE LlmTransport m"

record ollama_generate_response =
  og_response :: ustr
  og_model :: ustr
  og_error :: "ustr option"

record ollama_embed_response =
  ob_embeddings :: "f32 list list"
  ob_model :: ustr
  ob_error :: "ustr option"

definition model_or :: "ustr \<Rightarrow> ustr \<Rightarrow> ustr" where
  "model_or reported model = (if reported = [] then model else reported)"

definition ollama_generate :: "'s http \<Rightarrow> (ustr \<Rightarrow> ustr + ollama_generate_response) \<Rightarrow> llm_http
    \<Rightarrow> 's llm_generate" where
  "ollama_generate http decode p r = (let model = model_for p r in
     bindE (send (ht_post http (lh_base_url p @ lit ''/api/generate'') (build_generate_body model r))) (\<lambda>resp.
     bindE (reply_json decode resp) (\<lambda>parsed.
       case og_error parsed of Some e \<Rightarrow> errE (LlmRuntime e)
       | None \<Rightarrow> okE \<lparr> rs_text = og_response parsed, rs_model = model_or (og_model parsed) model \<rparr>)))"

definition ollama_embed :: "'s http \<Rightarrow> (ustr \<Rightarrow> ustr + ollama_embed_response) \<Rightarrow> llm_http \<Rightarrow> 's llm_embed" where
  "ollama_embed http decode p r = (let model = (case eq_model r of Some m \<Rightarrow> m | None \<Rightarrow> lh_default_model p) in
     if eq_input r = [] then okE \<lparr> es_vectors = [], es_model = model \<rparr>
     else
     bindE (send (ht_post http (lh_base_url p @ lit ''/api/embed'') (build_embed_body model (eq_input r)))) (\<lambda>resp.
     bindE (reply_json decode resp) (\<lambda>parsed.
       case ob_error parsed of Some e \<Rightarrow> errE (LlmRuntime e)
       | None \<Rightarrow> okE \<lparr> es_vectors = ob_embeddings parsed, es_model = model_or (ob_model parsed) model \<rparr>)))"

definition http_health :: "'s http \<Rightarrow> ustr \<Rightarrow> ('s, llm_error, unit) effect" where
  "http_health http url = bindE (send (ht_get http url)) (\<lambda>resp.
     if hr_success resp then okE () else errE (LlmRuntime (lit ''HTTP '' @ hr_status resp)))"

definition ollama_health :: "'s http \<Rightarrow> llm_http \<Rightarrow> ('s, llm_error, unit) effect" where
  "ollama_health http p = http_health http (lh_base_url p @ lit ''/api/tags'')"

text \<open>\<open>ChatResponse\<close> with its choices reduced to their message contents.\<close>

record chat_response =
  cr_choices :: "ustr list"
  cr_chat_model :: ustr
  cr_error :: "json option"

definition mlx_generate :: "'s http \<Rightarrow> (ustr \<Rightarrow> ustr + chat_response) \<Rightarrow> (json \<Rightarrow> ustr) \<Rightarrow> llm_http
    \<Rightarrow> 's llm_generate" where
  "mlx_generate http decode show_json p r = (let model = model_for p r in
     bindE (send (ht_post http (lh_base_url p @ lit ''/v1/chat/completions'') (build_chat_body model r))) (\<lambda>resp.
     bindE (reply_json decode resp) (\<lambda>parsed.
       case cr_error parsed of Some e \<Rightarrow> errE (LlmRuntime (show_json e))
       | None \<Rightarrow> okE \<lparr> rs_text = (case cr_choices parsed of [] \<Rightarrow> [] | c # _ \<Rightarrow> c),
           rs_model = model_or (cr_chat_model parsed) model \<rparr>)))"

definition mlx_health :: "'s http \<Rightarrow> llm_http \<Rightarrow> ('s, llm_error, unit) effect" where
  "mlx_health http p = http_health http (lh_base_url p @ lit ''/v1/models'')"

definition mlx_embed :: "'s llm_embed" where
  "mlx_embed = embed_default"

section \<open>The cache in front of Ollama\<close>

text \<open>
  What the parameters of the key promise: the JSON text of a schema determines it, the debug form of a
  float determines what is sent for it, and neither holds the control character \<open>U+001F\<close> (JSON escapes
  it).
\<close>

definition key_sep :: uchar where
  "key_sep = 0x1F"

definition key_env_ok :: "key_env \<Rightarrow> generate_request set \<Rightarrow> bool" where
  "key_env_ok ky R \<longleftrightarrow> inj_on (ky_json ky) {j. \<exists>r \<in> R. rq_format r = Some j} \<and> (\<forall>j. ky_json ky j \<noteq> [] \<and> key_sep \<notin> set (ky_json ky j))
     \<and> (\<forall>x y. ky_f32 ky x = ky_f32 ky y \<longrightarrow> json_f32 x = json_f32 y) \<and> (\<forall>x. key_sep \<notin> set (ky_f32 ky x))"

definition hash_ok :: "key_env \<Rightarrow> ustr \<Rightarrow> generate_request set \<Rightarrow> bool" where
  "hash_ok ky dm R \<longleftrightarrow> inj_on (ky_hash ky) (key_canonical ky dm ` R)"

text \<open>Texts without the separator, and no system text that is present but empty.\<close>

definition separable :: "ustr \<Rightarrow> generate_request \<Rightarrow> bool" where
  "separable dm r \<longleftrightarrow> key_sep \<notin> set (resolved_model dm r) \<and> key_sep \<notin> set (rq_prompt r)
     \<and> (case rq_system r of None \<Rightarrow> True | Some s \<Rightarrow> s \<noteq> [] \<and> key_sep \<notin> set s)"

lemma hex_digit_inj: "hex_digit a = hex_digit b \<Longrightarrow> a < 16 \<Longrightarrow> b < 16 \<Longrightarrow> a = b"
  by (auto simp: hex_digit_def split: if_splits)

lemma length_hex16 [simp]: "length (hex16 h) = 16"
  by (simp add: hex16_def)

lemma nibble: "unat (drop_bit (4 * k) (h :: 64 word)) mod 16 = unat (take_bit 4 (drop_bit (4 * k) h))"
  by (simp add: take_bit_eq_mod unat_mod)

lemma hex16_inj:
  assumes "hex16 g = hex16 h"
  shows "g = h"
proof (rule bit_word_eqI)
  fix n
  assume n: "n < LENGTH(64)"
  define k where "k = n div 4"
  have k: "k < 16" using n by (simp add: k_def)
  have "hex_digit (unat (drop_bit (4 * k) g) mod 16) = hex_digit (unat (drop_bit (4 * k) h) mod 16)"
    using assms k unfolding hex16_def map_eq_conv by auto
  then have "unat (drop_bit (4 * k) g) mod 16 = unat (drop_bit (4 * k) h) mod 16"
    by (rule hex_digit_inj) simp_all
  then have t: "take_bit 4 (drop_bit (4 * k) g) = take_bit 4 (drop_bit (4 * k) h)"
    unfolding nibble by (simp only: word_unat_eq_iff)
  have "bit g n = bit (take_bit 4 (drop_bit (4 * k) g)) (n mod 4)"
    by (simp add: bit_take_bit_iff bit_drop_bit_eq k_def)
  also have "\<dots> = bit (take_bit 4 (drop_bit (4 * k) h)) (n mod 4)" by (simp only: t)
  also have "\<dots> = bit h n" by (simp add: bit_take_bit_iff bit_drop_bit_eq k_def)
  finally show "bit g n = bit h n" .
qed

lemma cache_key_canonical:
  assumes "cache_key ky dm r = cache_key ky dm r'" "hash_ok ky dm R" "r \<in> R" "r' \<in> R"
  shows "key_canonical ky dm r = key_canonical ky dm r'"
proof -
  obtain a b where h: "ky_hash ky (key_canonical ky dm r) = (a, b)" by fastforce
  obtain a' b' where h': "ky_hash ky (key_canonical ky dm r') = (a', b')" by fastforce
  have "hex16 a = hex16 a' \<and> hex16 b = hex16 b'"
    using assms(1) h h' by (simp add: cache_key_def append_eq_append_conv)
  then have "ky_hash ky (key_canonical ky dm r) = ky_hash ky (key_canonical ky dm r')"
    using h h' hex16_inj by metis
  then show ?thesis using assms(2-4) unfolding hash_ok_def by (meson imageI inj_onD)
qed

lemma debug_option_inj:
  assumes "debug_option f v = debug_option f w" "\<And>x y. f x = f y \<Longrightarrow> g x = g y"
  shows "map_option g v = map_option g w"
proof (cases v; cases w)
  fix x y
  assume "v = Some x" "w = Some y"
  then have "f x = f y" using assms(1) by (simp add: debug_option_def)
  then have "g x = g y" by (rule assms(2))
  then show ?thesis using \<open>v = Some x\<close> \<open>w = Some y\<close> by simp
qed (use assms(1) in \<open>simp_all add: debug_option_def lit_def\<close>)

lemma debug_option_sep: "(\<And>x. key_sep \<notin> set (f x)) \<Longrightarrow> key_sep \<notin> set (debug_option f v)"
  by (cases v) (auto simp: debug_option_def lit_def key_sep_def)

lemma show_u32_sep: "key_sep \<notin> set (show_u32 n)"
  unfolding show_u32_def key_sep_def using show_nat_digits by fastforce

lemma key_fields_sep:
  assumes "key_env_ok ky R" "separable dm r"
  shows "\<forall>w \<in> set (key_fields ky dm r). key_sep \<notin> set w"
proof -
  have "key_sep \<notin> set (debug_option (ky_f32 ky) v)" for v
    using assms(1) by (intro debug_option_sep) (simp add: key_env_ok_def)
  moreover have "key_sep \<notin> set (debug_option show_u32 v)" for v
    by (intro debug_option_sep show_u32_sep)
  moreover have "key_sep \<notin> set (lit ''v1'')" "key_sep \<notin> set (show_bool b)" for b
    by (simp_all add: lit_def key_sep_def show_bool_def)
  moreover have "key_sep \<notin> set (case rq_format r of Some v \<Rightarrow> ky_json ky v | None \<Rightarrow> [])"
    using assms(1) by (simp add: key_env_ok_def split: option.split)
  moreover have "key_sep \<notin> set (case rq_system r of Some s \<Rightarrow> s | None \<Rightarrow> [])"
    using assms(2) by (simp add: separable_def split: option.splits)
  ultimately show ?thesis using assms(2)
    unfolding key_fields_def separable_def by simp
qed

lemma key_canonical_fields:
  assumes "key_env_ok ky R" "separable dm r" "separable dm r'" "key_canonical ky dm r = key_canonical ky dm r'"
  shows "key_fields ky dm r = key_fields ky dm r'"
proof -
  have "split_on (\<lambda>d. d = key_sep) (key_canonical ky dm r) = key_fields ky dm r" if "separable dm r" for r
    using split_join_char [of "key_fields ky dm r" key_sep] key_fields_sep [OF assms(1) that]
    by (simp add: key_canonical_def key_sep_def key_fields_def)
  then show ?thesis using assms(2-4) by metis
qed

text \<open>What the request bodies are made of.\<close>

definition sent :: "ustr \<Rightarrow> generate_request \<Rightarrow> ustr \<times> ustr option \<times> ustr \<times> json option \<times> json option
    \<times> u32 option \<times> u32 option \<times> bool" where
  "sent dm r = (resolved_model dm r, rq_system r, rq_prompt r, rq_format r,
     map_option json_f32 (gc_temperature (rq_config r)), gc_num_ctx (rq_config r),
     gc_max_tokens (rq_config r), rq_think r)"

lemma key_fields_sent:
  assumes "key_env_ok ky R" "separable dm r" "separable dm r'" "key_fields ky dm r = key_fields ky dm r'"
    "r \<in> R" "r' \<in> R"
  shows "sent dm r = sent dm r'"
proof -
  have eqs: "resolved_model dm r = resolved_model dm r'"
    "(case rq_system r of Some s \<Rightarrow> s | None \<Rightarrow> []) = (case rq_system r' of Some s \<Rightarrow> s | None \<Rightarrow> [])"
    "rq_prompt r = rq_prompt r'"
    "(case rq_format r of Some v \<Rightarrow> ky_json ky v | None \<Rightarrow> []) = (case rq_format r' of Some v \<Rightarrow> ky_json ky v | None \<Rightarrow> [])"
    "debug_option (ky_f32 ky) (gc_temperature (rq_config r)) = debug_option (ky_f32 ky) (gc_temperature (rq_config r'))"
    "debug_option show_u32 (gc_num_ctx (rq_config r)) = debug_option show_u32 (gc_num_ctx (rq_config r'))"
    "debug_option show_u32 (gc_max_tokens (rq_config r)) = debug_option show_u32 (gc_max_tokens (rq_config r'))"
    "show_bool (rq_think r) = show_bool (rq_think r')"
    using assms(4) by (simp_all add: key_fields_def)
  have "rq_system r = rq_system r'"
    using eqs(2) assms(2,3) by (auto simp: separable_def split: option.splits)
  moreover have "rq_format r = rq_format r'"
  proof -
    have ne: "ky_json ky j \<noteq> []" for j using assms(1) by (simp add: key_env_ok_def)
    have "j = j'" if "rq_format r = Some j" "rq_format r' = Some j'" "ky_json ky j = ky_json ky j'" for j j'
      using assms(1,5,6) that unfolding key_env_ok_def inj_on_def by blast
    then show ?thesis using eqs(4) ne by (cases "rq_format r"; cases "rq_format r'") (simp_all, metis)
  qed
  moreover have "map_option json_f32 (gc_temperature (rq_config r)) = map_option json_f32 (gc_temperature (rq_config r'))"
    using assms(1) unfolding key_env_ok_def by (intro debug_option_inj [OF eqs(5)]) blast
  moreover have u32: "v = w" if "debug_option show_u32 v = debug_option show_u32 w" for v w
  proof -
    have "map_option id v = map_option id w"
      by (rule debug_option_inj [OF that]) (metis show_nat_inj [THEN iffD1] show_u32_def word_unat_eq_iff id_apply)
    then show ?thesis by (simp add: option.map_id)
  qed
  moreover have "rq_think r = rq_think r'"
    using eqs(8) by (simp add: show_bool_def lit_def split: if_splits)
  ultimately show ?thesis using eqs(1,3,6,7) unfolding sent_def by simp
qed

lemma set_opt_map: "set_opt k f v body = set_opt k id (map_option f v) body"
  by (cases v) (simp_all add: set_opt_def)

lemma generate_body_sent:
  assumes "sent (lh_default_model p) r = sent (lh_default_model p) r'"
  shows "build_generate_body (model_for p r) r = build_generate_body (model_for p r') r'"
    and "model_for p r = model_for p r'"
proof -
  from assms have eqs: "model_for p r = model_for p r'" "rq_system r = rq_system r'" "rq_prompt r = rq_prompt r'"
    "rq_format r = rq_format r'" "rq_think r = rq_think r'"
    "gc_num_ctx (rq_config r) = gc_num_ctx (rq_config r')" "gc_max_tokens (rq_config r) = gc_max_tokens (rq_config r')"
    and t: "map_option json_f32 (gc_temperature (rq_config r)) = map_option json_f32 (gc_temperature (rq_config r'))"
    by (simp_all add: sent_def resolved_model_def model_for_def)
  have "generate_options (rq_config r) = generate_options (rq_config r')"
    unfolding generate_options_def eqs(6,7) set_opt_map [where f = json_f32] t ..
  then show "build_generate_body (model_for p r) r = build_generate_body (model_for p r') r'"
    unfolding build_generate_body_def eqs(1-5) by simp
  show "model_for p r = model_for p r'" by (rule eqs(1))
qed

text \<open>A server whose reply depends on no more than the request it gets.\<close>

definition stateless :: "'s http \<Rightarrow> bool" where
  "stateless http \<longleftrightarrow> (\<forall>url body s s'. fst (ht_post http url body s) = fst (ht_post http url body s'))"

lemma bindE_fst:
  assumes "fst (m s) = fst (m' s')" "\<And>x t t'. fst (f x t) = fst (f x t')"
  shows "fst (bindE m f s) = fst (bindE m' f s')"
  using assms by (cases "m s"; cases "m' s'") (auto simp: bindE_def split: sum.splits)

lemma map_errE_fst: "fst (m s) = fst (m s') \<Longrightarrow> fst (map_errE g m s) = fst (map_errE g m s')"
  by (cases "m s"; cases "m s'") (simp add: map_errE_def)

lemma ollama_generate_stateless:
  assumes "stateless http" "sent (lh_default_model p) r = sent (lh_default_model p) r'"
  shows "fst (ollama_generate http decode p r s) = fst (ollama_generate http decode p r' s')"
proof -
  have post: "fst (send (ht_post http url body) s) = fst (send (ht_post http url body) s')" for url body
    using assms(1) unfolding stateless_def send_def by (intro map_errE_fst) blast
  have reply: "fst (reply_json decode resp t) = fst (reply_json decode resp t')" for resp t t'
    by (simp add: reply_json_def effect_defs split: sum.split)
  show ?thesis unfolding ollama_generate_def Let_def generate_body_sent(1) [OF assms(2)]
    unfolding generate_body_sent(2) [OF assms(2)]
    by (intro bindE_fst reply post) (simp add: effect_defs split: option.split)
qed


text \<open>Two requests, the first asked again, with a hash that tells their lengths apart.\<close>

definition demo_key_env :: key_env where
  "demo_key_env = \<lparr> ky_hash = (\<lambda>u. (of_nat (length u), 0)), ky_json = (\<lambda>_. lit ''{}''),
     ky_f32 = (\<lambda>w. show_nat (unat w)) \<rparr>"


end
