(* ===== verification/Engine_Wiring.thy ===== *)
theory Engine_Wiring
  imports Engine Llm_Providers
begin

text \<open>
  How the engine is put together (\<open>Engine::new\<close> in \<open>engine/src/lib.rs\<close>, \<open>asr::from_config\<close>): which
  runtime serves the configuration, the result cache around it, the models of the passes. What lies
  outside - the HTTP client, the operating system, the JSON decoders - is the record \<open>outside\<close>. Opening
  the database files and building the HTTP clients is taken to succeed, except for the cache's file.
\<close>

record 's outside =
  ou_http :: "'s http"
  ou_os :: "'s os"
  ou_unicode :: unicode
  ou_ollama :: "ustr \<Rightarrow> ustr + ollama_generate_response"
  ou_ollama_embed :: "ustr \<Rightarrow> ustr + ollama_embed_response"
  ou_chat :: "ustr \<Rightarrow> ustr + chat_response"
  ou_show_json :: "json \<Rightarrow> ustr"
  ou_asr :: "ustr \<Rightarrow> ustr + asr_response"
  ou_json_text :: json_text
  ou_key :: key_env
  ou_cache :: cache_env
  ou_cache_opens :: bool

definition runtime_of :: "config \<Rightarrow> llm_http" where
  "runtime_of cfg = (case cf_llm_provider cfg of
     Ollama \<Rightarrow> llm_http_new (rc_base_url (cf_ollama cfg)) (rc_model (cf_ollama cfg))
   | Mlx \<Rightarrow> llm_http_new (rc_base_url (cf_mlx cfg)) (rc_model (cf_mlx cfg)))"

definition base_generate :: "'s outside \<Rightarrow> config \<Rightarrow> 's llm_generate" where
  "base_generate ou cfg = (case cf_llm_provider cfg of
     Ollama \<Rightarrow> ollama_generate (ou_http ou) (ou_ollama ou) (runtime_of cfg)
   | Mlx \<Rightarrow> mlx_generate (ou_http ou) (ou_chat ou) (ou_show_json ou) (runtime_of cfg))"

definition base_embed :: "'s outside \<Rightarrow> config \<Rightarrow> 's llm_embed" where
  "base_embed ou cfg = (case cf_llm_provider cfg of
     Ollama \<Rightarrow> ollama_embed (ou_http ou) (ou_ollama_embed ou) (runtime_of cfg)
   | Mlx \<Rightarrow> mlx_embed)"

definition base_health :: "'s outside \<Rightarrow> config \<Rightarrow> ('s, llm_error, unit) effect" where
  "base_health ou cfg = (case cf_llm_provider cfg of
     Ollama \<Rightarrow> ollama_health (ou_http ou) (runtime_of cfg)
   | Mlx \<Rightarrow> mlx_health (ou_http ou) (runtime_of cfg))"

text \<open>A service of the inner state seen from the state with the cache.\<close>

definition beside_cache :: "('s, 'e, 'a) effect \<Rightarrow> ('s cached, 'e, 'a) effect" where
  "beside_cache m c = (case m (ca_inner c) of (r, s) \<Rightarrow> (r, c\<lparr> ca_inner := s \<rparr>))"

definition engine_generate :: "'s outside \<Rightarrow> config \<Rightarrow> 's cached llm_generate" where
  "engine_generate ou cfg = (if ou_cache_opens ou
     then cached_generate (ou_key ou) (ou_cache ou) (active_model cfg) (base_generate ou cfg)
     else (\<lambda>r. beside_cache (base_generate ou cfg r)))"

text \<open>With and without the cache, embedding and health go straight to the runtime.\<close>

definition engine_embed :: "'s outside \<Rightarrow> config \<Rightarrow> 's cached llm_embed" where
  "engine_embed ou cfg = (if ou_cache_opens ou then cached_embed (base_embed ou cfg)
     else (\<lambda>r. beside_cache (base_embed ou cfg r)))"

definition engine_health :: "'s outside \<Rightarrow> config \<Rightarrow> ('s cached, llm_error, unit) effect" where
  "engine_health ou cfg = (if ou_cache_opens ou then cached_health (base_health ou cfg)
     else beside_cache (base_health ou cfg))"

definition asr_from_config :: "'s outside \<Rightarrow> asr_config \<Rightarrow> 's asr_transcribe" where
  "asr_from_config ou cfg = (case ac_provider cfg of
     Qwen3Asr \<Rightarrow> qwen3_transcribe (ou_os ou) (ou_http ou) (ou_asr ou) (qwen3_asr_new (ac_base_url cfg) (ac_model cfg))
   | Whisper \<Rightarrow> whisper_transcribe
   | Fixture \<Rightarrow> fixture_transcribe \<lparr> tr_segments = [] \<rparr>)"

definition engine_ai :: "'s outside \<Rightarrow> config \<Rightarrow> 's cached ai_analyzer" where
  "engine_ai ou cfg = llm_analyzer (ou_unicode ou) (ou_json_text ou)
     (with_models (mo_extraction (cf_models cfg)) (mo_synthesis (cf_models cfg)) (llm_ai_engine_new (engine_generate ou cfg)))"

definition engine_orchestrator :: "'s outside \<Rightarrow> config \<Rightarrow> store_json \<Rightarrow> env \<Rightarrow> 's cached orchestrator" where
  "engine_orchestrator ou cfg js en = \<lparr>
     or_media = (\<lambda>input out_dir opts. beside_cache (extract_audio (ou_os ou) ffmpeg_default input out_dir opts)),
     or_asr = (\<lambda>audio. beside_cache (asr_from_config ou (cf_asr cfg) audio)),
     or_ai = engine_ai ou cfg, or_json = js, or_data_dir = cf_data_dir cfg, or_chunking = cf_chunking cfg, or_env = en \<rparr>"

section \<open>Callers of the library\<close>

text \<open>\<open>process_transcript_blocking\<close> and \<open>analyze_transcript\<close>, which do not go through IPC.\<close>

definition process_transcript_blocking :: "'s engine \<Rightarrow> ustr option \<Rightarrow> transcript
    \<Rightarrow> ('s, pipeline_error + meeting_id) engine_op" where
  "process_transcript_blocking eg title transcript w = (case create_job eg Process w of (i, w) \<Rightarrow>
     on_main (process (eg_orch eg) i (InputTranscript title transcript)) w)"

definition analyze_transcript :: "'s engine \<Rightarrow> ustr option \<Rightarrow> transcript \<Rightarrow> ('s, ai_error, meeting_ir \<times> ustr) effect" where
  "analyze_transcript eg title transcript =
     (let prepared = prepare transcript (cf_chunking (eg_config eg)); context = \<lparr> cx_title = title \<rparr>
      in bindE (analyze (or_ai (eg_orch eg)) prepared context) (\<lambda>ir.
         okE (ir, render_with_title ir (case title of Some t \<Rightarrow> t | None \<Rightarrow> lit ''Meeting''))))"

section \<open>What is wired\<close>

text \<open>The cache resolves a missing model to the one the runtime itself would use.\<close>

lemma runtime_default_model: "lh_default_model (runtime_of cfg) = active_model cfg"
  by (simp add: runtime_of_def active_model_def llm_http_new_def split: llm_provider_kind.split)

text \<open>Without the cache's file the engine is the runtime itself.\<close>

lemma engine_without_cache:
  "\<not> ou_cache_opens ou \<Longrightarrow> fst (engine_generate ou cfg r c) = fst (base_generate ou cfg r (ca_inner c))"
  by (simp add: engine_generate_def beside_cache_def split_beta)

end
