(* ===== verification/Engine_Jobs.thy ===== *)
theory Engine_Jobs
  imports Engine
begin

text \<open>
  No job is ever stuck: an invariant of the engine at work (requests, background tasks and restarts in
  any order) and the end every accepted job comes to.
\<close>

section \<open>What the parts of the engine leave alone\<close>

abbreviation jobs_of :: "'s engine_world \<Rightarrow> registry" where
  "jobs_of w \<equiv> wd_jobs (ew_main w)"

definition keeps_jobs :: "('s, 'a) engine_op \<Rightarrow> bool" where
  "keeps_jobs f \<longleftrightarrow> (\<forall>w. jobs_of (snd (f w)) = jobs_of w \<and> ew_tasks (snd (f w)) = ew_tasks w)"

lemma keeps_jobsD: "keeps_jobs f \<Longrightarrow> f w = (x, w') \<Longrightarrow> jobs_of w' = jobs_of w \<and> ew_tasks w' = ew_tasks w"
  unfolding keeps_jobs_def by (metis snd_conv)

lemma keeps_jobs_basic:
  "keeps_jobs (on_ext f)" "keeps_jobs (on_store eg oper)" "keeps_jobs (on_index g)"
  by (auto simp: keeps_jobs_def on_ext_def on_store_def on_index_def on_main_def split: prod.splits)

lemma keeps_jobs_seq:
  assumes "keeps_jobs f" "\<And>x. keeps_jobs (g x)"
  shows "keeps_jobs (\<lambda>w. case f w of (x, w) \<Rightarrow> g x w)"
  unfolding keeps_jobs_def
proof
  fix w
  obtain x w' where "f w = (x, w')" by (metis surj_pair)
  then show "jobs_of (snd (case f w of (x, w) \<Rightarrow> g x w)) = jobs_of w
      \<and> ew_tasks (snd (case f w of (x, w) \<Rightarrow> g x w)) = ew_tasks w"
    using keeps_jobsD [OF assms(1)] assms(2) [of x] unfolding keeps_jobs_def by simp
qed

lemma keeps_jobs_return: "keeps_jobs (\<lambda>w. (x, w))"
  by (simp add: keeps_jobs_def)

text \<open>Updates of the registry.\<close>

lemma on_jobs_registry:
  assumes "on_jobs eg f w = (x, w')"
  shows "\<exists>jw. (x, jobs_of w') = f jw (jobs_of w)" and "ew_tasks w' = ew_tasks w"
  using assms by (auto simp: on_jobs_def on_main_def Let_def split: prod.splits) metis

lemma registry_get_create:
  "registry_get k (registry_create jw i kind r) = (if k = i then Some (job_new i kind) else registry_get k r)"
  by (simp add: registry_get_def registry_create_def Let_def)

lemma registry_get_reinsert:
  "registry_get k (registry_reinsert jw j r) = (if k = jb_id j then Some j else registry_get k r)"
  by (simp add: registry_get_def registry_reinsert_def Let_def)

lemma registry_get_persist [simp]: "registry_get k (persist jw j r) = registry_get k r"
  by (simp add: registry_get_def)

lemma create_job_effect:
  assumes "create_job eg kind w = (i, w')"
  shows "registry_get k (jobs_of w') = (if k = i then Some (job_new i kind) else registry_get k (jobs_of w))"
    and "ew_tasks w' = ew_tasks w"
proof -
  obtain x w1 where c: "on_jobs eg (\<lambda>jw r. ((), registry_create jw (eg_job_id eg (wd_tick (ew_main w))) kind r)) w = (x, w1)"
    by (metis surj_pair)
  then have w: "w' = w1" "i = eg_job_id eg (wd_tick (ew_main w))" using assms by (simp_all add: create_job_def Let_def)
  show "ew_tasks w' = ew_tasks w" using on_jobs_registry(2) [OF c] w by simp
  show "registry_get k (jobs_of w') = (if k = i then Some (job_new i kind) else registry_get k (jobs_of w))"
    using on_jobs_registry(1) [OF c] w by (auto simp: registry_get_create)
qed

lemma update_job_effect:
  "registry_get k (jobs_of (update_job eg i f w))
     = (if k = i then map_option f (registry_get i (jobs_of w)) else registry_get k (jobs_of w))"
  "ew_tasks (update_job eg i f w) = ew_tasks w"
  by (auto simp: update_job_def on_jobs_def on_main_def Let_def registry_get_update)

section \<open>The invariant\<close>

fun task_job :: "task \<Rightarrow> job_id option" where
  "task_job (TaskProcess i input) = Some i"
| "task_job (TaskReprocess i m) = Some i"
| "task_job (TaskEmbed model) = None"

text \<open>Every job that is not finished is one of those somebody is going to run: by a pending task.\<close>

abbreviation jobs_in :: "task list \<Rightarrow> job_id set" where
  "jobs_in ts \<equiv> {i. Some i \<in> task_job ` set ts}"

definition attended_by :: "job_id set \<Rightarrow> 's engine_world \<Rightarrow> bool" where
  "attended_by J w \<longleftrightarrow> (\<forall>i j. registry_get i (jobs_of w) = Some j \<longrightarrow> is_terminal (jb_status j) \<or> i \<in> J)"

abbreviation attended :: "task list \<Rightarrow> 's engine_world \<Rightarrow> bool" where
  "attended ts \<equiv> attended_by (jobs_in ts)"

lemma attended_keeps:
  "attended_by J w \<Longrightarrow> jobs_of w' = jobs_of w \<Longrightarrow> J \<subseteq> J' \<Longrightarrow> attended_by J' w'"
  unfolding attended_by_def by auto

lemma finalized_job:
  assumes "registry_get i (jobs_of (snd (on_main (then_finalize orch i m) w))) = Some j"
  shows "is_terminal (jb_status j)"
proof -
  obtain r v where m: "m (ew_main w) = (r, v)" by (metis surj_pair)
  then have "registry_get i (wd_jobs (snd (finalize orch i r v))) = Some j"
    using assms by (simp add: on_main_def then_finalize_def split_beta)
  then obtain j0 where "j = outcome_job r j0" by (auto simp: finalize_jobs)
  then show ?thesis
    by (auto simp: outcome_job_def is_terminal_def split: sum.splits pipeline_error.splits)
qed

lemma on_main_jobs:
  "jobs_of (snd (on_main f w)) = wd_jobs (snd (f (ew_main w)))" "ew_tasks (snd (on_main f w)) = ew_tasks w"
  by (simp_all add: on_main_def split_beta)

text \<open>A task settles its own job and leaves the others alone.\<close>

lemma pipeline_task:
  assumes "t = TaskProcess i input \<or> t = TaskReprocess i m"
  shows "registry_get i (jobs_of (run_task eg t w)) = Some j \<Longrightarrow> is_terminal (jb_status j)"
    and "k \<noteq> i \<Longrightarrow> registry_get k (jobs_of (run_task eg t w)) = registry_get k (jobs_of w)"
    and "ew_tasks (run_task eg t w) = ew_tasks w"
  using assms others_kept.process [where k = i and orch = "eg_orch eg" and input = input]
    others_kept.reprocess [where k = i and orch = "eg_orch eg" and m = m]
  by (auto simp: on_main_jobs process_def reprocess_def intro: finalized_job)

lemma run_embedding_effect:
  shows "registry_get k (jobs_of (run_embedding eg model w)) = registry_get k (jobs_of w)
      \<or> (\<exists>j. registry_get k (jobs_of (run_embedding eg model w)) = Some j \<and> is_terminal (jb_status j))"
    and "ew_tasks (run_embedding eg model w) = ew_tasks w"
proof -
  obtain pending w1 where p: "on_index (pending_embedding_count (eg_sql_fault eg)) w = (pending, w1)" by (metis surj_pair)
  have w1: "jobs_of w1 = jobs_of w" "ew_tasks w1 = ew_tasks w" using keeps_jobsD [OF keeps_jobs_basic(3) p] by auto
  obtain i w2 where c: "create_job eg Embedding w1 = (i, w2)" by (metis surj_pair)
  define w3 where "w3 = update_job eg i (\<lambda>j. j\<lparr> jb_status := Running \<rparr>) w2"
  obtain r w4 where e: "on_index (embed_pending (eg_sql_fault eg) (eg_files eg (ew_sql_tick w3)) (eg_embed eg) (Some model)) w3
    = (r, w4)" by (metis surj_pair)
  have w4: "jobs_of w4 = jobs_of w3" "ew_tasks w4 = ew_tasks w3" using keeps_jobsD [OF keeps_jobs_basic(3) e] by auto
  have run: "run_embedding eg model w = (if (case pending of Inr n \<Rightarrow> n | Inl _ \<Rightarrow> 0) = 0 then w1\<lparr> ew_embedding := False \<rparr>
      else (update_job eg i (embedding_outcome r) w4)\<lparr> ew_embedding := False \<rparr>)"
    using e by (simp add: run_embedding_def p c Let_def w3_def)
  have "registry_get k (jobs_of (update_job eg i (embedding_outcome r) w4)) = registry_get k (jobs_of w)
      \<or> (\<exists>j. registry_get k (jobs_of (update_job eg i (embedding_outcome r) w4)) = Some j \<and> is_terminal (jb_status j))"
    using w1 w4 create_job_effect [OF c]
    by (auto simp: update_job_effect w3_def embedding_outcome_def is_terminal_def split: sum.splits)
  then show "registry_get k (jobs_of (run_embedding eg model w)) = registry_get k (jobs_of w)
      \<or> (\<exists>j. registry_get k (jobs_of (run_embedding eg model w)) = Some j \<and> is_terminal (jb_status j))"
    using w1 by (simp add: run)
  show "ew_tasks (run_embedding eg model w) = ew_tasks w"
    using w1 w4 create_job_effect(2) [OF c] by (simp add: run update_job_effect w3_def)
qed

lemma run_task_attended:
  assumes "attended_by J w"
  shows "attended_by (J - jobs_in [t]) (run_task eg t w)" and "ew_tasks (run_task eg t w) = ew_tasks w"
proof -
  consider i input m where "t = TaskProcess i input \<or> t = TaskReprocess i m" | model where "t = TaskEmbed model"
    by (cases t) auto
  then have "attended_by (J - jobs_in [t]) (run_task eg t w) \<and> ew_tasks (run_task eg t w) = ew_tasks w"
  proof cases
    case 1
    have "is_terminal (jb_status j) \<or> k \<in> J - jobs_in [t]" if "registry_get k (jobs_of (run_task eg t w)) = Some j" for k j
    proof (cases "k = i")
      case True
      then show ?thesis using pipeline_task(1) [OF 1] that by blast
    next
      case False
      then have "is_terminal (jb_status j) \<or> k \<in> J"
        using pipeline_task(2) [OF 1 False] that assms unfolding attended_by_def by metis
      then show ?thesis using 1 False by auto
    qed
    then show ?thesis using pipeline_task(3) [OF 1] unfolding attended_by_def by blast
  next
    case 2
    have "is_terminal (jb_status j) \<or> i \<in> J" if j: "registry_get i (jobs_of (run_embedding eg model w)) = Some j" for i j
    proof (cases "registry_get i (jobs_of (run_embedding eg model w)) = registry_get i (jobs_of w)")
      case True
      then show ?thesis using assms j unfolding attended_by_def by metis
    next
      case False
      then show ?thesis using run_embedding_effect(1) [where eg = eg and model = model and w = w and k = i] j by simp
    qed
    then show ?thesis
      using run_embedding_effect(2) [where eg = eg and model = model and w = w] 2 unfolding attended_by_def by simp
  qed
  then show "attended_by (J - jobs_in [t]) (run_task eg t w)" and "ew_tasks (run_task eg t w) = ew_tasks w" by simp_all
qed

lemma run_task_settles:
  assumes "attended (ts @ t # ts') w"
  shows "attended (ts @ ts') (run_task eg t w)"
  by (rule attended_keeps [OF run_task_attended(1) [OF assms] refl]) auto

section \<open>Requests\<close>

lemma keeps_jobs_same: "(\<And>w. jobs_of (f w) = jobs_of w \<and> ew_tasks (f w) = ew_tasks w) \<Longrightarrow> keeps_jobs g \<Longrightarrow> keeps_jobs (\<lambda>w. g (f w))"
  by (simp add: keeps_jobs_def)

lemma read_requests_keep_jobs:
  "keeps_jobs (health eg)" "keeps_jobs (get_job i)" "keeps_jobs (engine_get_meeting eg m)"
  "keeps_jobs (engine_get_transcript eg m)" "keeps_jobs (engine_get_mom eg m)" "keeps_jobs (engine_list_meetings eg)"
  by (auto simp: keeps_jobs_def health_def get_job_def engine_get_meeting_def engine_get_transcript_def
      engine_get_mom_def engine_list_meetings_def split: prod.splits sum.splits option.splits
      dest!: keeps_jobsD [OF keeps_jobs_basic(1)] keeps_jobsD [OF keeps_jobs_basic(2)])

text \<open>Searching may add the embedding task.\<close>

lemma find_passages_jobs:
  assumes "find_passages eg query dir limit w = (r, w')"
  shows "jobs_of w' = jobs_of w \<and> set (ew_tasks w) \<subseteq> set (ew_tasks w')"
proof -
  obtain r1 w1 where 1: "engine_sync eg dir w = (r1, w1)" by (metis surj_pair)
  have w1: "jobs_of w1 = jobs_of w" "ew_tasks w1 = ew_tasks w"
    using keeps_jobsD [OF keeps_jobs_basic(3) 1 [unfolded engine_sync_def]] by auto
  define w2 where "w2 = maybe_spawn_embedding eg w1"
  have w2: "jobs_of w2 = jobs_of w1" "set (ew_tasks w1) \<subseteq> set (ew_tasks w2)"
    by (auto simp: w2_def maybe_spawn_embedding_def spawn_def split: option.splits)
  obtain v w3 where 3: "embed_query eg query w2 = (v, w3)" by (metis surj_pair)
  then have w3: "jobs_of w3 = jobs_of w2" "ew_tasks w3 = ew_tasks w2"
    by (auto simp: embed_query_def split: option.splits prod.splits sum.splits list.splits
        dest!: keeps_jobsD [OF keeps_jobs_basic(1)])
  have "on_index (retrieve_hybrid (eg_retriever eg) (eg_sql_fault eg) query limit v) w3 = (r, w')"
    using assms 1 3 by (simp add: find_passages_def w2_def)
  then have "jobs_of w' = jobs_of w3" "ew_tasks w' = ew_tasks w3" using keeps_jobsD [OF keeps_jobs_basic(3)] by auto
  then show ?thesis using w1 w2 w3 by auto
qed

lemma search_ask_jobs:
  "search_vault eg query dir n w = (rp, w') \<Longrightarrow> jobs_of w' = jobs_of w \<and> set (ew_tasks w) \<subseteq> set (ew_tasks w')"
  "ask_vault eg query dir w = (rp, w') \<Longrightarrow> jobs_of w' = jobs_of w \<and> set (ew_tasks w) \<subseteq> set (ew_tasks w')"
  by (auto simp: search_vault_def ask_vault_def Let_def split: prod.splits sum.splits
      dest!: find_passages_jobs keeps_jobsD [OF keeps_jobs_basic(1)])

lemma start_effect:
  assumes "start_processing eg input w = (rp, w') \<or> start_reprocessing eg m w = (rp, w')"
  shows "\<exists>i t kind. rp = RpJobAccepted i \<and> task_job t = Some i \<and> ew_tasks w' = ew_tasks w @ [t]
    \<and> (\<forall>k. registry_get k (jobs_of w') = (if k = i then Some (job_new i kind) else registry_get k (jobs_of w)))"
  using assms
  by (auto simp: start_processing_def start_reprocessing_def spawn_def send_event_def create_job_effect
      split: prod.splits)

lemma cancel_job_effect:
  assumes "cancel_job i w = (rp, w')"
  shows "registry_get k (jobs_of w') = registry_get k (jobs_of w)" and "ew_tasks w' = ew_tasks w"
proof -
  have "registry_get k (snd (request_cancel i (jobs_of w))) = registry_get k (jobs_of w)"
    by (rule registry_get_cancel)
  then show "registry_get k (jobs_of w') = registry_get k (jobs_of w)" "ew_tasks w' = ew_tasks w"
    using assms by (auto simp: cancel_job_def on_main_def get_job_def split: prod.splits bool.splits option.splits)
qed

lemma dispatch_attended:
  assumes "dispatch eg rq w = (rp, w')" "attended_by (jobs_in (ew_tasks w) \<union> J) w"
  shows "attended_by (jobs_in (ew_tasks w') \<union> J) w'"
proof -
  have keep: "attended_by (jobs_in (ew_tasks w') \<union> J) w'" if "jobs_of w' = jobs_of w" "set (ew_tasks w) \<subseteq> set (ew_tasks w')"
    by (rule attended_keeps [OF assms(2) that(1)]) (use that(2) in blast)
  have start: "attended_by (jobs_in (ew_tasks w') \<union> J) w'"
    if "start_processing eg input w = (rp, w') \<or> start_reprocessing eg m w = (rp, w')" for input m
  proof -
    from start_effect [OF that] obtain i t kind where t: "task_job t = Some i" "ew_tasks w' = ew_tasks w @ [t]"
      and j: "\<And>k. registry_get k (jobs_of w') = (if k = i then Some (job_new i kind) else registry_get k (jobs_of w))"
      by blast
    have "is_terminal (jb_status x) \<or> k \<in> jobs_in (ew_tasks w') \<union> J" if "registry_get k (jobs_of w') = Some x" for k x
      using assms(2) j [of k] t that unfolding attended_by_def by (cases "k = i") auto
    then show ?thesis unfolding attended_by_def by blast
  qed
  have read: "attended_by (jobs_in (ew_tasks w') \<union> J) w'" if "keeps_jobs f" "f w = (rp, w')" for f
    using keeps_jobsD [OF that] by (intro keep) simp_all
  show ?thesis
  proof (cases rq)
    case RqHealth
    then show ?thesis using assms(1) read [OF read_requests_keep_jobs(1)] by simp
  next
    case (RqProcessMeeting input)
    then show ?thesis using assms(1) by (intro start [of input]) simp
  next
    case (RqGetJob i)
    then show ?thesis using assms(1) read [OF read_requests_keep_jobs(2)] by simp
  next
    case (RqCancelJob i)
    then show ?thesis using assms cancel_job_effect [of i w rp w'] unfolding attended_by_def by auto
  next
    case (RqGetMeeting m)
    then show ?thesis using assms(1) read [OF read_requests_keep_jobs(3)] by simp
  next
    case (RqGetTranscript m)
    then show ?thesis using assms(1) read [OF read_requests_keep_jobs(4)] by simp
  next
    case (RqGetMom m)
    then show ?thesis using assms(1) read [OF read_requests_keep_jobs(5)] by simp
  next
    case (RqSearch query dir n)
    then show ?thesis using assms(1) search_ask_jobs(1) [of eg query dir n w rp w'] keep by simp
  next
    case (RqAsk question dir)
    then show ?thesis using assms(1) search_ask_jobs(2) [of eg question dir w rp w'] keep by simp
  next
    case RqListMeetings
    then show ?thesis using assms(1) read [OF read_requests_keep_jobs(6)] by simp
  next
    case (RqReprocessMeeting m)
    then show ?thesis using assms(1) by (intro start [of _ m]) simp
  qed
qed

section \<open>Startup\<close>

lemma recover_statuses_jobs: "keeps_jobs (recover_statuses eg rows)"
proof (induction rows)
  case Nil
  then show ?case by (simp add: keeps_jobs_def)
next
  case (Cons row rows)
  obtain i status where row: "row = (i, status)" by (metis surj_pair)
  have "jobs_of (snd (recover_statuses eg (row # rows) w)) = jobs_of w
    \<and> ew_tasks (snd (recover_statuses eg (row # rows) w)) = ew_tasks w" for w
  proof (cases "ps_state status = Processing")
    case True
    obtain r w1 where 1: "on_store eg (\<lambda>fault. save_processing_status (or_json (eg_orch eg)) fault i
        (status_deferred (en_now (or_env (eg_orch eg)) (wd_tick (ew_main w))) INTERRUPTED)) w = (r, w1)"
      by (metis surj_pair)
    obtain n w2 where 2: "recover_statuses eg rows w1 = (n, w2)" by (metis surj_pair)
    show ?thesis
      using keeps_jobsD [OF keeps_jobs_basic(2) 1] keeps_jobsD [OF Cons.IH 2] True 1 2 by (simp add: row)
  next
    case False
    then show ?thesis using Cons.IH by (simp add: row keeps_jobs_def)
  qed
  then show ?case by (simp add: keeps_jobs_def)
qed

lemma recover_interrupted_jobs: "keeps_jobs (recover_interrupted eg)"
  by (auto simp: keeps_jobs_def recover_interrupted_def recover_statuses_jobs [unfolded keeps_jobs_def, rule_format]
      split: prod.splits sum.splits dest!: keeps_jobsD [OF keeps_jobs_basic(2)])

lemma store_job_effect:
  "registry_get k (jobs_of (close_job eg j reason w)) = registry_get k (jobs_of w)"
  "ew_tasks (close_job eg j reason w) = ew_tasks w"
  by (auto simp: close_job_def store_job_def on_jobs_def on_main_def Let_def)

lemma resumable_jobs: "keeps_jobs (resumable eg j)"
  by (auto simp: keeps_jobs_def resumable_def split: option.splits prod.splits dest!: keeps_jobsD [OF keeps_jobs_basic(2)])

text \<open>A job is either closed in the table, or back in the registry with its task.\<close>

lemma recover_job_effect:
  assumes "recover_job eg j w = (n, w')"
  shows "(\<forall>k. registry_get k (jobs_of w') = registry_get k (jobs_of w)) \<and> ew_tasks w' = ew_tasks w
    \<or> (\<exists>m. ew_tasks w' = ew_tasks w @ [TaskReprocess (jb_id j) m]
        \<and> (\<forall>k. registry_get k (jobs_of w') = (if k = jb_id j then Some (resumed_job j) else registry_get k (jobs_of w))))"
proof (cases "jb_kind j = Embedding")
  case True
  then show ?thesis using assms by (auto simp: recover_job_def store_job_effect)
next
  case False
  obtain ok w1 where r: "resumable eg j w = (ok, w1)" by (metis surj_pair)
  have w1: "jobs_of w1 = jobs_of w" "ew_tasks w1 = ew_tasks w" using keeps_jobsD [OF resumable_jobs r] by auto
  show ?thesis
  proof (cases "jb_attempts j \<ge> MAX_JOB_ATTEMPTS \<or> \<not> ok")
    case True
    then have "w' = close_job eg j (if ok then lit ''exceeded retry budget'' else lit ''cannot resume: no stored transcript'') w1"
      using assms False r by (simp add: recover_job_def)
    then show ?thesis using w1 by (simp add: store_job_effect)
  next
    case go: False
    show ?thesis
    proof (cases "jb_meeting_id j")
      case None
      then show ?thesis using assms False r go w1 by (simp add: recover_job_def)
    next
      case (Some m)
      obtain x w2 where o: "on_jobs eg (\<lambda>jw r. ((), registry_reinsert jw (resumed_job j) r)) w1 = (x, w2)"
        by (metis surj_pair)
      have "w' = spawn (TaskReprocess (jb_id j) m) w2" using assms False r go Some o by (simp add: recover_job_def)
      then show ?thesis using on_jobs_registry [OF o] w1
        by (intro disjI2 exI [of _ m]) (auto simp: spawn_def registry_get_reinsert resumed_job_def)
    qed
  qed
qed

lemma recover_job_attended:
  assumes "recover_job eg j w = (n, w')" "attended (ew_tasks w) w"
  shows "attended (ew_tasks w') w'"
  using recover_job_effect [OF assms(1)]
proof (elim disjE exE conjE)
  fix m assume t: "ew_tasks w' = ew_tasks w @ [TaskReprocess (jb_id j) m]"
    and r: "\<forall>k. registry_get k (jobs_of w') = (if k = jb_id j then Some (resumed_job j) else registry_get k (jobs_of w))"
  have "is_terminal (jb_status x) \<or> Some k \<in> task_job ` set (ew_tasks w')" if "registry_get k (jobs_of w') = Some x" for k x
    using assms(2) r [rule_format, of k] t that unfolding attended_by_def by (cases "k = jb_id j") auto
  then show ?thesis unfolding attended_by_def by blast
qed (use assms(2) in \<open>simp add: attended_by_def\<close>)

lemma recover_each_attended:
  "recover_each eg js w = (n, w') \<Longrightarrow> attended (ew_tasks w) w \<Longrightarrow> attended (ew_tasks w') w'"
  by (induction js arbitrary: w n) (auto split: prod.splits dest: recover_job_attended)

lemma startup_attended: "attended (ew_tasks (startup eg w)) (startup eg w)"
proof -
  obtain n w1 where 1: "recover_interrupted eg (engine_new w) = (n, w1)" by (metis surj_pair)
  have w1: "attended (ew_tasks w1) w1"
    using keeps_jobsD [OF recover_interrupted_jobs 1] by (simp add: attended_by_def engine_new_def registry_get_def)
  obtain k w2 where 2: "recover_jobs eg w1 = (k, w2)" by (metis surj_pair)
  have "attended (ew_tasks w2) w2"
    using 2 w1 by (auto simp: recover_jobs_def split: option.splits if_splits dest: recover_each_attended)
  then show ?thesis by (simp add: startup_def 1 2)
qed

section \<open>Every reachable state\<close>

lemma attended_step: "engine_step eg w w' \<Longrightarrow> attended (ew_tasks w) w \<Longrightarrow> attended (ew_tasks w') w'"
proof (induction rule: engine_step.induct)
  case (serve rq w rp w')
  then show ?case using dispatch_attended [where J = "{}"] by simp
next
  case (task w ts t ts')
  then have "attended (ts @ t # ts') (w\<lparr> ew_tasks := ts @ ts' \<rparr>)" by (simp add: attended_by_def)
  from run_task_settles [OF this, of eg] run_task_attended(2) [OF this, of eg] show ?case by simp
next
  case (restart w)
  show ?case by (rule startup_attended)
qed

lemma attended_reachable:
  assumes "(engine_step eg)\<^sup>*\<^sup>* (startup eg w0) w"
  shows "attended (ew_tasks w) w"
  using assms by (induction rule: rtranclp_induct) (auto intro: startup_attended attended_step)

text \<open>The background at rest: the pending tasks have run, in some order.\<close>

definition run_tasks :: "'s engine \<Rightarrow> task list \<Rightarrow> 's engine_world \<Rightarrow> 's engine_world" where
  "run_tasks eg ts w = fold (run_task eg) ts (w\<lparr> ew_tasks := [] \<rparr>)"

lemma fold_tasks_attended: "attended ts w \<Longrightarrow> attended [] (fold (run_task eg) ts w)"
proof (induction ts arbitrary: w)
  case (Cons t ts)
  then show ?case using run_task_settles [of "[]" t ts w eg] by simp
qed simp

lemma fold_tasks_keep:
  "registry_get i (jobs_of w) \<noteq> None \<Longrightarrow> registry_get i (jobs_of (fold (run_task eg) ts w)) \<noteq> None"
proof (induction ts arbitrary: w)
  case (Cons t ts)
  have "registry_get i (jobs_of (run_task eg t w)) \<noteq> None"
  proof (cases t)
    case (TaskProcess k input)
    then show ?thesis using Cons.prems entry_kept.process [where i = i and k = k and orch = "eg_orch eg" and input = input]
      by (simp add: on_main_jobs)
  next
    case (TaskReprocess k m)
    then show ?thesis using Cons.prems entry_kept.reprocess [where i = i and k = k and orch = "eg_orch eg" and m = m]
      by (simp add: on_main_jobs)
  next
    case (TaskEmbed model)
    then show ?thesis using Cons.prems run_embedding_effect(1) [where eg = eg and model = model and w = w and k = i] by auto
  qed
  then show ?case using Cons.IH by simp
qed simp

lemma run_tasks_settle:
  assumes "attended (ew_tasks w) w" "mset ts = mset (ew_tasks w)"
    and "registry_get i (jobs_of (run_tasks eg ts w)) = Some j"
  shows "is_terminal (jb_status j)"
proof -
  have "attended ts (w\<lparr> ew_tasks := [] \<rparr>)"
    using assms(1) mset_eq_setD [OF assms(2)] by (simp add: attended_by_def)
  then show ?thesis
    using fold_tasks_attended assms(3) unfolding run_tasks_def attended_by_def by fastforce
qed

section \<open>A small engine to evaluate\<close>

definition demo_engine :: "unit engine" where
  "demo_engine = \<lparr> eg_config = from_env (\<lambda>_. None) Map.empty, eg_orch = demo_orch \<lparr> tr_segments = [] \<rparr>,
     eg_health = okE (), eg_generate = (\<lambda>_ s. (Inl (LlmTransport []), s)), eg_embed = embed_default,
     eg_retriever = demo_retriever, eg_sql_fault = (\<lambda>_. None), eg_key_order = id, eg_files = (\<lambda>_. demo_vault),
     eg_tree = (\<lambda>_ _. demo_tree), eg_job_id = (\<lambda>n. JobId (show_nat n)), eg_list_fails = (\<lambda>_. False) \<rparr>"

definition demo_start :: "unit engine_world" where
  "demo_start = \<lparr> ew_main = \<lparr> wd_db = db_empty, wd_jobs = registry_with_store [], wd_events = [], wd_tick = 0, wd_ext = () \<rparr>,
     ew_index = index_empty, ew_sql_tick = 0, ew_embedding = False, ew_tasks = [] \<rparr>"

definition demo_request :: request where
  "demo_request = RqProcessMeeting (InputOfTranscript (Some (lit ''Sync'')) \<lparr> tr_segments = [] \<rparr>)"

definition demo_served :: "response \<times> unit engine_world" where
  "demo_served = dispatch demo_engine demo_request (startup demo_engine demo_start)"

section \<open>Properties\<close>

text \<open>No job is stuck: at every moment after startup - whatever requests were served, tasks run and restarts
  made, in any order - a job that is not finished has a pending task that runs it.\<close>

theorem no_job_stuck:
  assumes "(engine_step eg)\<^sup>*\<^sup>* (startup eg w0) w" "registry_get i (wd_jobs (ew_main w)) = Some j"
  shows "is_terminal (jb_status j) \<or> (\<exists>t \<in> set (ew_tasks w). task_job t = Some i)"
  using attended_reachable [OF assms(1)] assms(2) unfolding attended_by_def by (auto simp: image_iff) metis

theorem no_job_stuck_witness:
  "\<exists>i j t. registry_get i (wd_jobs (ew_main (snd demo_served))) = Some j \<and> jb_status j = Queued
     \<and> t \<in> set (ew_tasks (snd demo_served)) \<and> task_job t = Some i"
proof -
  have served: "dispatch demo_engine demo_request (startup demo_engine demo_start) = (fst demo_served, snd demo_served)"
    unfolding demo_served_def by (rule prod.collapse [symmetric])
  then have "start_processing demo_engine (InputOfTranscript (Some (lit ''Sync'')) \<lparr> tr_segments = [] \<rparr>)
      (startup demo_engine demo_start) = (fst demo_served, snd demo_served)"
    unfolding demo_request_def dispatch.simps .
  from start_effect [OF disjI1 [OF this]]
  obtain i kind where i: "registry_get i (jobs_of (snd demo_served)) = Some (job_new i kind)" by (metis (mono_tags))
  have "(engine_step demo_engine)\<^sup>*\<^sup>* (startup demo_engine demo_start) (snd demo_served)"
    using engine_step.serve [OF served] by (rule r_into_rtranclp)
  from no_job_stuck [OF this i] obtain t where "t \<in> set (ew_tasks (snd demo_served))" "task_job t = Some i"
    by (auto simp: job_new_def is_terminal_def)
  moreover have "jb_status (job_new i kind) = Queued" by (simp add: job_new_def)
  ultimately show ?thesis using i by blast
qed

text \<open>C4. Every accepted job comes to an end: a request to process or to reprocess is answered with a job, and
  once the pending tasks have run, in any order, that job - like every other - is in a terminal state.\<close>

theorem accepted_job_ends:
  assumes "(engine_step eg)\<^sup>*\<^sup>* (startup eg w0) w"
    and "dispatch eg rq w = (rp, w')" "rq = RqProcessMeeting input \<or> rq = RqReprocessMeeting m"
    and "mset ts = mset (ew_tasks w')"
  shows "\<exists>i j. rp = RpJobAccepted i \<and> registry_get i (wd_jobs (ew_main (run_tasks eg ts w'))) = Some j
    \<and> is_terminal (jb_status j)"
proof -
  have "start_processing eg input w = (rp, w') \<or> start_reprocessing eg m w = (rp, w')"
    using assms(2,3) by auto
  from start_effect [OF this] obtain i kind where rp: "rp = RpJobAccepted i"
    and i: "registry_get i (jobs_of w') = Some (job_new i kind)" by auto
  have "registry_get i (jobs_of (w'\<lparr> ew_tasks := [] \<rparr>)) \<noteq> None" using i by simp
  then obtain j where j: "registry_get i (jobs_of (run_tasks eg ts w')) = Some j"
    using fold_tasks_keep unfolding run_tasks_def by blast
  have "attended (ew_tasks w') w'"
    using dispatch_attended [OF assms(2), of "{}"] attended_reachable [OF assms(1)] by simp
  then show ?thesis using rp j run_tasks_settle [OF _ assms(4) j] by blast
qed

theorem accepted_job_ends_witness:
  "\<exists>i j. fst demo_served = RpJobAccepted i
     \<and> registry_get i (wd_jobs (ew_main (run_tasks demo_engine (rev (ew_tasks (snd demo_served))) (snd demo_served)))) = Some j
     \<and> is_terminal (jb_status j)"
proof -
  have served: "dispatch demo_engine demo_request (startup demo_engine demo_start) = (fst demo_served, snd demo_served)"
    unfolding demo_served_def by (rule prod.collapse [symmetric])
  have rq: "demo_request = RqProcessMeeting (InputOfTranscript (Some (lit ''Sync'')) \<lparr> tr_segments = [] \<rparr>)
      \<or> demo_request = RqReprocessMeeting (MeetingId [])"
    by (simp add: demo_request_def)
  show ?thesis by (rule accepted_job_ends [OF rtranclp.rtrancl_refl served rq mset_rev])
qed

end
