(* ===== verification/Engine_Recovery.thy ===== *)
theory Engine_Recovery
  imports Engine_Jobs
begin

text \<open>
  The recovery at startup (\<open>engine/src/lib.rs\<close>): which captures are marked retryable, what becomes of the
  jobs of the previous process, and that a process that keeps dying does not retry a job for ever.
\<close>

section \<open>Unfinished rows\<close>

definition unfinished_at :: "(ustr, job_row) table \<Rightarrow> ustr \<Rightarrow> job option" where
  "unfinished_at t i = (case map_of t i of None \<Rightarrow> None
     | Some row \<Rightarrow> if jr_state row \<in> {lit ''queued'', lit ''running''} then Some (job_from_row (i, row)) else None)"

abbreviation row_id :: "job \<Rightarrow> ustr" where
  "row_id j \<equiv> job_id_str (jb_id j)"

lemma row_id_eq_iff: "row_id j = row_id k \<longleftrightarrow> jb_id j = jb_id k"
  by (cases "jb_id j"; cases "jb_id k") simp

lemma list_unfinished_at:
  assumes "table_ok t"
  shows "j \<in> set (list_unfinished t) \<longleftrightarrow> unfinished_at t (row_id j) = Some j"
proof -
  have id: "jb_id (job_from_row (i, row)) = JobId i" for i row by (simp add: job_from_row_def)
  have "j \<in> set (list_unfinished t)
      \<longleftrightarrow> (\<exists>i row. map_of t i = Some row \<and> jr_state row \<in> {lit ''queued'', lit ''running''} \<and> j = job_from_row (i, row))"
    using assms unfolding list_unfinished_def set_map set_sort_by set_filter table_ok_def keys_def
    by (force simp: image_iff)
  also have "\<dots> \<longleftrightarrow> unfinished_at t (row_id j) = Some j"
  proof
    assume "\<exists>i row. map_of t i = Some row \<and> jr_state row \<in> {lit ''queued'', lit ''running''} \<and> j = job_from_row (i, row)"
    then obtain i row where r: "map_of t i = Some row" "jr_state row \<in> {lit ''queued'', lit ''running''}"
      "j = job_from_row (i, row)" by blast
    then have "row_id j = i" by (simp add: id)
    then show "unfinished_at t (row_id j) = Some j" using r by (simp add: unfinished_at_def)
  next
    assume u: "unfinished_at t (row_id j) = Some j"
    show "\<exists>i row. map_of t i = Some row \<and> jr_state row \<in> {lit ''queued'', lit ''running''} \<and> j = job_from_row (i, row)"
    proof (cases "map_of t (row_id j)")
      case None
      then show ?thesis using u by (simp add: unfinished_at_def)
    next
      case (Some row)
      then have "jr_state row \<in> {lit ''queued'', lit ''running''}" "j = job_from_row (row_id j, row)"
        using u by (simp_all add: unfinished_at_def split: if_splits)
      then show ?thesis using Some by blast
    qed
  qed
  finally show ?thesis .
qed

lemma unfinished_at_id: "unfinished_at t i = Some j \<Longrightarrow> jb_id j = JobId i"
  by (auto simp: unfinished_at_def job_from_row_def split: option.splits if_splits)

lemma unfinished_at_upsert:
  "unfinished_at (job_store_upsert now j t) i
     = (if i = row_id j then if is_terminal (jb_status j) then None else Some j else unfinished_at t i)"
proof (cases "i = row_id j")
  case True
  obtain c where row: "map_of (job_store_upsert now j t) i = Some ((job_to_row now j)\<lparr> jr_created_at := c \<rparr>)"
  proof (cases "map_of t (row_id j)")
    case None
    then have "map_of (job_store_upsert now j t) i = Some ((job_to_row now j)\<lparr> jr_created_at := now \<rparr>)"
      using True by (simp add: job_store_upsert_def table_simps job_to_row_def)
    then show thesis by (rule that)
  next
    case (Some old)
    then have "map_of (job_store_upsert now j t) i = Some ((job_to_row now j)\<lparr> jr_created_at := jr_created_at old \<rparr>)"
      using True by (simp add: job_store_upsert_def table_simps)
    then show thesis by (rule that)
  qed
  have "jr_state ((job_to_row now j)\<lparr> jr_created_at := c \<rparr>) = job_status_token (jb_status j)"
    by (simp add: job_to_row_def)
  then show ?thesis using True row unfinished_token [of "jb_status j"] job_row_roundtrip [of j now]
    by (simp add: unfinished_at_def job_from_row_created)
next
  case False
  then show ?thesis by (simp add: unfinished_at_def job_store_upsert_def table_simps)
qed

section \<open>One job\<close>

definition writes_ok :: "'s engine \<Rightarrow> bool" where
  "writes_ok eg \<longleftrightarrow> (\<forall>n. \<not> en_job_write_fails (or_env (eg_orch eg)) n) \<and> (\<forall>n. \<not> eg_list_fails eg n)"

definition job_table :: "'s engine_world \<Rightarrow> (ustr, job_row) table \<Rightarrow> bool" where
  "job_table w t \<longleftrightarrow> rg_store (wd_jobs (ew_main w)) = Some t \<and> table_ok t"

lemma on_jobs_persist:
  assumes "writes_ok eg" "job_table w t"
    and "\<And>jw r. rg_store (snd (f jw r)) = rg_store (persist jw j r)" "on_jobs eg f w = (x, w')"
  shows "\<exists>now. job_table w' (job_store_upsert now j t)"
proof -
  let ?en = "or_env (eg_orch eg)" and ?m = "ew_main w"
  let ?jw = "\<lparr> jw_now = en_now ?en (wd_tick ?m), jw_fails = en_job_write_fails ?en (wd_tick ?m) \<rparr>"
  have "wd_jobs (ew_main w') = snd (f ?jw (wd_jobs ?m))"
    using assms(4) by (auto simp: on_jobs_def on_main_def Let_def split: prod.splits)
  then have "rg_store (wd_jobs (ew_main w')) = rg_store (persist ?jw j (wd_jobs ?m))" using assms(3) by simp
  also have "\<dots> = Some (job_store_upsert (en_now ?en (wd_tick ?m)) j t)"
    using assms(1,2) by (simp add: persist_def job_table_def writes_ok_def)
  finally show ?thesis using assms(2) by (auto simp: job_table_def table_ok_job_upsert)
qed

text \<open>A job that goes on: back in the registry and in the table, with a task and within its budget.\<close>

definition requeued :: "'s engine_world \<Rightarrow> (ustr, job_row) table \<Rightarrow> job \<Rightarrow> bool" where
  "requeued w t j \<longleftrightarrow> unfinished_at t (row_id j) = Some (resumed_job j) \<and> jb_attempts j < MAX_JOB_ATTEMPTS
     \<and> jb_kind j \<noteq> Embedding \<and> registry_get (jb_id j) (jobs_of w) = Some (resumed_job j)
     \<and> (\<exists>m. jb_meeting_id j = Some m \<and> TaskReprocess (jb_id j) m \<in> set (ew_tasks w))"

lemma recover_job_table:
  assumes ok: "writes_ok eg" and t: "job_table w t" and rec: "recover_job eg j w = (n, w')"
  shows "\<exists>t'. job_table w' t' \<and> (\<forall>i. i \<noteq> row_id j \<longrightarrow> unfinished_at t' i = unfinished_at t i)
    \<and> (n = 0 \<and> unfinished_at t' (row_id j) = None \<or> n = 1 \<and> requeued w' t' j)"
proof -
  have closed: ?thesis if c: "w' = close_job eg j reason w1" "job_table w1 t" "n = 0" for reason w1
  proof -
    let ?j = "j\<lparr> jb_status := JobFailedStatus, jb_error := Some reason \<rparr>"
    obtain x v where o: "on_jobs eg (\<lambda>jw r. ((), persist jw ?j r)) w1 = (x, v)" by (metis surj_pair)
    then have "w' = v" using c(1) by (simp add: close_job_def store_job_def)
    moreover obtain now where "job_table v (job_store_upsert now ?j t)"
      using on_jobs_persist [OF ok c(2) _ o] by auto
    ultimately show ?thesis using c(3)
      by (intro exI [of _ "job_store_upsert now ?j t"]) (simp add: unfinished_at_upsert is_terminal_def)
  qed
  show ?thesis
  proof (cases "jb_kind j = Embedding")
    case True
    then show ?thesis using rec t by (intro closed [of _ w]) (auto simp: recover_job_def)
  next
    case False
    obtain resume w1 where r: "resumable eg j w = (resume, w1)" by (metis surj_pair)
    have w1: "jobs_of w1 = jobs_of w" "ew_tasks w1 = ew_tasks w" using keeps_jobsD [OF resumable_jobs r] by auto
    then have t1: "job_table w1 t" using t by (simp add: job_table_def)
    show ?thesis
    proof (cases "jb_attempts j \<ge> MAX_JOB_ATTEMPTS \<or> \<not> resume")
      case True
      then show ?thesis using rec False r t1 by (intro closed [of _ w1]) (auto simp: recover_job_def)
    next
      case go: False
      then obtain m where m: "jb_meeting_id j = Some m" using r by (auto simp: resumable_def split: option.splits)
      obtain x w2 where o: "on_jobs eg (\<lambda>jw r. ((), registry_reinsert jw (resumed_job j) r)) w1 = (x, w2)"
        by (metis surj_pair)
      have w': "w' = spawn (TaskReprocess (jb_id j) m) w2" "n = 1"
        using rec False r go m o by (simp_all add: recover_job_def)
      have "rg_store (registry_reinsert jw (resumed_job j) r) = rg_store (persist jw (resumed_job j) r)" for jw r
        by (simp add: registry_reinsert_def Let_def)
      then obtain now where t2: "job_table w2 (job_store_upsert now (resumed_job j) t)"
        using on_jobs_persist [OF ok t1 _ o, of "resumed_job j"] by (metis snd_conv)
      have "registry_get (jb_id j) (jobs_of w') = Some (resumed_job j)"
        using on_jobs_registry(1) [OF o] w'(1) by (auto simp: spawn_def registry_get_reinsert resumed_job_def)
      then show ?thesis using t2 w' go False m
        by (intro exI [of _ "job_store_upsert now (resumed_job j) t"])
          (simp add: requeued_def spawn_def job_table_def unfinished_at_upsert resumed_job_def is_terminal_def not_le)
    qed
  qed
qed

section \<open>Which jobs go on\<close>

abbreviation store_of :: "'s engine \<Rightarrow> 's engine_world \<Rightarrow> store_view" where
  "store_of eg w \<equiv> view_store (or_json (eg_orch eg)) (wd_db (ew_main w))"

text \<open>A processing or retry within its budget on a meeting whose transcript is stored.\<close>

definition retriable :: "store_view \<Rightarrow> job \<Rightarrow> bool" where
  "retriable v j \<longleftrightarrow> jb_kind j \<noteq> Embedding \<and> jb_attempts j < 3
     \<and> (\<exists>m transcript. jb_meeting_id j = Some m \<and> sv_transcript v m = Inr (Some transcript))"

definition db_up :: "'s engine \<Rightarrow> bool" where
  "db_up eg \<longleftrightarrow> (\<forall>n. en_db_fault (or_env (eg_orch eg)) n = None)"

lemma resumable_iff:
  assumes "resumable eg j w = (b, w')"
  shows "wd_db (ew_main w') = wd_db (ew_main w)"
    and "b \<Longrightarrow> \<exists>m transcript. jb_meeting_id j = Some m \<and> sv_transcript (store_of eg w) m = Inr (Some transcript)"
    and "db_up eg \<Longrightarrow> jb_meeting_id j = Some m \<Longrightarrow> sv_transcript (store_of eg w) m = Inr (Some transcript) \<Longrightarrow> b"
proof -
  let ?js = "or_json (eg_orch eg)" and ?d = "wd_db (ew_main w)"
  have read: "get_transcript ?js fault m ?d = ((case fault of None \<Rightarrow> sv_transcript (store_of eg w) m | Some e \<Rightarrow> Inl (StorageBackend e)), ?d)" for fault m
    by (cases fault) (auto simp: view_store_def get_transcript_def get_artifact_def with_conn_def bindE_def decodeE_def
        split: option.splits)
  show "wd_db (ew_main w') = ?d"
    using assms by (auto simp: resumable_def on_store_def on_main_def read split: option.splits prod.splits)
  show "\<exists>m transcript. jb_meeting_id j = Some m \<and> sv_transcript (store_of eg w) m = Inr (Some transcript)" if b
    using assms that by (auto simp: resumable_def on_store_def on_main_def read split: option.splits prod.splits sum.splits)
  show b if "db_up eg" "jb_meeting_id j = Some m" "sv_transcript (store_of eg w) m = Inr (Some transcript)"
    using assms that by (auto simp: resumable_def on_store_def on_main_def read db_up_def)
qed

lemma on_jobs_db: "on_jobs eg f w = (x, w') \<Longrightarrow> wd_db (ew_main w') = wd_db (ew_main w)"
  by (auto simp: on_jobs_def on_main_def Let_def split: prod.splits)

lemma close_job_db: "wd_db (ew_main (close_job eg j reason w)) = wd_db (ew_main w)"
  unfolding close_job_def store_job_def by (metis on_jobs_db prod.collapse)

lemma recover_job_which:
  assumes "recover_job eg j w = (n, w')"
  shows "wd_db (ew_main w') = wd_db (ew_main w)" "n = 1 \<longrightarrow> retriable (store_of eg w) j"
    "db_up eg \<and> retriable (store_of eg w) j \<longrightarrow> n = 1"
proof -
  obtain b w1 where r: "resumable eg j w = (b, w1)" by (metis surj_pair)
  obtain x w2 where o: "on_jobs eg (\<lambda>jw r. ((), registry_reinsert jw (resumed_job j) r)) w1 = (x, w2)" by (metis surj_pair)
  have b: "jb_attempts j < 3 \<longleftrightarrow> \<not> jb_attempts j \<ge> MAX_JOB_ATTEMPTS" by (simp add: MAX_JOB_ATTEMPTS_def not_le)
  show "wd_db (ew_main w') = wd_db (ew_main w)"
    using assms r resumable_iff(1) [OF r] o on_jobs_db [OF o]
    by (auto simp: recover_job_def close_job_db spawn_def split: if_splits option.splits)
  show "n = 1 \<longrightarrow> retriable (store_of eg w) j"
    using assms r resumable_iff(2) [OF r] b by (auto simp: recover_job_def retriable_def split: if_splits)
  show "db_up eg \<and> retriable (store_of eg w) j \<longrightarrow> n = 1"
    using assms r o resumable_iff(3) [OF r] b unfolding retriable_def recover_job_def by auto
qed

section \<open>All jobs\<close>

lemma requeued_later:
  assumes "requeued w t j" "recover_job eg k w = (n, w')" "jb_id k \<noteq> jb_id j"
    and "unfinished_at t' (row_id j) = unfinished_at t (row_id j)"
  shows "requeued w' t' j"
  using recover_job_effect [OF assms(2)] assms(1,3,4) unfolding requeued_def by auto

lemma recover_each_keeps_other:
  assumes "recover_each eg js w = (n, w')" "requeued w t j" "jb_id j \<notin> jb_id ` set js"
    and "unfinished_at t' (row_id j) = unfinished_at t (row_id j)"
  shows "requeued w' t' j"
  using assms
proof (induction js arbitrary: w n)
  case Nil
  then show ?case by (simp add: requeued_def)
next
  case (Cons k js)
  obtain a w1 where 1: "recover_job eg k w = (a, w1)" by (metis surj_pair)
  obtain b where 2: "recover_each eg js w1 = (b, w')"
    using Cons.prems(1) 1 by (auto split: prod.splits)
  have "requeued w1 t j" using requeued_later [OF Cons.prems(2) 1 _ refl] Cons.prems(3) by auto
  then show ?case using Cons.IH [OF 2] Cons.prems 1 2 by simp
qed

lemma recover_each_table:
  assumes "writes_ok eg"
  shows "distinct (map jb_id js) \<Longrightarrow> job_table w t \<Longrightarrow> recover_each eg js w = (n, w')
    \<Longrightarrow> \<exists>t'. job_table w' t' \<and> (\<forall>i. i \<notin> row_id ` set js \<longrightarrow> unfinished_at t' i = unfinished_at t i)
      \<and> (\<forall>j \<in> set js. unfinished_at t' (row_id j) = None \<or> requeued w' t' j)
      \<and> (\<forall>j \<in> set js. (unfinished_at t' (row_id j) \<noteq> None \<longrightarrow> retriable (store_of eg w) j)
          \<and> (db_up eg \<and> retriable (store_of eg w) j \<longrightarrow> unfinished_at t' (row_id j) \<noteq> None))
      \<and> n = length (filter (\<lambda>j. unfinished_at t' (row_id j) \<noteq> None) js)"
proof (induction js arbitrary: w t n)
  case Nil
  then show ?case by auto
next
  case (Cons j js)
  obtain a w1 where 1: "recover_job eg j w = (a, w1)" by (metis surj_pair)
  obtain b where 2: "recover_each eg js w1 = (b, w')" and n: "n = a + b"
    using Cons.prems(3) 1 by (auto split: prod.splits)
  from recover_job_table [OF assms Cons.prems(2) 1] obtain t1 where t1: "job_table w1 t1"
    "\<And>i. i \<noteq> row_id j \<Longrightarrow> unfinished_at t1 i = unfinished_at t i"
    and own: "a = 0 \<and> unfinished_at t1 (row_id j) = None \<or> a = 1 \<and> requeued w1 t1 j" by blast
  have dist: "distinct (map jb_id js)" "jb_id j \<notin> jb_id ` set js" using Cons.prems(1) by auto
  from Cons.IH [OF dist(1) t1(1) 2] obtain t2 where t2: "job_table w' t2"
    "\<And>i. i \<notin> row_id ` set js \<Longrightarrow> unfinished_at t2 i = unfinished_at t1 i"
    "\<And>k. k \<in> set js \<Longrightarrow> unfinished_at t2 (row_id k) = None \<or> requeued w' t2 k"
    and which: "\<And>k. k \<in> set js \<Longrightarrow> (unfinished_at t2 (row_id k) \<noteq> None \<longrightarrow> retriable (store_of eg w1) k)
      \<and> (db_up eg \<and> retriable (store_of eg w1) k \<longrightarrow> unfinished_at t2 (row_id k) \<noteq> None)"
    and b: "b = length (filter (\<lambda>j. unfinished_at t2 (row_id j) \<noteq> None) js)" by blast
  have "row_id j \<notin> row_id ` set js" using dist(2) by (auto simp: row_id_eq_iff)
  then have same: "unfinished_at t2 (row_id j) = unfinished_at t1 (row_id j)" by (rule t2(2))
  have here: "a = 0 \<and> unfinished_at t2 (row_id j) = None \<or> a = 1 \<and> requeued w' t2 j"
    using own same recover_each_keeps_other [OF 2 _ dist(2) same] by auto
  then have "n = length (filter (\<lambda>j. unfinished_at t2 (row_id j) \<noteq> None) (j # js))"
    using n b by (auto simp: requeued_def)
  moreover have "\<forall>i. i \<notin> row_id ` set (j # js) \<longrightarrow> unfinished_at t2 i = unfinished_at t i"
    using t1(2) t2(2) by simp
  moreover have "\<forall>k \<in> set (j # js). unfinished_at t2 (row_id k) = None \<or> requeued w' t2 k"
    using here t2(3) by auto
  moreover have "unfinished_at t2 (row_id j) \<noteq> None \<longleftrightarrow> a = 1" using here by (auto simp: requeued_def)
  then have "\<forall>k \<in> set (j # js). (unfinished_at t2 (row_id k) \<noteq> None \<longrightarrow> retriable (store_of eg w) k)
      \<and> (db_up eg \<and> retriable (store_of eg w) k \<longrightarrow> unfinished_at t2 (row_id k) \<noteq> None)"
    using which recover_job_which [OF 1] by simp
  ultimately show ?case using t2(1) by blast
qed

lemma unfinished_source:
  assumes "table_ok t'" "\<And>i. i \<notin> row_id ` set js \<Longrightarrow> unfinished_at t' i = unfinished_at t i"
    and "\<And>j. j \<in> set js \<Longrightarrow> unfinished_at t' (row_id j) = None \<or> requeued w' t' j"
    and "table_ok t" "js = list_unfinished t" "k \<in> set (list_unfinished t')"
  shows "\<exists>j \<in> set js. k = resumed_job j \<and> requeued w' t' j"
proof -
  have k: "unfinished_at t' (row_id k) = Some k" using assms(1,6) list_unfinished_at by blast
  have "row_id k \<in> row_id ` set js"
  proof (rule ccontr)
    assume n: "row_id k \<notin> row_id ` set js"
    then have "unfinished_at t (row_id k) = Some k" using assms(2) k by simp
    then show False using n assms(4,5) list_unfinished_at by blast
  qed
  then obtain j where j: "j \<in> set js" "row_id j = row_id k" by auto
  then have "requeued w' t' j" using assms(3) [OF j(1)] k by simp
  then show ?thesis using j k by (auto simp: requeued_def)
qed

lemma length_unfinished:
  assumes "table_ok t'" "table_ok t" "js = list_unfinished t"
    and "\<And>i. i \<notin> row_id ` set js \<Longrightarrow> unfinished_at t' i = unfinished_at t i"
    and "\<And>j. j \<in> set js \<Longrightarrow> unfinished_at t' (row_id j) = None \<or> requeued w' t' j"
  shows "length (list_unfinished t') = length (filter (\<lambda>j. unfinished_at t' (row_id j) \<noteq> None) js)"
proof -
  let ?live = "filter (\<lambda>j. unfinished_at t' (row_id j) \<noteq> None) js"
  have "jb_id ` set (list_unfinished t') = jb_id ` set ?live"
  proof (intro equalityI subsetI)
    fix i assume "i \<in> jb_id ` set (list_unfinished t')"
    then obtain k where k: "k \<in> set (list_unfinished t')" "i = jb_id k" by auto
    from unfinished_source [OF assms(1,4,5,2,3) k(1)] obtain j where
      j: "j \<in> set js" "k = resumed_job j" "requeued w' t' j" by auto
    then show "i \<in> jb_id ` set ?live" using k(2) by (force simp: requeued_def resumed_job_def)
  next
    fix i assume "i \<in> jb_id ` set ?live"
    then obtain j where j: "j \<in> set js" "unfinished_at t' (row_id j) \<noteq> None" "i = jb_id j" by auto
    then obtain k where "unfinished_at t' (row_id j) = Some k" by auto
    moreover have "row_id k = row_id j" using unfinished_at_id [OF calculation] by simp
    ultimately have "k \<in> set (list_unfinished t')" using list_unfinished_at [OF assms(1), of k] by simp
    moreover have "jb_id k = i" using \<open>row_id k = row_id j\<close> j(3) by (simp add: row_id_eq_iff)
    ultimately show "i \<in> jb_id ` set (list_unfinished t')" by blast
  qed
  moreover have "distinct (map jb_id (list_unfinished t'))" by (rule distinct_list_unfinished [OF assms(1)])
  moreover have "distinct (map jb_id ?live)"
    using distinct_list_unfinished [OF assms(2)] assms(3) distinct_map_filter by blast
  ultimately show ?thesis by (metis distinct_card length_map set_map)
qed

lemma recover_jobs_settled:
  assumes "writes_ok eg" "job_table w t" "recover_jobs eg w = (n, w')"
  shows "\<exists>t'. job_table w' t' \<and> n = length (list_unfinished t')
    \<and> (\<forall>k \<in> set (list_unfinished t'). \<exists>j \<in> set (list_unfinished t). k = resumed_job j \<and> requeued w' t' j
        \<and> retriable (store_of eg w) j)
    \<and> (db_up eg \<longrightarrow> (\<forall>j \<in> set (list_unfinished t). retriable (store_of eg w) j \<longrightarrow> resumed_job j \<in> set (list_unfinished t')))"
proof -
  have ok: "table_ok t" "rg_store (jobs_of w) = Some t" using assms(2) by (simp_all add: job_table_def)
  have rec: "recover_each eg (list_unfinished t) w = (n, w')"
    using assms(1,3) ok by (simp add: recover_jobs_def writes_ok_def)
  from recover_each_table [OF assms(1) distinct_list_unfinished [OF ok(1)] assms(2) rec]
  obtain t' where t': "job_table w' t'"
    and other: "\<And>i. i \<notin> row_id ` set (list_unfinished t) \<Longrightarrow> unfinished_at t' i = unfinished_at t i"
    and each: "\<And>j. j \<in> set (list_unfinished t) \<Longrightarrow> unfinished_at t' (row_id j) = None \<or> requeued w' t' j"
    and which: "\<And>j. j \<in> set (list_unfinished t) \<Longrightarrow> (unfinished_at t' (row_id j) \<noteq> None \<longrightarrow> retriable (store_of eg w) j)
      \<and> (db_up eg \<and> retriable (store_of eg w) j \<longrightarrow> unfinished_at t' (row_id j) \<noteq> None)"
    and n: "n = length (filter (\<lambda>j. unfinished_at t' (row_id j) \<noteq> None) (list_unfinished t))" by blast
  have ok': "table_ok t'" using t' by (simp add: job_table_def)
  have "\<exists>j \<in> set (list_unfinished t). k = resumed_job j \<and> requeued w' t' j \<and> retriable (store_of eg w) j"
    if "k \<in> set (list_unfinished t')" for k
    using unfinished_source [OF ok' other each ok(1) refl that] which by (auto simp: requeued_def)
  moreover have "resumed_job j \<in> set (list_unfinished t')"
    if "db_up eg" "j \<in> set (list_unfinished t)" "retriable (store_of eg w) j" for j
  proof -
    have "requeued w' t' j" using each [OF that(2)] which [OF that(2)] that by blast
    then show ?thesis using list_unfinished_at [OF ok', of "resumed_job j"] by (simp add: requeued_def resumed_job_def)
  qed
  moreover have "n = length (list_unfinished t')" using n length_unfinished [OF ok' ok(1) refl other each] by simp
  ultimately show ?thesis using t' by (intro exI [of _ t'] conjI ballI impI)
qed

section \<open>A process that keeps dying\<close>

definition budget_left :: "nat \<Rightarrow> 's engine_world \<Rightarrow> bool" where
  "budget_left k w \<longleftrightarrow> (\<exists>t. job_table w t \<and> (\<forall>j \<in> set (list_unfinished t). k \<le> unat (jb_attempts j)))"

lemma resumed_attempts:
  assumes "jb_attempts j < MAX_JOB_ATTEMPTS"
  shows "unat (jb_attempts (resumed_job j)) = Suc (unat (jb_attempts j))" "unat (jb_attempts j) < 3"
proof -
  have "unat (jb_attempts j) < unat (3 :: 32 word)" using assms unfolding MAX_JOB_ATTEMPTS_def by (rule unat_mono)
  then show l: "unat (jb_attempts j) < 3" by simp
  have "unat (jb_attempts j + 1) = unat (jb_attempts j) + 1"
    using l by (subst unat_add_lem [THEN iffD1]) simp_all
  then show "unat (jb_attempts (resumed_job j)) = Suc (unat (jb_attempts j))" by (simp add: resumed_job_def)
qed

lemma startup_settled:
  assumes "writes_ok eg" "job_table w t"
  shows "\<exists>t'. job_table (startup eg w) t'
    \<and> (\<forall>k \<in> set (list_unfinished t'). \<exists>j \<in> set (list_unfinished t). k = resumed_job j \<and> jb_attempts j < MAX_JOB_ATTEMPTS)"
proof -
  obtain n w1 where 1: "recover_interrupted eg (engine_new w) = (n, w1)" by (metis surj_pair)
  have "jobs_of w1 = jobs_of (engine_new w)" using keeps_jobsD [OF recover_interrupted_jobs 1] by simp
  then have w1: "job_table w1 t" using assms(2) by (simp add: job_table_def engine_new_def)
  obtain m w2 where 2: "recover_jobs eg w1 = (m, w2)" by (metis surj_pair)
  have "startup eg w = w2" by (simp add: startup_def 1 2)
  moreover obtain t' where "job_table w2 t'" "\<forall>k \<in> set (list_unfinished t'). \<exists>j \<in> set (list_unfinished t).
      k = resumed_job j \<and> requeued w2 t' j \<and> retriable (store_of eg w1) j"
    using recover_jobs_settled [OF assms(1) w1 2] by blast
  ultimately show ?thesis by (intro exI [of _ t']) (auto simp: requeued_def)
qed

lemma startup_budget:
  assumes "writes_ok eg" "budget_left k w"
  shows "budget_left (Suc k) (startup eg w)"
proof -
  obtain t where t: "job_table w t" "\<And>j. j \<in> set (list_unfinished t) \<Longrightarrow> k \<le> unat (jb_attempts j)"
    using assms(2) unfolding budget_left_def by blast
  from startup_settled [OF assms(1) t(1)] obtain t' where t': "job_table (startup eg w) t'"
    "\<And>x. x \<in> set (list_unfinished t') \<Longrightarrow> \<exists>j \<in> set (list_unfinished t). x = resumed_job j \<and> jb_attempts j < MAX_JOB_ATTEMPTS"
    by blast
  have "Suc k \<le> unat (jb_attempts x)" if "x \<in> set (list_unfinished t')" for x
    using t'(2) [OF that] t(2) resumed_attempts by fastforce
  then show ?thesis unfolding budget_left_def using t'(1) by blast
qed

lemma startups_budget: "writes_ok eg \<Longrightarrow> budget_left 0 w \<Longrightarrow> budget_left k ((startup eg ^^ k) w)"
  by (induction k) (simp_all add: startup_budget)

text \<open>A process died while it ran a job on a meeting whose transcript is stored.\<close>

definition demo_dead_job :: job where
  "demo_dead_job = \<lparr> jb_id = demo_job, jb_kind = Process, jb_status = Running, jb_stage = Extraction,
     jb_meeting_id = Some (MeetingId (lit ''m1'')), jb_error = None, jb_attempts = 0 \<rparr>"

definition demo_dead_table :: "(ustr, job_row) table" where
  "demo_dead_table = job_store_upsert 5 demo_dead_job []"

definition demo_dead :: "unit engine_world" where
  "demo_dead = demo_start\<lparr> ew_main := \<lparr>
     wd_db = artifacts_put (lit ''m1'', ARTIFACT_TRANSCRIPT) [] (artifacts_put (lit ''m1'', ARTIFACT_PROCESSING_STATUS) [] db_empty),
     wd_jobs = registry_with_store demo_dead_table, wd_events = [], wd_tick = 0, wd_ext = () \<rparr> \<rparr>"

lemma demo_dead_hyps:
  "\<forall>n. \<not> en_job_write_fails (or_env (eg_orch demo_engine)) n" "\<forall>n. \<not> eg_list_fails demo_engine n"
  "rg_store (wd_jobs (ew_main demo_dead)) = Some demo_dead_table" "table_ok demo_dead_table"
  by (simp_all add: demo_engine_def demo_orch_def demo_env_def demo_dead_def registry_with_store_def demo_dead_table_def
      table_ok_job_upsert)

lemma demo_dead_unfinished: "list_unfinished demo_dead_table = [demo_dead_job]"
proof -
  have t: "demo_dead_table = [(row_id demo_dead_job, job_to_row 5 demo_dead_job)]"
    by (simp add: demo_dead_table_def job_store_upsert_def)
  have "jr_state (job_to_row 5 demo_dead_job) = lit ''running''"
    by (simp add: job_to_row_def demo_dead_job_def)
  then show ?thesis unfolding t by (simp add: list_unfinished_def job_row_roundtrip)
qed

lemma demo_dead_recovers: "fst (recover_jobs demo_engine demo_dead) = 1"
proof -
  have "rg_store (wd_jobs (ew_main demo_dead)) = Some demo_dead_table" "\<not> eg_list_fails demo_engine n" for n
    using demo_dead_hyps by auto
  then have "recover_jobs demo_engine demo_dead = recover_each demo_engine [demo_dead_job] demo_dead"
    by (simp add: recover_jobs_def demo_dead_unfinished)
  moreover have "fst (resumable demo_engine demo_dead_job demo_dead)"
    by (simp add: resumable_def demo_dead_job_def on_store_def on_main_def get_transcript_def get_artifact_def with_conn_def
        decodeE_def bindE_def demo_engine_def demo_orch_def demo_env_def demo_dead_def artifacts.get_put single_codec_def
        demo_pipeline_json_def split_beta)
  ultimately show ?thesis
    by (simp add: recover_job_def demo_dead_job_def MAX_JOB_ATTEMPTS_def split_beta)
qed





section \<open>Interrupted captures\<close>

text \<open>A status the recovery writes.\<close>

definition marked :: "processing_status \<Rightarrow> bool" where
  "marked s \<longleftrightarrow> (\<exists>now. s = status_deferred now INTERRUPTED)"

text \<open>The statuses of some meetings may become marked; nothing else of the store changes.\<close>

definition only_marks :: "meeting_id set \<Rightarrow> store_view \<Rightarrow> store_view \<Rightarrow> bool" where
  "only_marks ms v v' \<longleftrightarrow> (\<forall>i. sv_status v' i = sv_status v i
       \<or> i \<in> ms \<and> (\<exists>s. sv_status v' i = Inr (Some s) \<and> marked s))
     \<and> v' = v\<lparr> sv_status := sv_status v' \<rparr>"

lemma only_marks_refl: "only_marks ms v v"
  by (simp add: only_marks_def)

lemma only_marks_trans:
  assumes "only_marks ms v v'" "only_marks ms v' v''"
  shows "only_marks ms v v''"
proof -
  have "v'' = v\<lparr> sv_status := sv_status v'' \<rparr>"
    using assms unfolding only_marks_def by (cases v; cases v'; cases v'') auto
  moreover have "sv_status v'' i = sv_status v i \<or> i \<in> ms \<and> (\<exists>s. sv_status v'' i = Inr (Some s) \<and> marked s)" for i
    using assms unfolding only_marks_def by metis
  ultimately show ?thesis unfolding only_marks_def by blast
qed

lemma recover_statuses_marks:
  assumes "codec_ok (sj_status (or_json (eg_orch eg)))" "recover_statuses eg rows w = (n, w')"
    and "\<forall>(i, s) \<in> set rows. ps_state s = Processing \<longrightarrow> i \<in> ms"
  shows "only_marks ms (store_of eg w) (store_of eg w')"
  using assms(2,3)
proof (induction rows arbitrary: w n)
  case Nil
  then show ?case by (simp add: only_marks_refl)
next
  case (Cons row rows)
  obtain i s where row: "row = (i, s)" by (metis surj_pair)
  have ms: "\<forall>(i, s) \<in> set rows. ps_state s = Processing \<longrightarrow> i \<in> ms" using Cons.prems(2) by simp
  show ?case
  proof (cases "ps_state s = Processing")
    case False
    then show ?thesis using Cons.IH [OF _ ms] Cons.prems(1) row by simp
  next
    case True
    let ?save = "\<lambda>fault. save_processing_status (or_json (eg_orch eg)) fault i
      (status_deferred (en_now (or_env (eg_orch eg)) (wd_tick (ew_main w))) INTERRUPTED)"
    obtain r w1 where 1: "on_store eg ?save w = (r, w1)" by (metis surj_pair)
    obtain m where 2: "recover_statuses eg rows w1 = (m, w')"
      using Cons.prems(1) True 1 by (auto simp: row split: prod.splits)
    let ?fault = "en_db_fault (or_env (eg_orch eg)) (wd_tick (ew_main w))"
    have s: "?save ?fault (wd_db (ew_main w)) = (r, wd_db (ew_main w1))"
      using 1 by (auto simp: on_store_def on_main_def split: prod.splits)
    have a: "atomic (or_json (eg_orch eg)) (?save ?fault)
        (\<lambda>v. v\<lparr> sv_status := (sv_status v)(i := reread (sj_status (or_json (eg_orch eg))) (status_deferred (en_now (or_env (eg_orch eg)) (wd_tick (ew_main w))) INTERRUPTED)) \<rparr>)"
      by (rule store_writes_atomic(5))
    have "only_marks ms (store_of eg w) (store_of eg w1)"
    proof (cases r)
      case (Inl e)
      then show ?thesis using atomic_err [OF a, of "wd_db (ew_main w)"] s by (simp add: only_marks_refl)
    next
      case (Inr u)
      then obtain c where "enc (sj_status (or_json (eg_orch eg)))
          (status_deferred (en_now (or_env (eg_orch eg)) (wd_tick (ew_main w))) INTERRUPTED) = Inr c"
        using s by (cases "enc (sj_status (or_json (eg_orch eg)))
          (status_deferred (en_now (or_env (eg_orch eg)) (wd_tick (ew_main w))) INTERRUPTED)") (auto simp: store_op_defs)
      note reread_intact [OF codec_ok_intact [OF assms(1) this]]
      then show ?thesis using atomic_ok [OF a s [unfolded Inr]] Cons.prems(2) row True
        by (auto simp: only_marks_def marked_def)
    qed
    then show ?thesis using only_marks_trans Cons.IH [OF 2 ms] by blast
  qed
qed

text \<open>
  The bound rests on the table: \<open>registry_reinsert\<close> swallows a failing write, so when the job table cannot be
  written the attempt is not counted, and a job that can be resumed is resumed at every start.
\<close>

lemma recover_interrupted_transcripts:
  assumes "codec_ok (sj_status (or_json (eg_orch eg)))" "recover_interrupted eg w = (n, w')"
  shows "sv_transcript (store_of eg w') = sv_transcript (store_of eg w)"
proof -
  obtain r w1 where 1: "on_store eg (list_processing_statuses (or_json (eg_orch eg))) w = (r, w1)" by (metis surj_pair)
  then have db: "wd_db (ew_main w1) = wd_db (ew_main w)"
    by (auto simp: on_store_def on_main_def list_processing_statuses_def with_conn_def bindE_def split: prod.splits option.splits sum.splits)
  show ?thesis
  proof (cases r)
    case (Inl e)
    then show ?thesis using assms(2) 1 db by (simp add: recover_interrupted_def)
  next
    case (Inr rows)
    then have "recover_statuses eg rows w1 = (n, w')" using assms(2) 1 by (simp add: recover_interrupted_def)
    from recover_statuses_marks [OF assms(1) this, of UNIV]
    have "store_of eg w' = (store_of eg w1)\<lparr> sv_status := sv_status (store_of eg w') \<rparr>" by (simp add: only_marks_def)
    then have "sv_transcript (store_of eg w') = sv_transcript (store_of eg w1)" by (metis store_view.select_convs(2) store_view.surjective store_view.update_convs(5))
    then show ?thesis using db by simp
  qed
qed

lemma on_jobs_unwritten:
  assumes "\<forall>n. en_job_write_fails (or_env (eg_orch eg)) n" "on_jobs eg f w = (x, w')"
    and "\<And>jw r. jw_fails jw \<Longrightarrow> rg_store (snd (f jw r)) = rg_store r"
  shows "rg_store (jobs_of w') = rg_store (jobs_of w)"
  using assms(1,2) assms(3) by (auto simp: on_jobs_def on_main_def Let_def split: prod.splits) (metis job_write.select_convs(2) snd_conv)

lemma persist_unwritten: "jw_fails jw \<Longrightarrow> rg_store (persist jw j r) = rg_store r"
  by (simp add: persist_def split: option.split)

lemma recover_job_unwritten:
  assumes "\<forall>n. en_job_write_fails (or_env (eg_orch eg)) n" "recover_job eg j w = (n, w')"
  shows "rg_store (jobs_of w') = rg_store (jobs_of w)"
proof -
  obtain b w1 where r: "resumable eg j w = (b, w1)" by (metis surj_pair)
  have w1: "jobs_of w1 = jobs_of w" using keeps_jobsD [OF resumable_jobs r] by simp
  have close: "rg_store (jobs_of (close_job eg j reason u)) = rg_store (jobs_of u)" for reason u
    unfolding close_job_def store_job_def
    by (rule on_jobs_unwritten [OF assms(1) prod.collapse [symmetric]]) (simp add: persist_unwritten)
  obtain x w2 where o: "on_jobs eg (\<lambda>jw r. ((), registry_reinsert jw (resumed_job j) r)) w1 = (x, w2)" by (metis surj_pair)
  have w2: "rg_store (jobs_of w2) = rg_store (jobs_of w1)"
    by (rule on_jobs_unwritten [OF assms(1) o]) (simp add: registry_reinsert_def Let_def persist_unwritten)
  show ?thesis using assms(2) r w1 o w2
    by (auto simp: recover_job_def close spawn_def split: if_splits option.splits)
qed

lemma recover_each_unwritten:
  assumes "\<forall>n. en_job_write_fails (or_env (eg_orch eg)) n" "db_up eg"
  shows "recover_each eg js w = (n, w') \<Longrightarrow> rg_store (jobs_of w') = rg_store (jobs_of w)
    \<and> wd_db (ew_main w') = wd_db (ew_main w) \<and> set (ew_tasks w) \<subseteq> set (ew_tasks w')
    \<and> (\<forall>j \<in> set js. retriable (store_of eg w) j \<longrightarrow> (\<exists>m. TaskReprocess (jb_id j) m \<in> set (ew_tasks w')))"
proof (induction js arbitrary: w n)
  case Nil
  then show ?case by simp
next
  case (Cons j js)
  obtain a w1 where 1: "recover_job eg j w = (a, w1)" by (metis surj_pair)
  obtain b where 2: "recover_each eg js w1 = (b, w')" using Cons.prems 1 by (auto split: prod.splits)
  have tasks: "set (ew_tasks w) \<subseteq> set (ew_tasks w1)" using recover_job_effect [OF 1] by auto
  have "\<exists>m. TaskReprocess (jb_id j) m \<in> set (ew_tasks w1)" if "retriable (store_of eg w) j"
  proof -
    have "a = 1" using recover_job_which(3) [OF 1] assms(2) that by blast
    then show ?thesis using 1 by (auto simp: recover_job_def spawn_def split: if_splits prod.splits option.splits)
  qed
  then show ?case using Cons.IH [OF 2] recover_job_unwritten [OF assms(1) 1] recover_job_which(1) [OF 1] tasks by auto
qed

lemma unwritten_attempts_unbounded:
  assumes "\<forall>n. en_job_write_fails (or_env (eg_orch eg)) n" "\<forall>n. \<not> eg_list_fails eg n"
    and "\<forall>n. en_db_fault (or_env (eg_orch eg)) n = None" "codec_ok (sj_status (or_json (eg_orch eg)))"
    and "rg_store (wd_jobs (ew_main w)) = Some t" "j \<in> set (list_unfinished t)" "retriable (store_of eg w) j"
  shows "\<exists>m. TaskReprocess (jb_id j) m \<in> set (ew_tasks ((startup eg ^^ Suc k) w))"
proof -
  have one: "rg_store (jobs_of (startup eg u)) = Some t \<and> retriable (store_of eg (startup eg u)) j
      \<and> (\<exists>m. TaskReprocess (jb_id j) m \<in> set (ew_tasks (startup eg u)))"
    if u: "rg_store (jobs_of u) = Some t" "retriable (store_of eg u) j" for u
  proof -
    obtain n w1 where 1: "recover_interrupted eg (engine_new u) = (n, w1)" by (metis surj_pair)
    have j1: "rg_store (jobs_of w1) = Some t" using keeps_jobsD [OF recover_interrupted_jobs 1] u(1) by (simp add: engine_new_def)
    have s1: "retriable (store_of eg w1) j"
      using recover_interrupted_transcripts [OF assms(4) 1] u(2) by (simp add: retriable_def engine_new_def)
    obtain b w2 where 2: "recover_each eg (list_unfinished t) w1 = (b, w2)" by (metis surj_pair)
    have "startup eg u = w2" using 1 2 j1 assms(2) by (simp add: startup_def recover_jobs_def)
    moreover have "db_up eg" using assms(3) by (simp add: db_up_def)
    ultimately show ?thesis using recover_each_unwritten [OF assms(1) _ 2] j1 s1 assms(6) by auto
  qed
  have "rg_store (jobs_of ((startup eg ^^ k) w)) = Some t \<and> retriable (store_of eg ((startup eg ^^ k) w)) j"
    using assms(5,7) one by (induction k) simp_all
  then show ?thesis using one [of "(startup eg ^^ k) w"] by simp
qed

text \<open>Every write succeeds: the backend is up and the status can be encoded.\<close>

definition marks_ok :: "'s engine \<Rightarrow> bool" where
  "marks_ok eg \<longleftrightarrow> (\<forall>n. en_db_fault (or_env (eg_orch eg)) n = None)
     \<and> (\<forall>n. is_ok (enc (sj_status (or_json (eg_orch eg)))
          (status_deferred (en_now (or_env (eg_orch eg)) n) INTERRUPTED)))"

lemma save_mark:
  fixes k :: nat and eg :: "'s engine"
  defines "now \<equiv> en_now (or_env (eg_orch eg)) k"
  assumes "marks_ok eg" "codec_ok (sj_status (or_json (eg_orch eg)))"
    and "on_store eg (\<lambda>fault. save_processing_status (or_json (eg_orch eg)) fault i (status_deferred now INTERRUPTED)) w = (r, w')"
  shows "is_ok r" and "sv_status (store_of eg w') i = Inr (Some (status_deferred now INTERRUPTED))"
proof -
  let ?save = "\<lambda>fault. save_processing_status (or_json (eg_orch eg)) fault i (status_deferred now INTERRUPTED)"
  obtain c where c: "enc (sj_status (or_json (eg_orch eg))) (status_deferred now INTERRUPTED) = Inr c"
    using assms(2) unfolding marks_ok_def is_ok_iff now_def by blast
  have s: "?save None (wd_db (ew_main w)) = (r, wd_db (ew_main w'))"
    using assms(2,4) by (auto simp: on_store_def on_main_def marks_ok_def split: prod.splits)
  then have "r = Inr ()" by (simp add: store_op_defs c)
  then show "is_ok r" by simp
  have "atomic (or_json (eg_orch eg)) (?save None)
      (\<lambda>v. v\<lparr> sv_status := (sv_status v)(i := reread (sj_status (or_json (eg_orch eg))) (status_deferred now INTERRUPTED)) \<rparr>)"
    by (rule store_writes_atomic(5))
  from atomic_ok [OF this s [unfolded \<open>r = Inr ()\<close>]] reread_intact [OF codec_ok_intact [OF assms(3) c]]
  show "sv_status (store_of eg w') i = Inr (Some (status_deferred now INTERRUPTED))" by simp
qed

lemma recover_statuses_all:
  assumes "marks_ok eg" "codec_ok (sj_status (or_json (eg_orch eg)))" "recover_statuses eg rows w = (n, w')"
  shows "n = length (filter (\<lambda>(i, s). ps_state s = Processing) rows)
    \<and> (\<forall>(i, s) \<in> set rows. ps_state s = Processing \<longrightarrow> (\<exists>s'. sv_status (store_of eg w') i = Inr (Some s') \<and> marked s'))"
  using assms(3)
proof (induction rows arbitrary: w n)
  case (Cons row rows)
  obtain i s where row: "row = (i, s)" by (metis surj_pair)
  show ?case
  proof (cases "ps_state s = Processing")
    case False
    then show ?thesis using Cons.IH [of w n] Cons.prems row by simp
  next
    case True
    let ?now = "en_now (or_env (eg_orch eg)) (wd_tick (ew_main w))"
    obtain r w1 where 1: "on_store eg (\<lambda>fault. save_processing_status (or_json (eg_orch eg)) fault i
      (status_deferred ?now INTERRUPTED)) w = (r, w1)" by (metis surj_pair)
    obtain m where 2: "recover_statuses eg rows w1 = (m, w')" and n: "n = (if is_ok r then 1 else 0) + m"
      using Cons.prems True 1 by (auto simp: row split: prod.splits)
    have "only_marks UNIV (store_of eg w1) (store_of eg w')"
      by (rule recover_statuses_marks [OF assms(2) 2]) simp
    then have "\<exists>s'. sv_status (store_of eg w') i = Inr (Some s') \<and> marked s'"
      using save_mark(2) [OF assms(1,2) 1] unfolding only_marks_def marked_def by metis
    then show ?thesis using Cons.IH [OF 2] n save_mark(1) [OF assms(1,2) 1] True row by auto
  qed
qed simp

lemma collect_results_Inr: "collect_results rs = Inr xs \<Longrightarrow> rs = map Inr xs"
  by (induction rs arbitrary: xs rule: collect_results.induct) (auto, (metis list.simps(9) map_result.elims old.sum.inject(2) sum.distinct(1)))

lemma listed_statuses:
  assumes "list_processing_statuses js fault d = (Inr rows, d')" "table_ok (sd_artifacts d)"
  shows "d' = d" and "(i, s) \<in> set rows \<longleftrightarrow> sv_status (view_store js d) i = Inr (Some s)"
proof -
  let ?sel = "filter (\<lambda>((i, kind), c). kind = ARTIFACT_PROCESSING_STATUS) (sd_artifacts d)"
  let ?row = "\<lambda>((i, kind), c). map_result (Pair (MeetingId i)) (dec (sj_status js) c)"
  have "d' = d \<and> collect_results (map ?row ?sel) = Inr rows"
    using assms(1) unfolding list_processing_statuses_def with_conn_def bindE_def by (auto split: option.splits)
  then have rows: "map ?row ?sel = map Inr rows" and d: "d' = d" using collect_results_Inr by blast+
  have mem: "x \<in> set rows \<longleftrightarrow> (\<exists>k c. ((k, ARTIFACT_PROCESSING_STATUS), c) \<in> set (sd_artifacts d)
      \<and> map_result (Pair (MeetingId k)) (dec (sj_status js) c) = Inr x)" for x
  proof -
    have "x \<in> set rows \<longleftrightarrow> Inr x \<in> set (map ?row ?sel)" unfolding rows by auto
    also have "\<dots> \<longleftrightarrow> (\<exists>k c. ((k, ARTIFACT_PROCESSING_STATUS), c) \<in> set (sd_artifacts d)
      \<and> map_result (Pair (MeetingId k)) (dec (sj_status js) c) = Inr x)" by force
    finally show ?thesis .
  qed
  have dec: "map_result (Pair (MeetingId k)) r = Inr (i, s) \<longleftrightarrow> MeetingId k = i \<and> r = Inr s" for k r
    by (cases r) auto
  have decoded: "map_result Some r = Inr (Some s) \<longleftrightarrow> r = Inr s" for r :: "ustr + processing_status"
    by (cases r) auto
  have "(i, s) \<in> set rows \<longleftrightarrow> (\<exists>c. ((meeting_id_str i, ARTIFACT_PROCESSING_STATUS), c) \<in> set (sd_artifacts d)
      \<and> dec (sj_status js) c = Inr s)"
    unfolding mem dec by (cases i) auto
  also have "\<dots> \<longleftrightarrow> (\<exists>c. artifacts_get (meeting_id_str i, ARTIFACT_PROCESSING_STATUS) d = Some c \<and> dec (sj_status js) c = Inr s)"
    using assms(2) unfolding artifacts_get_def table_ok_def keys_def by simp
  also have "\<dots> \<longleftrightarrow> sv_status (view_store js d) i = Inr (Some s)"
    by (simp add: view_store_eq read_row_def decoded split: option.split)
  finally show "(i, s) \<in> set rows \<longleftrightarrow> sv_status (view_store js d) i = Inr (Some s)" .
  show "d' = d" by (rule d)
qed

text \<open>C8. Startup recovery of the captures. Whatever fails, it touches only statuses, and only those of captures
  that a dead process left in processing, which become retryable; when nothing fails, no capture is left
  in processing, and a second recovery finds nothing to do.\<close>

theorem recover_interrupted_marks:
  assumes "codec_ok (sj_status (or_json (eg_orch eg)))" "table_ok (sd_artifacts (wd_db (ew_main w)))"
    and "recover_interrupted eg w = (n, w')"
  shows "(\<forall>i. sv_status (store_of eg w') i = sv_status (store_of eg w) i
        \<or> (\<exists>s s'. sv_status (store_of eg w) i = Inr (Some s) \<and> ps_state s = Processing
            \<and> sv_status (store_of eg w') i = Inr (Some s') \<and> is_retryable s'))
    \<and> store_of eg w' = (store_of eg w)\<lparr> sv_status := sv_status (store_of eg w') \<rparr>
    \<and> (marks_ok eg \<and> is_ok (fst (list_processing_statuses (or_json (eg_orch eg)) None (wd_db (ew_main w))))
        \<longrightarrow> (\<forall>i s. sv_status (store_of eg w') i = Inr (Some s) \<longrightarrow> ps_state s \<noteq> Processing)
          \<and> (n = 0 \<longleftrightarrow> (\<forall>i s. sv_status (store_of eg w) i = Inr (Some s) \<longrightarrow> ps_state s \<noteq> Processing)))"
proof -
  let ?js = "or_json (eg_orch eg)" and ?d = "wd_db (ew_main w)"
  let ?ms = "{i. \<exists>s. sv_status (store_of eg w) i = Inr (Some s) \<and> ps_state s = Processing}"
  let ?fault = "en_db_fault (or_env (eg_orch eg)) (wd_tick (ew_main w))"
  obtain r w1 where 1: "on_store eg (list_processing_statuses ?js) w = (r, w1)" by (metis surj_pair)
  have list: "list_processing_statuses ?js ?fault ?d = (r, wd_db (ew_main w1))"
    using 1 by (auto simp: on_store_def on_main_def split: prod.splits)
  have marked: "is_retryable s \<and> ps_state s \<noteq> Processing" if "marked s" for s
    using that by (auto simp: marked_def status_defs is_retryable_def)
  have unchanged: "wd_db (ew_main w1) = ?d"
    using list by (auto simp: list_processing_statuses_def with_conn_def bindE_def split: option.splits prod.splits)
  have "only_marks ?ms (store_of eg w) (store_of eg w')"
  proof (cases r)
    case (Inl e)
    then show ?thesis using assms(3) 1 unchanged by (simp add: recover_interrupted_def only_marks_refl)
  next
    case (Inr rows)
    have rec: "recover_statuses eg rows w1 = (n, w')" using assms(3) 1 Inr by (simp add: recover_interrupted_def)
    have "\<forall>(i, s) \<in> set rows. ps_state s = Processing \<longrightarrow> i \<in> ?ms"
      using listed_statuses(2) [OF list [unfolded Inr] assms(2)] by auto
    from recover_statuses_marks [OF assms(1) rec this] show ?thesis using unchanged by simp
  qed
  then have safe: "(\<forall>i. sv_status (store_of eg w') i = sv_status (store_of eg w) i
        \<or> (\<exists>s s'. sv_status (store_of eg w) i = Inr (Some s) \<and> ps_state s = Processing
            \<and> sv_status (store_of eg w') i = Inr (Some s') \<and> is_retryable s'))
    \<and> store_of eg w' = (store_of eg w)\<lparr> sv_status := sv_status (store_of eg w') \<rparr>"
    and marks: "\<And>i. sv_status (store_of eg w') i = sv_status (store_of eg w) i
        \<or> (\<exists>s. sv_status (store_of eg w') i = Inr (Some s) \<and> marked s)"
    using marked unfolding only_marks_def by blast+
  have "(\<forall>i s. sv_status (store_of eg w') i = Inr (Some s) \<longrightarrow> ps_state s \<noteq> Processing)
      \<and> (n = 0 \<longleftrightarrow> (\<forall>i s. sv_status (store_of eg w) i = Inr (Some s) \<longrightarrow> ps_state s \<noteq> Processing))"
    if ok: "marks_ok eg" "is_ok (fst (list_processing_statuses ?js None ?d))"
  proof -
    have "?fault = None" using ok(1) by (simp add: marks_ok_def)
    then obtain rows where r: "r = Inr rows" using ok(2) list unfolding is_ok_iff by (metis fst_conv)
    have rec: "recover_statuses eg rows w1 = (n, w')" using assms(3) 1 r by (simp add: recover_interrupted_def)
    have rows: "\<And>i s. (i, s) \<in> set rows \<longleftrightarrow> sv_status (store_of eg w) i = Inr (Some s)"
      using listed_statuses(2) [OF list [unfolded r] assms(2)] .
    have all: "n = length (filter (\<lambda>(i, s). ps_state s = Processing) rows)"
      "\<And>i s. (i, s) \<in> set rows \<Longrightarrow> ps_state s = Processing \<Longrightarrow> \<exists>s'. sv_status (store_of eg w') i = Inr (Some s') \<and> marked s'"
      using recover_statuses_all [OF ok(1) assms(1) rec] by auto
    have "ps_state s \<noteq> Processing" if s: "sv_status (store_of eg w') i = Inr (Some s)" for i s
      using marks [of i] all(2) [of i s] rows [of i s] s marked by fastforce
    moreover have "n = 0 \<longleftrightarrow> (\<forall>i s. (i, s) \<in> set rows \<longrightarrow> ps_state s \<noteq> Processing)"
      unfolding all(1) length_0_conv filter_empty_conv by auto
    ultimately show ?thesis using rows by simp
  qed
  then show ?thesis using safe by blast
qed

text \<open>A capture left in processing.\<close>

definition demo_stuck :: "unit engine_world" where
  "demo_stuck = demo_start\<lparr> ew_main := (ew_main demo_start)\<lparr>
     wd_db := artifacts_put (lit ''m1'', ARTIFACT_PROCESSING_STATUS) [] db_empty \<rparr> \<rparr>"

definition demo_recovery_engine :: "unit engine" where
  "demo_recovery_engine = demo_engine\<lparr> eg_orch := (demo_orch \<lparr> tr_segments = [] \<rparr>)\<lparr> or_json := (demo_pipeline_json \<lparr> tr_segments = [] \<rparr>)
     \<lparr> sj_status := \<lparr> enc = (\<lambda>s. if s = status_processing 0 then Inr [] else if s = status_deferred 0 INTERRUPTED then Inr [1] else Inl []),
        dec = (\<lambda>c. Inr (if c = [] then status_processing 0 else status_deferred 0 INTERRUPTED)) \<rparr> \<rparr> \<rparr> \<rparr>"

theorem recover_interrupted_marks_witness:
  "\<exists>s. sv_status (store_of demo_recovery_engine (snd (recover_interrupted demo_recovery_engine demo_stuck))) (MeetingId (lit ''m1''))
     = Inr (Some s) \<and> is_retryable s"
proof -
  let ?after = "store_of demo_recovery_engine (snd (recover_interrupted demo_recovery_engine demo_stuck))"
  have "codec_ok (sj_status (or_json (eg_orch demo_recovery_engine)))"
    by (auto simp: codec_ok_def demo_recovery_engine_def demo_pipeline_json_def single_codec_def
        split: if_splits)
  moreover have "table_ok (sd_artifacts (wd_db (ew_main demo_stuck)))"
    by (simp add: demo_stuck_def artifacts_put_def db_empty_def table_ok_def keys_def)
  moreover have "marks_ok demo_recovery_engine"
    by (simp add: marks_ok_def demo_recovery_engine_def demo_orch_def demo_env_def)
  moreover have "is_ok (fst (list_processing_statuses (or_json (eg_orch demo_recovery_engine)) None (wd_db (ew_main demo_stuck))))"
    by (simp add: list_processing_statuses_def with_conn_def bindE_def demo_stuck_def artifacts_put_def db_empty_def
        demo_recovery_engine_def)
  ultimately have "sv_status ?after (MeetingId (lit ''m1'')) = sv_status (store_of demo_recovery_engine demo_stuck) (MeetingId (lit ''m1''))
      \<or> (\<exists>s. sv_status ?after (MeetingId (lit ''m1'')) = Inr (Some s) \<and> is_retryable s)"
    and "\<And>i s. sv_status ?after i = Inr (Some s) \<Longrightarrow> ps_state s \<noteq> Processing"
    using recover_interrupted_marks [of demo_recovery_engine demo_stuck, OF _ _ prod.collapse [symmetric]] by blast+
  moreover have "sv_status (store_of demo_recovery_engine demo_stuck) (MeetingId (lit ''m1'')) = Inr (Some (status_processing 0))"
    by (simp add: view_store_eq demo_stuck_def artifacts.get_put read_row_def demo_recovery_engine_def)
  moreover have "ps_state (status_processing 0) = Processing" by (simp add: status_defs)
  ultimately show ?thesis by metis
qed

end
