(* ===== verification/Engine_Drain.thy ===== *)
theory Engine_Drain
  imports Engine_Recovery
begin

text \<open>
  The durable queue drains: the job table never lists work the engine does not know of, so that once the
  pending tasks have run nothing is left for a later process to recover (\<open>engine/src/lib.rs\<close>,
  \<open>engine/src/pipeline/jobs.rs\<close>).
\<close>

section \<open>The invariant\<close>

lemma unfinished_live: "unfinished_at t i = Some j \<Longrightarrow> \<not> is_terminal (jb_status j)"
  using token_roundtrip(2) [of Queued] token_roundtrip(2) [of Running]
  by (auto simp: unfinished_at_def job_from_row_def or_default_def is_terminal_def split: option.splits if_splits)

text \<open>Every unfinished row is a job of the registry, and entries are filed under their own id.\<close>

definition tracked :: "registry \<Rightarrow> bool" where
  "tracked r \<longleftrightarrow> (\<forall>i j. registry_get i r = Some j \<longrightarrow> jb_id j = i)
     \<and> (\<exists>t. rg_store r = Some t \<and> table_ok t
          \<and> (\<forall>i j. unfinished_at t i = Some j \<longrightarrow> registry_get (JobId i) r = Some j))"

lemma tracked_write:
  assumes "tracked r" "\<not> jw_fails jw" "jb_id j = i"
  shows "tracked ((persist jw j r)\<lparr> rg_jobs := (rg_jobs r)(i \<mapsto> \<lparr> je_job = j, je_cancel = b \<rparr>) \<rparr>)"
proof -
  define r1 where "r1 = (persist jw j r)\<lparr> rg_jobs := (rg_jobs r)(i \<mapsto> \<lparr> je_job = j, je_cancel = b \<rparr>) \<rparr>"
  obtain t where t: "rg_store r = Some t" "table_ok t"
    "\<And>k x. unfinished_at t k = Some x \<Longrightarrow> registry_get (JobId k) r = Some x"
    using assms(1) unfolding tracked_def by blast
  have get: "registry_get k r1 = (if k = i then Some j else registry_get k r)" for k
    by (simp add: r1_def registry_get_def)
  have store: "rg_store r1 = Some (job_store_upsert (jw_now jw) j t)"
    using t(1) assms(2) by (simp add: r1_def persist_def)
  have "registry_get (JobId k) r1 = Some x" if u: "unfinished_at (job_store_upsert (jw_now jw) j t) k = Some x" for k x
  proof (cases "k = row_id j")
    case True
    then show ?thesis using u assms(3) by (cases i) (simp add: unfinished_at_upsert get split: if_splits)
  next
    case False
    then show ?thesis using u t(3) [of k x] assms(3) by (cases i) (auto simp: unfinished_at_upsert get)
  qed
  then have "tracked r1" using assms(1,3) store table_ok_job_upsert [OF t(2)] unfolding tracked_def get by auto
  then show ?thesis unfolding r1_def .
qed

lemma tracked_create: "tracked r \<Longrightarrow> \<not> jw_fails jw \<Longrightarrow> tracked (registry_create jw i kind r)"
  using tracked_write [of r jw "job_new i kind"] by (simp add: registry_create_def Let_def job_new_def)

lemma tracked_update:
  assumes "tracked r" "\<not> jw_fails jw" "\<And>j. jb_id (f j) = jb_id j"
  shows "tracked (registry_update jw i f r)"
proof (cases "rg_jobs r i")
  case None
  then show ?thesis using assms(1) by (simp add: registry_update_def)
next
  case (Some e)
  then have "registry_get i r = Some (je_job e)" by (simp add: registry_get_def)
  then have "jb_id (f (je_job e)) = i" using assms(1) unfolding assms(3) tracked_def by blast
  from tracked_write [OF assms(1,2) this, of "je_cancel e"] show ?thesis
    using Some by (cases e) (simp add: registry_update_def persist_update_jobs)
qed

lemma tracked_cancel: "tracked r \<Longrightarrow> tracked (snd (request_cancel i r))"
proof -
  have "rg_store (snd (request_cancel i r)) = rg_store r" by (simp add: request_cancel_def split: option.split)
  then show "tracked r \<Longrightarrow> tracked (snd (request_cancel i r))" by (simp add: tracked_def registry_get_cancel)
qed

text \<open>The pipeline keeps it, when the writes of the table succeed.\<close>

interpretation queue_kept: job_frame orch k
  "\<lambda>r s. (\<forall>n. \<not> en_job_write_fails (or_env orch) n) \<longrightarrow> tracked r \<longrightarrow> tracked s" for orch k
proof
  fix f :: "job \<Rightarrow> job" and r :: registry and n
  assume "\<And>j. jb_id (f j) = jb_id j"
  then show "(\<forall>n. \<not> en_job_write_fails (or_env orch) n) \<longrightarrow> tracked r \<longrightarrow> tracked (registry_update \<lparr> jw_now = en_now (or_env orch) n,
      jw_fails = en_job_write_fails (or_env orch) n \<rparr> k f r)"
    by (intro impI tracked_update) simp_all
qed (blast intro: tracked_cancel)+

text \<open>With every job settled, no row is unfinished.\<close>

lemma tracked_drained:
  assumes "tracked r" "\<And>i j. registry_get i r = Some j \<Longrightarrow> is_terminal (jb_status j)"
  shows "\<exists>t. rg_store r = Some t \<and> list_unfinished t = []"
proof -
  obtain t where t: "rg_store r = Some t" "table_ok t"
    "\<And>i j. unfinished_at t i = Some j \<Longrightarrow> registry_get (JobId i) r = Some j"
    using assms(1) unfolding tracked_def by blast
  have "j \<notin> set (list_unfinished t)" for j
    using list_unfinished_at [OF t(2)] t(3) assms(2) unfinished_live by metis
  then show ?thesis using t(1) by (auto intro: last_in_set)
qed

section \<open>Tasks and requests\<close>

lemma on_jobs_tracked:
  assumes "writes_ok eg" "tracked (jobs_of w)" "on_jobs eg f w = (x, w')"
    and "\<And>jw r. \<not> jw_fails jw \<Longrightarrow> tracked r \<Longrightarrow> tracked (snd (f jw r))"
  shows "tracked (jobs_of w')"
proof -
  let ?en = "or_env (eg_orch eg)" and ?m = "ew_main w"
  have "jobs_of w' = snd (f \<lparr> jw_now = en_now ?en (wd_tick ?m), jw_fails = en_job_write_fails ?en (wd_tick ?m) \<rparr> (wd_jobs ?m))"
    using assms(3) by (auto simp: on_jobs_def on_main_def Let_def split: prod.splits)
  then show ?thesis using assms(1,2,4) by (simp add: writes_ok_def)
qed

lemma create_job_tracked:
  assumes "writes_ok eg" "tracked (jobs_of w)" "create_job eg kind w = (i, w')"
  shows "tracked (jobs_of w')"
proof -
  obtain x w1 where o: "on_jobs eg (\<lambda>jw r. ((), registry_create jw (eg_job_id eg (wd_tick (ew_main w))) kind r)) w = (x, w1)"
    by (metis surj_pair)
  then have "w' = w1" using assms(3) by (simp add: create_job_def Let_def)
  then show ?thesis using on_jobs_tracked [OF assms(1,2) o] tracked_create by simp
qed

lemma update_job_tracked:
  assumes "writes_ok eg" "tracked (jobs_of w)" "\<And>j. jb_id (f j) = jb_id j"
  shows "tracked (jobs_of (update_job eg i f w))"
  unfolding update_job_def
  by (rule on_jobs_tracked [OF assms(1,2) prod.collapse [symmetric]]) (simp add: tracked_update assms(3))

lemma run_embedding_tracked:
  assumes "writes_ok eg" "tracked (jobs_of w)"
  shows "tracked (jobs_of (run_embedding eg model w))"
proof -
  obtain pending w1 where p: "on_index (pending_embedding_count (eg_sql_fault eg)) w = (pending, w1)" by (metis surj_pair)
  have w1: "tracked (jobs_of w1)" using keeps_jobsD [OF keeps_jobs_basic(3) p] assms(2) by simp
  obtain i w2 where c: "create_job eg Embedding w1 = (i, w2)" by (metis surj_pair)
  define w3 where "w3 = update_job eg i (\<lambda>j. j\<lparr> jb_status := Running \<rparr>) w2"
  have w3: "tracked (jobs_of w3)"
    unfolding w3_def by (rule update_job_tracked [OF assms(1) create_job_tracked [OF assms(1) w1 c]]) simp
  obtain r w4 where e: "on_index (embed_pending (eg_sql_fault eg) (eg_files eg (ew_sql_tick w3)) (eg_embed eg) (Some model)) w3
    = (r, w4)" by (metis surj_pair)
  have w4: "tracked (jobs_of w4)" using keeps_jobsD [OF keeps_jobs_basic(3) e] w3 by simp
  have "jb_id (embedding_outcome r j) = jb_id j" for j by (simp add: embedding_outcome_def split: sum.split)
  from update_job_tracked [OF assms(1) w4 this] show ?thesis
    using w1 e by (simp add: run_embedding_def p c Let_def w3_def)
qed

lemma run_task_tracked:
  assumes "writes_ok eg" "tracked (jobs_of w)"
  shows "tracked (jobs_of (run_task eg t w))"
  using assms queue_kept.process [where orch = "eg_orch eg"] queue_kept.reprocess [where orch = "eg_orch eg"]
  by (cases t) (simp_all add: run_embedding_tracked on_main_jobs writes_ok_def)

lemma fold_tasks_tracked:
  "writes_ok eg \<Longrightarrow> tracked (jobs_of w) \<Longrightarrow> tracked (jobs_of (fold (run_task eg) ts w))"
  by (induction ts arbitrary: w) (simp_all add: run_task_tracked)

lemma dispatch_tracked:
  assumes "writes_ok eg" "tracked (jobs_of w)" "dispatch eg rq w = (rp, w')"
  shows "tracked (jobs_of w')"
proof -
  have start: "tracked (jobs_of w')" if "start_processing eg input w = (rp, w') \<or> start_reprocessing eg m w = (rp, w')" for input m
    using that create_job_tracked [OF assms(1,2)]
    by (auto simp: start_processing_def start_reprocessing_def spawn_def send_event_def split: prod.splits)
  have read: "tracked (jobs_of w')" if "keeps_jobs f" "f w = (rp, w')" for f
    using keeps_jobsD [OF that] assms(2) by simp
  show ?thesis
  proof (cases rq)
    case (RqCancelJob i)
    then have "jobs_of w' = snd (request_cancel i (jobs_of w))"
      using assms(3) by (auto simp: cancel_job_def on_main_def get_job_def split: prod.splits bool.splits option.splits)
    then show ?thesis using tracked_cancel [OF assms(2)] by simp
  next
    case (RqProcessMeeting input)
    then show ?thesis using assms(3) by (intro start [of input]) simp
  next
    case (RqReprocessMeeting m)
    then show ?thesis using assms(3) by (intro start [of _ m]) simp
  next
    case (RqSearch query dir n)
    then show ?thesis using assms search_ask_jobs(1) [of eg query dir n w rp w'] by simp
  next
    case (RqAsk question dir)
    then show ?thesis using assms search_ask_jobs(2) [of eg question dir w rp w'] by simp
  qed (use assms(3) read_requests_keep_jobs [THEN read] in \<open>simp_all only: dispatch.simps\<close>)
qed

section \<open>Restarts\<close>

lemma recover_each_ids:
  "recover_each eg js w = (n, w') \<Longrightarrow> (\<And>i j. registry_get i (jobs_of w) = Some j \<Longrightarrow> jb_id j = i)
    \<Longrightarrow> registry_get k (jobs_of w') = Some x \<Longrightarrow> jb_id x = k"
proof (induction js arbitrary: w n)
  case (Cons j js)
  obtain a w1 where 1: "recover_job eg j w = (a, w1)" by (metis surj_pair)
  obtain b where 2: "recover_each eg js w1 = (b, w')" using Cons.prems(1) 1 by (auto split: prod.splits)
  have "jb_id y = i" if "registry_get i (jobs_of w1) = Some y" for i y
    using recover_job_effect [OF 1] that Cons.prems(2) [of i y]
    by (cases "i = jb_id j") (auto simp: resumed_job_def)
  then show ?case using Cons.IH [OF 2] Cons.prems(3) by blast
qed simp

lemma startup_tracked:
  assumes "writes_ok eg" "job_table w t"
  shows "tracked (jobs_of (startup eg w))"
proof -
  obtain m w1 where 1: "recover_interrupted eg (engine_new w) = (m, w1)" by (metis surj_pair)
  have w1: "jobs_of w1 = (jobs_of w)\<lparr> rg_jobs := Map.empty \<rparr>"
    using keeps_jobsD [OF recover_interrupted_jobs 1] by (simp add: engine_new_def)
  then have t1: "job_table w1 t" using assms(2) by (simp add: job_table_def)
  obtain n w2 where 2: "recover_each eg (list_unfinished t) w1 = (n, w2)" by (metis surj_pair)
  have s: "startup eg w = w2"
    using assms(1) t1 1 2 by (simp add: startup_def recover_jobs_def job_table_def writes_ok_def)
  have ok: "table_ok t" using assms(2) by (simp add: job_table_def)
  from recover_each_table [OF assms(1) distinct_list_unfinished [OF ok] t1 2] obtain t2 where
    t2: "job_table w2 t2" "\<And>i. i \<notin> row_id ` set (list_unfinished t) \<Longrightarrow> unfinished_at t2 i = unfinished_at t i"
    "\<And>j. j \<in> set (list_unfinished t) \<Longrightarrow> unfinished_at t2 (row_id j) = None \<or> requeued w2 t2 j" by blast
  have "registry_get (JobId i) (jobs_of w2) = Some k" if k: "unfinished_at t2 i = Some k" for i k
  proof -
    have i: "i = row_id k" using unfinished_at_id [OF k] by simp
    have "k \<in> set (list_unfinished t2)"
      using list_unfinished_at t2(1) k unfolding i job_table_def by blast
    from unfinished_source [OF _ t2(2,3) ok refl this] obtain j where
      "j \<in> set (list_unfinished t)" "k = resumed_job j" "requeued w2 t2 j"
      using t2(1) by (auto simp: job_table_def)
    then show ?thesis unfolding i by (cases "jb_id j") (simp add: requeued_def resumed_job_def)
  qed
  moreover have "jb_id x = k" if "registry_get k (jobs_of w2) = Some x" for k x
    using recover_each_ids [OF 2 _ that] w1 by (simp add: registry_get_def)
  ultimately show ?thesis using t2(1) unfolding s tracked_def job_table_def by blast
qed

lemma tracked_table: "tracked (jobs_of w) \<Longrightarrow> \<exists>t. job_table w t"
  unfolding tracked_def job_table_def by blast

lemma tracked_step:
  "engine_step eg w w' \<Longrightarrow> writes_ok eg \<Longrightarrow> tracked (jobs_of w) \<Longrightarrow> tracked (jobs_of w')"
proof (induction rule: engine_step.induct)
  case (serve rq w rp w')
  then show ?case using dispatch_tracked by blast
next
  case (task w ts t ts')
  then show ?case by (simp add: run_task_tracked)
next
  case (restart w)
  then show ?case using startup_tracked tracked_table by blast
qed

lemma tracked_reachable:
  assumes "(engine_step eg)\<^sup>*\<^sup>* (startup eg w0) w" "writes_ok eg" "job_table w0 t0"
  shows "tracked (jobs_of w)"
  using assms(1) by (induction rule: rtranclp_induct) (use assms(2,3) in \<open>auto intro: startup_tracked tracked_step\<close>)

section \<open>The queue at rest\<close>

text \<open>The durable queue drains. From any table a former process has left, whatever requests, tasks and
  restarts come in whatever order: once the pending tasks have run, in any order, the table lists no
  unfinished job, so that a later start has nothing to recover - while the table can be written.\<close>

theorem queue_drains:
  assumes "writes_ok eg" "job_table w0 t0" "(engine_step eg)\<^sup>*\<^sup>* (startup eg w0) w" "mset ts = mset (ew_tasks w)"
  shows "\<exists>t. rg_store (wd_jobs (ew_main (run_tasks eg ts w))) = Some t \<and> list_unfinished t = []"
proof -
  have "tracked (jobs_of (run_tasks eg ts w))"
    unfolding run_tasks_def using fold_tasks_tracked [OF assms(1)] tracked_reachable [OF assms(3,1,2)] by simp
  then show ?thesis
    using tracked_drained run_tasks_settle [OF attended_reachable [OF assms(3)] assms(4)] by blast
qed

theorem queue_drains_witness:
  "list_unfinished demo_dead_table = [demo_dead_job]
   \<and> (\<exists>t. rg_store (wd_jobs (ew_main (run_tasks demo_engine (rev (ew_tasks (startup demo_engine demo_dead)))
        (startup demo_engine demo_dead)))) = Some t \<and> list_unfinished t = [])"
proof -
  have "writes_ok demo_engine" "job_table demo_dead demo_dead_table"
    using demo_dead_hyps by (simp_all add: writes_ok_def job_table_def)
  then show ?thesis using queue_drains [OF _ _ rtranclp.rtrancl_refl mset_rev] demo_dead_unfinished by blast
qed

end
