(* ===== verification/Engine_Interleaved.thy ===== *)
theory Engine_Interleaved
  imports Engine_Drain
begin

text \<open>
  The engine with its tasks running at the same time (\<open>engine/src/lib.rs\<close>): spawned jobs advance step by
  step in any order, requests are served in between, and the process may die at any moment.
\<close>

section \<open>Steps\<close>

type_synonym 's running = "(job_id \<times> ('s, meeting_id) job_thread) list"

fun task_thread :: "'s engine \<Rightarrow> task \<Rightarrow> (job_id \<times> ('s, meeting_id) job_thread) option" where
  "task_thread eg (TaskProcess i input) = Some (i, process_thread (eg_orch eg) i input)"
| "task_thread eg (TaskReprocess i m) = Some (i, reprocess_thread (eg_orch eg) i m)"
| "task_thread eg (TaskEmbed model) = None"

text \<open>In the background a pending job starts, a running one makes a step or is gone, or an embedding pass runs.\<close>

inductive background :: "'s engine \<Rightarrow> 's engine_world \<times> 's running \<Rightarrow> 's engine_world \<times> 's running \<Rightarrow> bool" for eg where
  start: "ew_tasks w = ts @ t # ts' \<Longrightarrow> task_thread eg t = Some p
    \<Longrightarrow> background eg (w, ps) (w\<lparr> ew_tasks := ts @ ts' \<rparr>, ps @ [p])"
| embed_pass: "ew_tasks w = ts @ t # ts' \<Longrightarrow> task_thread eg t = None
    \<Longrightarrow> background eg (w, ps) (run_task eg t (w\<lparr> ew_tasks := ts @ ts' \<rparr>), ps)"
| advance: "g (ew_main w) = (p, m) \<Longrightarrow> background eg (w, ps @ (i, Next g) # ps') (w\<lparr> ew_main := m \<rparr>, ps @ (i, p) # ps')"
| finish: "background eg (w, ps @ (i, Ended r) # ps') (w, ps @ ps')"

inductive engine_moves :: "'s engine \<Rightarrow> 's engine_world \<times> 's running \<Rightarrow> 's engine_world \<times> 's running \<Rightarrow> bool" for eg where
  in_background: "background eg s s' \<Longrightarrow> engine_moves eg s s'"
| served: "dispatch eg rq w = (rp, w') \<Longrightarrow> engine_moves eg (w, ps) (w', ps)"
| crash: "engine_moves eg (w, ps) (startup eg w, [])"

inductive_cases background_cases: "background eg (w, ps) s'"

text \<open>One task after the other is one of the schedules.\<close>

lemma thread_runs_alone:
  "(background eg)\<^sup>*\<^sup>* (w, ps @ (i, p) # ps')
     (w\<lparr> ew_main := snd (alone p (ew_main w)) \<rparr>, ps @ (i, Ended (fst (alone p (ew_main w)))) # ps')"
proof (induction p arbitrary: w rule: thread_induct)
  case (Ended r)
  show ?case by simp
next
  case (Next g)
  let ?w = "w\<lparr> ew_main := snd (g (ew_main w)) \<rparr>"
  have "background eg (w, ps @ (i, Next g) # ps') (?w, ps @ (i, fst (g (ew_main w))) # ps')"
    by (rule background.advance) simp
  moreover have "(background eg)\<^sup>*\<^sup>* (?w, ps @ (i, fst (g (ew_main w))) # ps')
      (w\<lparr> ew_main := snd (alone (Next g) (ew_main w)) \<rparr>, ps @ (i, Ended (fst (alone (Next g) (ew_main w)))) # ps')"
    using Next.IH [of ?w "ew_main w"] by (simp add: alone_Next)
  ultimately show ?case by (rule converse_rtranclp_into_rtranclp)
qed

lemma run_task_thread:
  "task_thread eg t = Some (i, p) \<Longrightarrow> run_task eg t w = w\<lparr> ew_main := snd (alone p (ew_main w)) \<rparr>"
  by (cases t) (auto simp: alone_jobs on_main_def split_beta)

lemma background_runs_task:
  assumes "ew_tasks w = ts @ t # ts'"
  shows "(background eg)\<^sup>*\<^sup>* (w, ps) (run_task eg t (w\<lparr> ew_tasks := ts @ ts' \<rparr>), ps)"
proof (cases "task_thread eg t")
  case None
  then show ?thesis using background.embed_pass [OF assms] by blast
next
  case (Some ip)
  obtain i p where ip: "ip = (i, p)" by (metis surj_pair)
  let ?w = "w\<lparr> ew_tasks := ts @ ts' \<rparr>"
  let ?done = "(i, Ended (fst (alone p (ew_main ?w))))"
  have 1: "background eg (w, ps) (?w, ps @ [(i, p)])" using background.start [OF assms Some] by (simp add: ip)
  have 2: "(background eg)\<^sup>*\<^sup>* (?w, ps @ [(i, p)]) (run_task eg t ?w, ps @ [?done])"
    using thread_runs_alone [of eg ?w ps i p "[]"] Some by (simp add: ip run_task_thread)
  have 3: "background eg (run_task eg t ?w, ps @ [?done]) (run_task eg t ?w, ps)"
    using background.finish [of eg "run_task eg t ?w" ps i _ "[]"] by simp
  show ?thesis
    by (rule converse_rtranclp_into_rtranclp [OF 1 rtranclp.rtrancl_into_rtrancl [OF 2 3]])
qed

section \<open>Every running job settles\<close>

text \<open>A job's thread either has its settling step before it, after which it leaves the registry alone, or
  behind it; on the registry it only touches its own job.\<close>

definition settled :: "job_id \<Rightarrow> 's world \<Rightarrow> bool" where
  "settled i w \<longleftrightarrow> (\<forall>j. registry_get i (wd_jobs w) = Some j \<longrightarrow> is_terminal (jb_status j))"

abbreviation same_jobs :: "'s world \<Rightarrow> 's world \<Rightarrow> bool" where
  "same_jobs w w' \<equiv> wd_jobs w' = wd_jobs w"

abbreviation settling :: "job_id \<Rightarrow> ('s, 'a) job_thread \<Rightarrow> bool" where
  "settling i p \<equiv> passes (settled i) same_jobs p"

abbreviation own_job :: "job_id \<Rightarrow> registry \<Rightarrow> registry \<Rightarrow> bool" where
  "own_job i r s \<equiv> \<forall>k. k \<noteq> i \<longrightarrow> registry_get k s = registry_get k r"

definition running_ok :: "'s running \<Rightarrow> bool" where
  "running_ok ps \<longleftrightarrow> (\<forall>(i, p) \<in> set ps. (settling i p \<or> steps_in same_jobs p) \<and> job_framed (own_job i) p)"

lemma settles_here:
  assumes "\<And>j. is_terminal (jb_status (f j))" "\<And>x. steps_in same_jobs (h x)"
  shows "settling i (bindT (atom (job_update en i f)) h)"
  by (rule passes_here)
    (auto simp: settled_def job_update_def doE_def registry_get_update assms)

lemma bookkeeping_steps:
  "steps_in same_jobs (atom (persist_status orch m f))" "steps_in same_jobs (atom (persist_if_known orch mo f))"
  "steps_in same_jobs (atom (emit ev))"
  by (simp_all add: steps_in_atom persist_status_jobs persist_if_known_jobs emit_def doE_def)

lemma finalize_settles: "settling i (finalize_thread orch i r)"
  unfolding finalize_thread_def
  by (rule passes_bind)
    (auto simp: readE_def is_terminal_def split: sum.split pipeline_error.split
      intro!: settles_here steps_in_bind bookkeeping_steps)

lemma job_threads_settle: "settling i (process_thread orch i input)" "settling i (reprocess_thread orch i m)"
  unfolding process_thread_def reprocess_thread_def then_finalize_thread_def
  by (rule passes_then, rule passes_then_left [OF finalize_settles], simp)+

lemma task_thread_ok:
  assumes "task_thread eg t = Some (i, p)"
  shows "task_job t = Some i" "settling i p" "job_framed (own_job i) p"
  using assms by (cases t; auto simp: job_threads_settle others_kept.process_thread others_kept.reprocess_thread)+

lemma running_ok_task: "running_ok ps \<Longrightarrow> task_thread eg t = Some p \<Longrightarrow> running_ok (ps @ [p])"
  by (cases p) (auto simp: running_ok_def dest: task_thread_ok)

text \<open>The jobs a running thread is going to settle.\<close>

definition jobs_running :: "'s running \<Rightarrow> job_id set" where
  "jobs_running ps = {i. \<exists>p. (i, p) \<in> set ps \<and> settling i p}"

definition attended_all :: "'s engine_world \<times> 's running \<Rightarrow> bool" where
  "attended_all s \<longleftrightarrow> running_ok (snd s) \<and> attended_by (jobs_in (ew_tasks (fst s)) \<union> jobs_running (snd s)) (fst s)"

lemma advance_ok:
  assumes ok: "running_ok (ps @ (i, Next g) # ps')" and g: "g (ew_main w) = (p, m)"
  shows "running_ok (ps @ (i, p) # ps')"
    and "k \<noteq> i \<Longrightarrow> registry_get k (wd_jobs m) = registry_get k (jobs_of w)"
    and "settling i (Next g) \<Longrightarrow> settling i p \<or> settled i m"
    and "\<not> settling i (Next g) \<Longrightarrow> wd_jobs m = jobs_of w"
proof -
  have p: "p = fst (g (ew_main w))" "m = snd (g (ew_main w))" using g by simp_all
  have s: "settling i (Next g) \<or> steps_in same_jobs (Next g)" "job_framed (own_job i) (Next g)"
    using ok by (simp_all add: running_ok_def)
  show k: "k \<noteq> i \<Longrightarrow> registry_get k (wd_jobs m) = registry_get k (jobs_of w)"
    using s(2) unfolding job_framed_def steps_in_Next p by blast
  have "job_framed (own_job i) p" using s(2) unfolding job_framed_def steps_in_Next p by blast
  moreover have "settling i p \<or> steps_in same_jobs p"
    using s(1) unfolding passes_Next steps_in_Next p by blast
  ultimately show "running_ok (ps @ (i, p) # ps')" using ok by (auto simp: running_ok_def)
  show "settling i (Next g) \<Longrightarrow> settling i p \<or> settled i m" unfolding passes_Next p by blast
  show "\<not> settling i (Next g) \<Longrightarrow> wd_jobs m = jobs_of w" using s(1) unfolding steps_in_Next p by blast
qed

lemma background_attended: "background eg s s' \<Longrightarrow> attended_all s \<Longrightarrow> attended_all s'"
proof (induction rule: background.induct)
  case (start w ts t ts' p ps)
  obtain i q where p: "p = (i, q)" by (metis surj_pair)
  note t = task_thread_ok [OF start(2) [unfolded p]]
  have "jobs_in (ew_tasks w) \<union> jobs_running ps
      \<subseteq> jobs_in (ew_tasks (w\<lparr> ew_tasks := ts @ ts' \<rparr>)) \<union> jobs_running (ps @ [p])"
    using start(1) t(1,2) by (auto simp: jobs_running_def p)
  then show ?case using start running_ok_task [OF _ start(2)]
    by (auto simp: attended_all_def elim: attended_keeps)
next
  case (embed_pass w ts t ts' ps)
  let ?w = "w\<lparr> ew_tasks := ts @ ts' \<rparr>"
  have t: "jobs_in [t] = {}" using embed_pass(2) by (cases t) auto
  have "attended_by (jobs_in (ew_tasks w) \<union> jobs_running ps) ?w"
    using embed_pass(3) by (auto simp: attended_all_def elim: attended_keeps)
  from run_task_attended [OF this, where t = t and eg = eg] show ?case
    using embed_pass(1,3) t by (auto simp: attended_all_def elim!: attended_keeps)
next
  case (advance g w p m ps i ps')
  have ok: "running_ok (ps @ (i, Next g) # ps')"
    and att: "attended_by (jobs_in (ew_tasks w) \<union> jobs_running (ps @ (i, Next g) # ps')) w"
    using advance(2) by (simp_all add: attended_all_def)
  note a = advance_ok [OF ok advance(1)]
  have "is_terminal (jb_status j) \<or> k \<in> jobs_in (ew_tasks w) \<union> jobs_running (ps @ (i, p) # ps')"
    if j: "registry_get k (wd_jobs m) = Some j" for k j
  proof (cases "k = i \<and> settling i (Next g)")
    case True
    then show ?thesis using a(3) j by (auto simp: settled_def jobs_running_def)
  next
    case False
    then have "registry_get k (jobs_of w) = Some j" using a(2,4) j by metis
    then have "is_terminal (jb_status j) \<or> k \<in> jobs_in (ew_tasks w) \<union> jobs_running (ps @ (i, Next g) # ps')"
      using att unfolding attended_by_def by blast
    then show ?thesis using False by (auto simp: jobs_running_def)
  qed
  then show ?case using a(1) by (auto simp: attended_all_def attended_by_def)
next
  case (finish w ps i r ps')
  have "jobs_running (ps @ (i, Ended r) # ps') = jobs_running (ps @ ps')" by (auto simp: jobs_running_def)
  then show ?case using finish by (simp add: attended_all_def running_ok_def)
qed

lemma moves_attended: "engine_moves eg s s' \<Longrightarrow> attended_all s \<Longrightarrow> attended_all s'"
proof (induction rule: engine_moves.induct)
  case (in_background s s')
  then show ?case using background_attended by blast
next
  case (served rq w rp w' ps)
  then show ?case using dispatch_attended [OF served(1)] by (simp add: attended_all_def)
next
  case (crash w ps)
  show ?case using startup_attended [of eg w] by (simp add: attended_all_def running_ok_def jobs_running_def)
qed

lemma attended_all_reachable:
  assumes "(engine_moves eg)\<^sup>*\<^sup>* (startup eg w0, []) s"
  shows "attended_all s"
proof -
  have "attended_all (startup eg w0, [])"
    using startup_attended [of eg w0] by (simp add: attended_all_def running_ok_def jobs_running_def)
  with assms show ?thesis by (induction rule: rtranclp_induct) (auto intro: moves_attended)
qed

section \<open>The durable queue\<close>

definition tracked_all :: "'s engine \<Rightarrow> 's engine_world \<times> 's running \<Rightarrow> bool" where
  "tracked_all eg s \<longleftrightarrow> tracked (jobs_of (fst s)) \<and> (\<forall>(i, p) \<in> set (snd s).
     job_framed (\<lambda>r r'. (\<forall>n. \<not> en_job_write_fails (or_env (eg_orch eg)) n) \<longrightarrow> tracked r \<longrightarrow> tracked r') p)"

lemma background_tracked:
  "background eg s s' \<Longrightarrow> writes_ok eg \<Longrightarrow> tracked_all eg s \<Longrightarrow> tracked_all eg s'"
proof (induction rule: background.induct)
  case (start w ts t ts' p ps)
  then show ?case
    by (cases t) (auto simp: tracked_all_def queue_kept.process_thread queue_kept.reprocess_thread)
next
  case (embed_pass w ts t ts' ps)
  then show ?case using run_task_tracked [of eg "w\<lparr> ew_tasks := ts @ ts' \<rparr>" t] by (simp add: tracked_all_def)
next
  case (advance g w p m ps i ps')
  then have p: "p = fst (g (ew_main w))" "m = snd (g (ew_main w))" by simp_all
  show ?case using advance(2,3) unfolding tracked_all_def p
    by (auto simp: job_framed_def steps_in_Next writes_ok_def)
qed (simp add: tracked_all_def)

lemma tracked_all_reachable:
  assumes "(engine_moves eg)\<^sup>*\<^sup>* (startup eg w0, []) s" "writes_ok eg" "job_table w0 t0"
  shows "tracked_all eg s"
  using assms(1)
proof (induction rule: rtranclp_induct)
  case base
  show ?case using startup_tracked [OF assms(2,3)] by (simp add: tracked_all_def)
next
  case (step s s')
  from step(2,3) show ?case
  proof (induction rule: engine_moves.induct)
    case (in_background s s')
    then show ?case using background_tracked assms(2) by blast
  next
    case (served rq w rp w' ps)
    then show ?case using dispatch_tracked [OF assms(2) _ served(1)] by (simp add: tracked_all_def)
  next
    case (crash w ps)
    then obtain t where "job_table w t" using tracked_table by (auto simp: tracked_all_def)
    then show ?case using startup_tracked [OF assms(2)] by (simp add: tracked_all_def)
  qed
qed

section \<open>The background comes to rest\<close>

definition rest_order :: "(('s engine_world \<times> 's running) \<times> ('s engine_world \<times> 's running)) set" where
  "rest_order = inv_image (less_than <*lex*> mult {(p, q). after p q})
     (\<lambda>(w, ps). (length (ew_tasks w), mset (map snd ps)))"

lemma wf_rest_order: "wf rest_order"
  unfolding rest_order_def using wfP_after by (intro wf_inv_image wf_lex_prod wf_less_than wf_mult) (simp add: wfp_def)

lemma background_rests: "background eg s s' \<Longrightarrow> (s', s) \<in> rest_order"
proof (induction rule: background.induct)
  case (embed_pass w ts t ts' ps)
  have "attended_by UNIV (w\<lparr> ew_tasks := ts @ ts' \<rparr>)" by (simp add: attended_by_def)
  from run_task_attended(2) [OF this] embed_pass(1) show ?case by (simp add: rest_order_def)
next
  case (advance g w p m ps i ps')
  have "after p (Next g)" using after.intros [of g "ew_main w"] advance by simp
  then have "(mset (map snd (ps @ ps')) + {#p#}, mset (map snd (ps @ ps')) + {#Next g#}) \<in> mult {(p, q). after p q}"
    by (intro one_step_implies_mult) auto
  then show ?case by (simp add: rest_order_def)
next
  case (finish w ps i r ps')
  have "(mset (map snd (ps @ ps')) + {#}, mset (map snd (ps @ ps')) + {#Ended r#}) \<in> mult {(p, q). after p q}"
    by (intro one_step_implies_mult) auto
  then show ?case by (simp add: rest_order_def)
qed (simp add: rest_order_def)

lemma at_rest:
  assumes "\<nexists>s'. background eg (w, ps) s'"
  shows "ew_tasks w = [] \<and> ps = []"
proof -
  have "ew_tasks w = []"
  proof (rule ccontr)
    assume "ew_tasks w \<noteq> []"
    then obtain t ts where "ew_tasks w = [] @ t # ts" by (cases "ew_tasks w") auto
    then show False using background.start background.embed_pass assms by (metis option.exhaust)
  qed
  moreover have "ps = []"
  proof (rule ccontr)
    assume "ps \<noteq> []"
    then obtain i p qs where "ps = [] @ (i, p) # qs" by (cases ps) auto
    then show False using background.advance [of _ w] background.finish [of eg w] assms
      by (cases p) (metis surj_pair)+
  qed
  ultimately show ?thesis ..
qed

lemma background_ends: "\<exists>s'. (background eg)\<^sup>*\<^sup>* s s' \<and> (\<nexists>s''. background eg s' s'')"
proof (induction s rule: wf_induct_rule [OF wf_rest_order])
  case (1 s)
  then show ?case using background_rests by (metis converse_rtranclp_into_rtranclp rtranclp.rtrancl_refl)
qed

section \<open>Properties\<close>

text \<open>C3. No job is stuck, with everything running at the same time: whatever requests were served, whatever
  steps the running jobs made, in whatever order, and wherever the process died and was started again - a
  job that is not finished has a pending task, or a running thread that has its settling step still before
  it, whatever the others do.\<close>

theorem interleaved_no_job_stuck:
  assumes "(engine_moves eg)\<^sup>*\<^sup>* (startup eg w0, []) (w, ps)" "registry_get i (wd_jobs (ew_main w)) = Some j"
  shows "is_terminal (jb_status j) \<or> (\<exists>t \<in> set (ew_tasks w). task_job t = Some i)
    \<or> (\<exists>p. (i, p) \<in> set ps \<and> settling i p)"
proof -
  have "attended_by (jobs_in (ew_tasks w) \<union> jobs_running ps) w"
    using attended_all_reachable [OF assms(1)] by (simp add: attended_all_def)
  then show ?thesis using assms(2) by (auto simp: attended_by_def jobs_running_def image_iff) metis
qed

theorem interleaved_no_job_stuck_witness:
  "\<exists>i j p. registry_get i (wd_jobs (ew_main (snd demo_served))) = Some j \<and> jb_status j = Queued
     \<and> settling i (p :: (unit, meeting_id) job_thread)"
proof -
  obtain rp w where served: "dispatch demo_engine demo_request (startup demo_engine demo_start) = (rp, w)" by (metis surj_pair)
  then have w: "snd demo_served = w" by (simp add: demo_served_def)
  have "start_processing demo_engine (InputOfTranscript (Some (lit ''Sync'')) \<lparr> tr_segments = [] \<rparr>)
      (startup demo_engine demo_start) = (rp, w)"
    using served unfolding demo_request_def dispatch.simps .
  from start_effect [OF disjI1 [OF this]]
  obtain i t kind where i: "registry_get i (jobs_of w) = Some (job_new i kind)" and t: "task_job t = Some i"
    "ew_tasks w = ew_tasks (startup demo_engine demo_start) @ [t]" by (metis (mono_tags))
  obtain p where p: "task_thread demo_engine t = Some (i, p)" using t(1) by (cases t) auto
  let ?w = "w\<lparr> ew_tasks := ew_tasks (startup demo_engine demo_start) @ [] \<rparr>"
  have "background demo_engine (w, []) (?w, [] @ [(i, p)])" by (rule background.start [OF _ p]) (simp add: t)
  then have 2: "engine_moves demo_engine (w, []) (?w, [(i, p)])" by (simp add: engine_moves.in_background)
  have 1: "engine_moves demo_engine (startup demo_engine demo_start, []) (w, [])" by (rule engine_moves.served [OF served])
  have reached: "(engine_moves demo_engine)\<^sup>*\<^sup>* (startup demo_engine demo_start, []) (?w, [(i, p)])"
    by (rule converse_rtranclp_into_rtranclp, rule 1, rule r_into_rtranclp, rule 2)
  have "ew_tasks (startup demo_engine demo_start) = []"
    by (simp add: startup_def engine_new_def recover_interrupted_def recover_jobs_def demo_start_def demo_engine_def
        on_store_def on_main_def list_processing_statuses_def with_conn_def bindE_def db_empty_def demo_orch_def
        demo_env_def registry_with_store_def list_unfinished_def split_beta)
  then have "settling i p"
    using interleaved_no_job_stuck [OF reached, of i "job_new i kind"] i by (simp add: job_new_def is_terminal_def)
  moreover have "jb_status (job_new i kind) = Queued" by (simp add: job_new_def)
  ultimately show ?thesis using i w by blast
qed



end
