(* ===== verification/Engine_Queries.thy ===== *)
theory Engine_Queries
  imports Engine_Recovery
begin

text \<open>
  What the engine's queries may do (\<open>engine/src/lib.rs\<close>): reading requests change no stored data and
  start no job, asking always answers from indexed passages, and at most one embedding pass is pending.
\<close>

section \<open>Reads\<close>

definition stored :: "'s engine_world \<Rightarrow> store_db \<times> registry \<times> event list" where
  "stored w = (wd_db (ew_main w), wd_jobs (ew_main w), wd_events (ew_main w))"

definition keeps_stored :: "('s, 'a) engine_op \<Rightarrow> bool" where
  "keeps_stored f \<longleftrightarrow> (\<forall>w. stored (snd (f w)) = stored w)"

lemma keeps_storedD: "keeps_stored f \<Longrightarrow> f w = (x, w') \<Longrightarrow> stored w' = stored w"
  unfolding keeps_stored_def by (metis snd_conv)

text \<open>A read of the store leaves the database as it is.\<close>

definition pure_read :: "(ustr option \<Rightarrow> (store_db, storage_error, 'a) effect) \<Rightarrow> bool" where
  "pure_read oper \<longleftrightarrow> (\<forall>fault d. snd (oper fault d) = d)"

lemma pure_reads:
  "pure_read (\<lambda>fault. get_meeting js fault i)" "pure_read (\<lambda>fault. get_transcript js fault i)"
  "pure_read (\<lambda>fault. get_mom fault i)" "pure_read (list_meetings js)" "pure_read (list_processing_statuses js)"
  by (auto simp: pure_read_def get_meeting_def get_transcript_def get_mom_def get_artifact_def list_meetings_def
      list_processing_statuses_def with_conn_def bindE_def decodeE_def split: prod.splits sum.splits option.splits)

lemma keeps_stored_basic:
  "keeps_stored (on_ext f)" "keeps_stored (on_index g)" "pure_read oper \<Longrightarrow> keeps_stored (on_store eg oper)"
  by (auto simp: keeps_stored_def stored_def on_ext_def on_index_def on_store_def on_main_def pure_read_def split: prod.splits)
    (metis snd_conv)

lemma keeps_stored_reads:
  "keeps_stored (health eg)" "keeps_stored (get_job i)" "keeps_stored (engine_get_meeting eg m)"
  "keeps_stored (engine_get_transcript eg m)" "keeps_stored (engine_get_mom eg m)" "keeps_stored (engine_list_meetings eg)"
  by (auto simp: keeps_stored_def health_def get_job_def engine_get_meeting_def engine_get_transcript_def
      engine_get_mom_def engine_list_meetings_def split: prod.splits sum.splits option.splits
      dest!: keeps_storedD [OF keeps_stored_basic(1)] keeps_storedD [OF keeps_stored_basic(3) [OF pure_reads(1)]]
        keeps_storedD [OF keeps_stored_basic(3) [OF pure_reads(2)]] keeps_storedD [OF keeps_stored_basic(3) [OF pure_reads(3)]]
        keeps_storedD [OF keeps_stored_basic(3) [OF pure_reads(4)]] keeps_storedD [OF keeps_stored_basic(3) [OF pure_reads(5)]])

text \<open>What a search may spawn.\<close>

definition may_spawn_embedding :: "'s engine \<Rightarrow> 's engine_world \<Rightarrow> 's engine_world \<Rightarrow> bool" where
  "may_spawn_embedding eg w w' \<longleftrightarrow> (ew_tasks w' = ew_tasks w \<and> ew_embedding w' = ew_embedding w)
     \<or> (\<exists>model. mo_embedding (cf_models (eg_config eg)) = Some model \<and> \<not> ew_embedding w \<and> ew_embedding w'
          \<and> ew_tasks w' = ew_tasks w @ [TaskEmbed model])"

lemma keeps_flag:
  "on_ext f w = (x, w') \<Longrightarrow> ew_embedding w' = ew_embedding w \<and> ew_tasks w' = ew_tasks w"
  "on_store eg oper w = (y, w') \<Longrightarrow> ew_embedding w' = ew_embedding w \<and> ew_tasks w' = ew_tasks w"
  "on_index g w = (z, w') \<Longrightarrow> ew_embedding w' = ew_embedding w \<and> ew_tasks w' = ew_tasks w"
  "on_jobs eg h w = (v, w') \<Longrightarrow> ew_embedding w' = ew_embedding w \<and> ew_tasks w' = ew_tasks w"
  "on_main k w = (u, w') \<Longrightarrow> ew_embedding w' = ew_embedding w \<and> ew_tasks w' = ew_tasks w"
  by (auto simp: on_ext_def on_store_def on_index_def on_jobs_def on_main_def Let_def split: prod.splits)

lemma find_passages_effect:
  assumes "find_passages eg query dir limit w = (r, w')"
  shows "stored w' = stored w" and "may_spawn_embedding eg w w'"
proof -
  obtain r1 w1 where 1: "engine_sync eg dir w = (r1, w1)" by (metis surj_pair)
  define w2 where "w2 = maybe_spawn_embedding eg w1"
  obtain v w3 where 3: "embed_query eg query w2 = (v, w3)" by (metis surj_pair)
  have 4: "on_index (retrieve_hybrid (eg_retriever eg) (eg_sql_fault eg) query limit v) w3 = (r, w')"
    using assms 1 3 by (simp add: find_passages_def w2_def)
  have w3: "stored w3 = stored w2 \<and> ew_embedding w3 = ew_embedding w2 \<and> ew_tasks w3 = ew_tasks w2"
    using 3 by (auto simp: embed_query_def split: option.splits prod.splits sum.splits list.splits
        dest: keeps_flag(1) keeps_storedD [OF keeps_stored_basic(1)])
  have w2: "stored w2 = stored w1" by (auto simp: w2_def maybe_spawn_embedding_def spawn_def stored_def split: option.splits)
  show "stored w' = stored w"
    using keeps_storedD [OF keeps_stored_basic(2) 4] w3 w2 keeps_storedD [OF keeps_stored_basic(2) 1 [unfolded engine_sync_def]] by simp
  show "may_spawn_embedding eg w w'"
    using keeps_flag(3) [OF 4] w3 keeps_flag(3) [OF 1 [unfolded engine_sync_def]]
    by (auto simp: may_spawn_embedding_def w2_def maybe_spawn_embedding_def spawn_def split: option.splits)
qed

lemma search_ask_effect:
  "search_vault eg query dir n w = (rp, w') \<Longrightarrow> stored w' = stored w \<and> may_spawn_embedding eg w w'"
  "ask_vault eg query dir w = (rp, w') \<Longrightarrow> stored w' = stored w \<and> may_spawn_embedding eg w w'"
proof -
  show "stored w' = stored w \<and> may_spawn_embedding eg w w'" if "search_vault eg query dir n w = (rp, w')"
    using that find_passages_effect [of eg query dir "or_default n 20" w]
    by (auto simp: search_vault_def split: prod.splits sum.splits)
  assume a: "ask_vault eg query dir w = (rp, w')"
  obtain r w1 where 1: "find_passages eg query dir DEFAULT_TOP_K w = (r, w1)" by (metis surj_pair)
  obtain x where 2: "on_ext (answer (eg_generate eg) query (case r of Inr ps \<Rightarrow> ps | Inl _ \<Rightarrow> [])
      (mo_qa (cf_models (eg_config eg)))) w1 = (x, w')"
    using a 1 by (auto simp: ask_vault_def Let_def split: prod.splits)
  show "stored w' = stored w \<and> may_spawn_embedding eg w w'"
    using find_passages_effect [OF 1] keeps_storedD [OF keeps_stored_basic(1) 2] keeps_flag(1) [OF 2]
    by (simp add: may_spawn_embedding_def)
qed

fun starts_job :: "request \<Rightarrow> bool" where
  "starts_job (RqProcessMeeting _) = True"
| "starts_job (RqReprocessMeeting _) = True"
| "starts_job _ = False"

fun only_reads :: "request \<Rightarrow> bool" where
  "only_reads (RqCancelJob _) = False"
| "only_reads rq = (\<not> starts_job rq)"

lemma only_reads_effect:
  assumes "dispatch eg rq w = (rp, w')" "only_reads rq"
  shows "stored w' = stored w \<and> may_spawn_embedding eg w w'"
proof -
  have none: "stored w' = stored w \<and> may_spawn_embedding eg w w'"
    if "keeps_stored f" "f w = (rp, w')" "ew_embedding w' = ew_embedding w" "ew_tasks w' = ew_tasks w" for f
    using keeps_storedD [OF that(1,2)] that(3,4) by (simp add: may_spawn_embedding_def)
  show ?thesis
  proof (cases rq)
    case RqHealth
    then show ?thesis using assms(1)
      by (intro none [OF keeps_stored_reads(1)]) (auto simp: health_def dest: keeps_flag(1) split: prod.splits)
  next
    case (RqGetJob i)
    then show ?thesis using assms(1)
      by (intro none [OF keeps_stored_reads(2)]) (auto simp: get_job_def split: option.splits)
  next
    case (RqGetMeeting m)
    then show ?thesis using assms(1)
      by (intro none [OF keeps_stored_reads(3)]) (auto simp: engine_get_meeting_def dest: keeps_flag(2) split: prod.splits)
  next
    case (RqGetTranscript m)
    then show ?thesis using assms(1)
      by (intro none [OF keeps_stored_reads(4)]) (auto simp: engine_get_transcript_def dest: keeps_flag(2) split: prod.splits)
  next
    case (RqGetMom m)
    then show ?thesis using assms(1)
      by (intro none [OF keeps_stored_reads(5)]) (auto simp: engine_get_mom_def dest: keeps_flag(2) split: prod.splits)
  next
    case (RqSearch query dir n)
    then show ?thesis using assms(1) search_ask_effect(1) [of eg query dir n w rp w'] by simp
  next
    case (RqAsk question dir)
    then show ?thesis using assms(1) search_ask_effect(2) [of eg question dir w rp w'] by simp
  next
    case RqListMeetings
    then show ?thesis using assms(1)
      by (intro none [OF keeps_stored_reads(6)])
        (auto simp: engine_list_meetings_def dest!: keeps_flag(2) split: prod.splits sum.splits)
  qed (use assms(2) in simp_all)
qed

text \<open>C30. Browsing is harmless: a request that neither starts nor cancels a job changes no stored meeting, no job
  and sends no event, whether it succeeds or fails, and can at most start one embedding pass, only when
  embeddings are configured and none is pending.\<close>

theorem reads_change_nothing:
  assumes "dispatch eg rq w = (rp, w')" "only_reads rq"
  shows "wd_db (ew_main w') = wd_db (ew_main w) \<and> wd_jobs (ew_main w') = wd_jobs (ew_main w)
    \<and> wd_events (ew_main w') = wd_events (ew_main w) \<and> may_spawn_embedding eg w w'"
  using only_reads_effect [OF assms] by (simp add: stored_def)

theorem reads_change_nothing_witness:
  "wd_db (ew_main (snd (dispatch demo_engine (RqAsk (lit ''what?'') (lit ''/v'')) demo_dead))) = wd_db (ew_main demo_dead)"
  using reads_change_nothing [OF prod.collapse [symmetric], of "RqAsk (lit ''what?'') (lit ''/v'')" demo_engine demo_dead]
  by simp

section \<open>One embedding pass at a time\<close>

fun is_embed :: "task \<Rightarrow> bool" where
  "is_embed (TaskEmbed _) = True"
| "is_embed _ = False"

text \<open>The flag says whether a pass is pending, and no two are.\<close>

definition coalesced :: "'s engine_world \<Rightarrow> bool" where
  "coalesced w \<longleftrightarrow> length (filter is_embed (ew_tasks w)) = (if ew_embedding w then 1 else 0)"

lemma coalesced_same: "ew_embedding w' = ew_embedding w \<and> ew_tasks w' = ew_tasks w \<Longrightarrow> coalesced w \<Longrightarrow> coalesced w'"
  by (simp add: coalesced_def)

lemma coalesced_may_spawn: "may_spawn_embedding eg w w' \<Longrightarrow> coalesced w \<Longrightarrow> coalesced w'"
  by (auto simp: may_spawn_embedding_def coalesced_def)

lemma coalesced_job_task:
  "ew_embedding w' = ew_embedding w \<Longrightarrow> ew_tasks w' = ew_tasks w @ [t] \<Longrightarrow> \<not> is_embed t \<Longrightarrow> coalesced w \<Longrightarrow> coalesced w'"
  by (simp add: coalesced_def)

lemma create_job_flag: "create_job eg kind w = (i, w') \<Longrightarrow> ew_embedding w' = ew_embedding w \<and> ew_tasks w' = ew_tasks w"
  by (auto simp: create_job_def Let_def dest: keeps_flag(4) split: prod.splits)

lemma start_flag:
  "start_processing eg input w = (rp, w') \<Longrightarrow> ew_embedding w' = ew_embedding w \<and> (\<exists>t. ew_tasks w' = ew_tasks w @ [t] \<and> \<not> is_embed t)"
  "start_reprocessing eg m w = (rp, w') \<Longrightarrow> ew_embedding w' = ew_embedding w \<and> (\<exists>t. ew_tasks w' = ew_tasks w @ [t] \<and> \<not> is_embed t)"
  by (auto simp: start_processing_def start_reprocessing_def spawn_def send_event_def split: prod.splits
      dest!: create_job_flag)

lemma cancel_flag: "cancel_job i w = (rp, w') \<Longrightarrow> ew_embedding w' = ew_embedding w \<and> ew_tasks w' = ew_tasks w"
  by (auto simp: cancel_job_def get_job_def split: prod.splits bool.splits option.splits dest!: keeps_flag(5))

lemma dispatch_coalesced:
  assumes "dispatch eg rq w = (rp, w')" "coalesced w"
  shows "coalesced w'"
proof (cases "only_reads rq")
  case True
  then show ?thesis using only_reads_effect [OF assms(1)] coalesced_may_spawn assms(2) by blast
next
  case False
  then consider input where "rq = RqProcessMeeting input" | i where "rq = RqCancelJob i" | m where "rq = RqReprocessMeeting m"
    by (cases rq) auto
  then show ?thesis
  proof cases
    case 1
    then show ?thesis using start_flag(1) [of eg input w rp w'] assms coalesced_job_task [of w' w] by auto
  next
    case 2
    then show ?thesis using cancel_flag [of i w rp w'] assms coalesced_same [of w' w] by simp
  next
    case 3
    then show ?thesis using start_flag(2) [of eg m w rp w'] assms coalesced_job_task [of w' w] by auto
  qed
qed

lemma update_job_flag: "ew_embedding (update_job eg i f w) = ew_embedding w"
  by (simp add: update_job_def on_jobs_def on_main_def Let_def)

lemma run_embedding_flag: "\<not> ew_embedding (run_embedding eg model w)"
  by (simp add: run_embedding_def Let_def split: prod.splits)

lemma pipeline_flag: "\<not> is_embed t \<Longrightarrow> ew_embedding (run_task eg t w) = ew_embedding w"
  by (cases t) (simp_all add: on_main_def split_beta)

lemma run_task_coalesced:
  assumes "coalesced w" "ew_tasks w = ts @ t # ts'"
  shows "coalesced (run_task eg t (w\<lparr> ew_tasks := ts @ ts' \<rparr>))"
proof (cases "is_embed t")
  case True
  then obtain model where "t = TaskEmbed model" by (cases t) auto
  then show ?thesis
    using assms run_embedding_flag [of eg model] run_embedding_effect(2) [of eg model "w\<lparr> ew_tasks := ts @ ts' \<rparr>"]
    by (auto simp: coalesced_def split: if_splits)
next
  case False
  have "ew_tasks (run_task eg t (w\<lparr> ew_tasks := ts @ ts' \<rparr>)) = ts @ ts'"
    using False by (cases t) (simp_all add: on_main_jobs)
  then show ?thesis using assms False pipeline_flag [OF False, of eg "w\<lparr> ew_tasks := ts @ ts' \<rparr>"] by (simp add: coalesced_def)
qed

lemma recover_statuses_flag:
  "recover_statuses eg rows w = (n, w') \<Longrightarrow> ew_embedding w' = ew_embedding w \<and> ew_tasks w' = ew_tasks w"
  by (induction rows arbitrary: w n) (auto dest!: keeps_flag(2) split: prod.splits if_splits)

lemma close_job_flag [simp]: "ew_embedding (close_job eg j reason w) = ew_embedding w"
  by (simp add: close_job_def store_job_def on_jobs_def on_main_def Let_def split_beta)

lemma resumable_flag: "resumable eg j w = (b, w') \<Longrightarrow> ew_embedding w' = ew_embedding w"
  by (auto simp: resumable_def split: option.splits prod.splits dest!: keeps_flag(2))

lemma recover_job_coalesced:
  assumes "recover_job eg j w = (n, w')" "coalesced w"
  shows "coalesced w'"
proof -
  have flag: "ew_embedding w' = ew_embedding w"
    using assms(1)
    by (auto simp: recover_job_def spawn_def split: if_splits prod.splits option.splits
        dest!: keeps_flag(4) resumable_flag)
  from recover_job_effect [OF assms(1)] show ?thesis
    using assms(2) flag by (auto simp: coalesced_def)
qed

lemma startup_coalesced: "coalesced (startup eg w)"
proof -
  obtain n w1 where 1: "recover_interrupted eg (engine_new w) = (n, w1)" by (metis surj_pair)
  have "ew_embedding w1 = ew_embedding (engine_new w) \<and> ew_tasks w1 = ew_tasks (engine_new w)"
    using 1 by (auto simp: recover_interrupted_def split: prod.splits sum.splits dest!: keeps_flag(2) recover_statuses_flag)
  then have w1: "coalesced w1" by (simp add: coalesced_def engine_new_def)
  have each: "recover_each eg js v = (k, v') \<Longrightarrow> coalesced v \<Longrightarrow> coalesced v'" for js v k v'
    by (induction js arbitrary: v k) (auto split: prod.splits dest: recover_job_coalesced)
  obtain k w2 where 2: "recover_jobs eg w1 = (k, w2)" by (metis surj_pair)
  then have "coalesced w2" using w1 each by (auto simp: recover_jobs_def split: option.splits if_splits)
  then show ?thesis by (simp add: startup_def 1 2)
qed

text \<open>C31. Overlapping searches never start two embedding passes: in every state the engine reaches, the flag is
  set exactly when a pass is pending, and then it is the only one.\<close>

theorem embedding_coalesced:
  assumes "(engine_step eg)\<^sup>*\<^sup>* (startup eg w0) w"
  shows "length (filter is_embed (ew_tasks w)) = (if ew_embedding w then 1 else 0)"
proof -
  have "coalesced w"
    using assms
  proof (induction rule: rtranclp_induct)
    case base
    show ?case by (rule startup_coalesced)
  next
    case (step w w')
    from step.hyps(2) step.IH show ?case
      by (cases rule: engine_step.cases) (auto intro: dispatch_coalesced run_task_coalesced startup_coalesced)
  qed
  then show ?thesis by (simp add: coalesced_def)
qed

theorem embedding_coalesced_witness:
  "length (filter is_embed (ew_tasks (snd demo_served))) = (if ew_embedding (snd demo_served) then 1 else 0)"
proof -
  have "dispatch demo_engine demo_request (startup demo_engine demo_start) = (fst demo_served, snd demo_served)"
    unfolding demo_served_def by (rule prod.collapse [symmetric])
  from r_into_rtranclp [where r = "engine_step demo_engine", OF engine_step.serve [OF this]]
  show ?thesis by (rule embedding_coalesced)
qed

section \<open>Asking\<close>

lemma on_index_triple:
  assumes "outE (\<lambda>w. iw_db w = db) m (\<lambda>x w. iw_db w = db \<and> P x) (\<lambda>_ w. iw_db w = db)"
    and "on_index m w = (r, w')" "ew_index w = db"
  shows "ew_index w' = db" and "r = Inr x \<Longrightarrow> P x"
proof -
  let ?w = "\<lparr> iw_db = ew_index w, iw_tick = ew_sql_tick w, iw_ext = wd_ext (ew_main w) \<rparr>"
  obtain r' v where m: "m ?w = (r', v)" by (metis surj_pair)
  then have w': "r = r'" "ew_index w' = iw_db v" using assms(2) by (auto simp: on_index_def)
  have "iw_db v = db \<and> (\<forall>x. r = Inr x \<longrightarrow> P x)"
  proof (cases r')
    case (Inl e)
    then show ?thesis using outE_err [OF assms(1) _ m [unfolded Inl]] w'(1) assms(3) by simp
  next
    case (Inr y)
    then show ?thesis using outE_ok [OF assms(1) _ m [unfolded Inr]] w'(1) assms(3) by simp
  qed
  then show "ew_index w' = db" and "r = Inr x \<Longrightarrow> P x" using w'(2) by auto
qed

text \<open>The passages of the index: those found by full text and those found by their embeddings.\<close>

definition indexed_passages :: "index_db \<Rightarrow> passage set" where
  "indexed_passages d = set (ix_chunks d) \<union> (er_passage \<circ> snd) ` set (ix_embeddings d)"

lemma on_ext_index: "on_ext f w = (x, w') \<Longrightarrow> ew_index w' = ew_index w"
  by (auto simp: on_ext_def on_main_def split: prod.splits)

lemma find_passages_indexed:
  assumes "retriever_ok (eg_retriever eg)" "find_passages eg query dir limit w = (Inr ps, w')"
  shows "length ps \<le> limit \<and> set ps \<subseteq> indexed_passages (ew_index w')"
proof -
  obtain v w1 where r: "on_index (retrieve_hybrid (eg_retriever eg) (eg_sql_fault eg) query limit v) w1 = (Inr ps, w')"
    using assms(2) by (auto simp: find_passages_def split: prod.splits)
  have t: "outE (\<lambda>w. iw_db w = ew_index w1) (retrieve_hybrid (eg_retriever eg) (eg_sql_fault eg) query limit v)
     (\<lambda>ps w. iw_db w = ew_index w1 \<and> (length ps \<le> limit \<and> set ps \<subseteq> indexed_passages (ew_index w1)))
     (\<lambda>_ w. iw_db w = ew_index w1)"
    by (rule outE_conseq [OF retrieve_hybrid_triple [OF assms(1)]])
      (auto simp: indexed_passages_def split: if_splits)
  from on_index_triple [OF t r refl] show ?thesis by simp
qed

text \<open>C16. Asking always answers: whatever fails - the synchronisation, the embedder, the retrieval, the model -
  the response is an answer with a text; it cites at most six passages, each one a passage of the index,
  and names exactly their notes.\<close>

theorem ask_always_answers:
  assumes "retriever_ok (eg_retriever eg)" "dispatch eg (RqAsk question dir) w = (rp, w')"
  shows "\<exists>a ps. rp = RpAnswer a \<and> trim (an_text a) \<noteq> [] \<and> an_citations a = map citation_of ps
    \<and> length ps \<le> 6 \<and> set ps \<subseteq> indexed_passages (ew_index w') \<and> set (an_files_read a) = pg_path ` set ps"
proof -
  obtain r w1 where 1: "find_passages eg question dir DEFAULT_TOP_K w = (r, w1)" by (metis surj_pair)
  define ps where "ps = (case r of Inr ps \<Rightarrow> ps | Inl _ \<Rightarrow> [])"
  obtain a where 2: "on_ext (answer (eg_generate eg) question ps (mo_qa (cf_models (eg_config eg)))) w1 = (a, w')"
    and rp: "rp = RpAnswer a"
    using assms(2) 1 by (auto simp: ask_vault_def Let_def ps_def split: prod.splits)
  have "a = fst (answer (eg_generate eg) question ps (mo_qa (cf_models (eg_config eg))) (wd_ext (ew_main w1)))"
    using 2 by (auto simp: on_ext_def on_main_def split: prod.splits)
  then have a: "an_citations a = map citation_of ps" "an_files_read a = rev (remdups (rev (map pg_path ps)))"
    "trim (an_text a) \<noteq> []"
    using answer_shape [of "eg_generate eg" question ps "mo_qa (cf_models (eg_config eg))" "wd_ext (ew_main w1)"]
    by (simp_all only: simp_thms not_False_eq_True)
  have "length ps \<le> 6 \<and> set ps \<subseteq> indexed_passages (ew_index w')"
    using find_passages_indexed [OF assms(1), of question dir DEFAULT_TOP_K w] 1 on_ext_index [OF 2]
    by (auto simp: ps_def DEFAULT_TOP_K_def split: sum.splits)
  then show ?thesis using rp a by (intro exI [of _ a] exI [of _ ps]) simp
qed

theorem ask_always_answers_witness:
  "\<exists>a. fst (dispatch demo_engine (RqAsk (lit ''what?'') (lit ''/v'')) demo_dead) = RpAnswer a \<and> trim (an_text a) \<noteq> []"
proof -
  have "retriever_ok (eg_retriever demo_engine)"
    by (auto simp: demo_engine_def retriever_ok_def demo_retriever_def dest: in_set_takeD)
  from ask_always_answers [OF this prod.collapse [symmetric]] show ?thesis by blast
qed

end
