(* ===== verification/Ipc_Server.thy ===== *)
theory Ipc_Server
  imports Engine_Queries
begin

text \<open>
  The connection loop of the IPC server (\<open>engine/src/ipc/server.rs\<close>). The JSON layer is the parameter
  \<open>wire\<close>. A connection reads the lines that arrive until the stream ends or fails; what the rest of the
  engine does between two lines is the parameter \<open>between\<close>. Responses and events go through one channel
  to one writer: what the writer receives is some interleaving of the two.
\<close>

section \<open>The loop\<close>

record wire =
  wi_decode :: "ustr \<Rightarrow> ustr + request_envelope"
  wi_encode :: "response_envelope \<Rightarrow> ustr option"
  wi_encode_event :: "event_envelope \<Rightarrow> ustr option"

definition reply :: "request_id \<Rightarrow> response \<Rightarrow> response_envelope" where
  "reply i rp = \<lparr> pe_protocol_version = PROTOCOL_VERSION, pe_request_id = i, pe_response = rp \<rparr>"

definition version_mismatch :: "32 word \<Rightarrow> response" where
  "version_mismatch v = RpError (lit ''protocol version mismatch: engine v'' @ show_nat (unat PROTOCOL_VERSION)
     @ lit '', client v'' @ show_nat (unat v))"

definition serve_line :: "wire \<Rightarrow> 's engine \<Rightarrow> ustr \<Rightarrow> ('s, response_envelope) engine_op" where
  "serve_line wr eg line w = (case wi_decode wr line of
     Inr q \<Rightarrow>
       if qe_protocol_version q \<noteq> PROTOCOL_VERSION
       then (reply (qe_request_id q) (version_mismatch (qe_protocol_version q)), w)
       else (case dispatch eg (qe_request q) w of (rp, w) \<Rightarrow> (reply (qe_request_id q) rp, w))
   | Inl e \<Rightarrow> (reply (RequestId []) (RpError (lit ''malformed request: '' @ e)), w))"

text \<open>\<open>gone k\<close>: the writer has stopped before the \<open>k\<close>-th message could be handed to it.\<close>

fun serve_lines :: "wire \<Rightarrow> 's engine \<Rightarrow> (nat \<Rightarrow> bool) \<Rightarrow> (nat \<Rightarrow> 's engine_world \<Rightarrow> 's engine_world) \<Rightarrow> nat
    \<Rightarrow> ustr list \<Rightarrow> ('s, ustr list) engine_op" where
  "serve_lines wr eg gone between k [] w = ([], w)"
| "serve_lines wr eg gone between k (line # lines) w =
     (if trim line = [] then serve_lines wr eg gone between k lines w
      else case serve_line wr eg line (between k w) of (env, w) \<Rightarrow>
        (case wi_encode wr env of
           None \<Rightarrow> serve_lines wr eg gone between (k + 1) lines w
         | Some out \<Rightarrow> if gone k then ([], w)
             else (case serve_lines wr eg gone between (k + 1) lines w of (outs, w) \<Rightarrow> (out # outs, w))))"

section \<open>Events and the writer\<close>

datatype received = ReceivedEvent event | ReceivedLagged nat | ReceivedClosed

text \<open>The forwarder: a lagging receiver goes on, a closed channel ends it.\<close>

fun forward_events :: "wire \<Rightarrow> (nat \<Rightarrow> bool) \<Rightarrow> nat \<Rightarrow> received list \<Rightarrow> ustr list" where
  "forward_events wr gone k [] = []"
| "forward_events wr gone k (ReceivedEvent ev # rs) =
     (case wi_encode_event wr \<lparr> ee_protocol_version = PROTOCOL_VERSION, ee_event = ev \<rparr> of
        None \<Rightarrow> forward_events wr gone (k + 1) rs
      | Some line \<Rightarrow> if gone k then [] else line # forward_events wr gone (k + 1) rs)"
| "forward_events wr gone k (ReceivedLagged n # rs) = forward_events wr gone k rs"
| "forward_events wr gone k (ReceivedClosed # rs) = []"

text \<open>\<open>write_all\<close>: it fails before all bytes are out, or it does not fail. \<open>cut\<close> is the number of bytes after
  which the connection breaks during the call, if it does.\<close>

fun write_all :: "nat option \<Rightarrow> nat list \<Rightarrow> bool \<times> nat list" where
  "write_all None bytes = (True, bytes)"
| "write_all (Some n) bytes = (if n < length bytes then (False, take n bytes) else (True, bytes))"

text \<open>
  The outgoing side of a connection: what the request loop and the forwarder still have to send, the queue
  of the channel, whose messages are tagged with where they come from (\<open>True\<close> for a response), whether the
  writer still runs, and the bytes that have left.
\<close>

record outgoing =
  og_responses :: "ustr list"
  og_events :: "ustr list"
  og_queue :: "(bool \<times> ustr) list"
  og_writing :: bool
  og_bytes :: "nat list"

definition outgoing_new :: "ustr list \<Rightarrow> ustr list \<Rightarrow> outgoing" where
  "outgoing_new responses events = \<lparr> og_responses = responses, og_events = events, og_queue = [],
     og_writing = True, og_bytes = [] \<rparr>"

text \<open>The next response or event is sent into the channel; when the writer is gone that fails and ends the
  sender.\<close>

definition send_response :: "outgoing \<Rightarrow> outgoing" where
  "send_response c = (case og_responses c of [] \<Rightarrow> c
     | line # lines \<Rightarrow> if og_writing c then c\<lparr> og_responses := lines, og_queue := og_queue c @ [(True, line)] \<rparr>
         else c\<lparr> og_responses := [] \<rparr>)"

definition forward_event :: "outgoing \<Rightarrow> outgoing" where
  "forward_event c = (case og_events c of [] \<Rightarrow> c
     | line # lines \<Rightarrow> if og_writing c then c\<lparr> og_events := lines, og_queue := og_queue c @ [(False, line)] \<rparr>
         else c\<lparr> og_events := [] \<rparr>)"

text \<open>One round of the writer's loop: the next message and its newline; a write that fails ends the loop.\<close>

definition writer :: "nat option \<Rightarrow> nat option \<Rightarrow> outgoing \<Rightarrow> outgoing" where
  "writer cut_line cut_newline c =
     (if \<not> og_writing c then c
      else case og_queue c of [] \<Rightarrow> c
      | (_, line) # queue \<Rightarrow>
          let c = c\<lparr> og_queue := queue \<rparr> in
          case write_all cut_line (as_bytes line) of (ok, sent) \<Rightarrow>
            if \<not> ok then c\<lparr> og_bytes := og_bytes c @ sent, og_writing := False \<rparr>
            else (case write_all cut_newline [nl] of (ok, nl_sent) \<Rightarrow>
              c\<lparr> og_bytes := og_bytes c @ sent @ nl_sent, og_writing := ok \<rparr>))"

text \<open>The three tasks take turns in any order.\<close>

datatype turn = SendResponse | ForwardEvent | WriteNext "nat option" "nat option"

fun take_turn :: "turn \<Rightarrow> outgoing \<Rightarrow> outgoing" where
  "take_turn SendResponse c = send_response c"
| "take_turn ForwardEvent c = forward_event c"
| "take_turn (WriteNext cut_line cut_newline) c = writer cut_line cut_newline c"

definition connection :: "turn list \<Rightarrow> ustr list \<Rightarrow> ustr list \<Rightarrow> outgoing" where
  "connection turns responses events = fold take_turn turns (outgoing_new responses events)"

section \<open>Replies\<close>

definition reply_id :: "wire \<Rightarrow> ustr \<Rightarrow> request_id" where
  "reply_id wr line = (case wi_decode wr line of Inr q \<Rightarrow> qe_request_id q | Inl _ \<Rightarrow> RequestId [])"

lemma serve_line_reply:
  "serve_line wr eg line w = (env, w') \<Longrightarrow> pe_request_id env = reply_id wr line \<and> pe_protocol_version env = PROTOCOL_VERSION"
  by (auto simp: serve_line_def reply_id_def reply_def split: sum.splits if_splits prod.splits)

text \<open>C36. Each request gets its reply: on a connection that stays open, every line that is not blank is answered
  with exactly one message, in the order of the lines, which carries the request's own id (the empty id
  when the line cannot be read) and the engine's protocol version.\<close>

theorem one_reply_per_request:
  assumes "\<forall>env. wi_encode wr env \<noteq> None" "\<forall>k. \<not> gone k"
    and "serve_lines wr eg gone between k lines w = (outs, w')"
  shows "\<exists>envs. outs = map (\<lambda>env. the (wi_encode wr env)) envs
    \<and> map pe_request_id envs = map (reply_id wr) (filter (\<lambda>l. trim l \<noteq> []) lines)
    \<and> (\<forall>env \<in> set envs. pe_protocol_version env = 3)"
  using assms(3)
proof (induction lines arbitrary: k w outs)
  case Nil
  then show ?case by simp
next
  case (Cons line lines)
  show ?case
  proof (cases "trim line = []")
    case True
    then show ?thesis using Cons by simp
  next
    case False
    obtain env w1 where 1: "serve_line wr eg line (between k w) = (env, w1)" by (metis surj_pair)
    obtain rest w2 where 2: "serve_lines wr eg gone between (k + 1) lines w1 = (rest, w2)" by (metis surj_pair)
    obtain line' where e: "wi_encode wr env = Some line'" using assms(1) by blast
    have g: "\<not> gone k" using assms(2) by blast
    have outs: "outs = line' # rest" "w2 = w'" using Cons.prems False 1 2 e g by simp_all
    with Cons.IH [of "k + 1" w1 rest] 2 obtain envs where envs: "rest = map (\<lambda>env. the (wi_encode wr env)) envs"
      "map pe_request_id envs = map (reply_id wr) (filter (\<lambda>l. trim l \<noteq> []) lines)"
      "\<forall>env \<in> set envs. pe_protocol_version env = 3" by blast
    show ?thesis
      using serve_line_reply [OF 1] envs outs e False
      by (intro exI [of _ "env # envs"]) (simp add: PROTOCOL_VERSION_def)
  qed
qed

definition demo_wire :: wire where
  "demo_wire = \<lparr> wi_decode = (\<lambda>l. if l = lit ''{}'' then Inl (lit ''eof'')
       else Inr \<lparr> qe_protocol_version = 3, qe_request_id = RequestId l, qe_request = RqListMeetings \<rparr>),
     wi_encode = (\<lambda>env. Some (request_id_str (pe_request_id env))), wi_encode_event = (\<lambda>_. None) \<rparr>"

definition demo_lines :: "ustr list" where
  "demo_lines = [lit ''1'', lit '' '', lit ''{}'', lit ''2'']"

definition demo_replies :: "ustr list \<times> unit engine_world" where
  "demo_replies = serve_lines demo_wire demo_engine (\<lambda>_. False) (\<lambda>_ w. w) 0 demo_lines demo_start"

theorem one_reply_per_request_witness: "fst demo_replies = [lit ''1'', [], lit ''2'']"
proof -
  have enc: "\<forall>env. wi_encode demo_wire env \<noteq> None" by (simp add: demo_wire_def)
  have run: "serve_lines demo_wire demo_engine (\<lambda>_. False) (\<lambda>_ w. w) 0 demo_lines demo_start = (fst demo_replies, snd demo_replies)"
    by (simp only: demo_replies_def prod.collapse)
  from one_reply_per_request [OF enc _ run] obtain envs where envs:
    "fst demo_replies = map (\<lambda>env. the (wi_encode demo_wire env)) envs"
    "map pe_request_id envs = map (reply_id demo_wire) (filter (\<lambda>l. trim l \<noteq> []) demo_lines)" by auto
  have "filter (\<lambda>l. trim l \<noteq> []) demo_lines = [lit ''1'', lit ''{}'', lit ''2'']"
    by (simp add: trim_eq_Nil_iff lit_def is_whitespace_def demo_lines_def)
  then have "map pe_request_id envs = [RequestId (lit ''1''), RequestId [], RequestId (lit ''2'')]"
    using envs(2) by (simp add: reply_id_def demo_wire_def lit_def)
  then have "map request_id_str (map pe_request_id envs) = [lit ''1'', [], lit ''2'']" by simp
  then show ?thesis using envs(1) by (simp add: demo_wire_def comp_def)
qed

text \<open>A line that is not a request of this protocol version never reaches the engine: a connection that only
  sends such lines leaves the engine as it was.\<close>

theorem rejected_lines_harmless:
  assumes "\<forall>line \<in> set lines. case wi_decode wr line of Inl _ \<Rightarrow> True | Inr q \<Rightarrow> qe_protocol_version q \<noteq> 3"
    and "serve_lines wr eg gone (\<lambda>_ w. w) k lines w = (outs, w')"
  shows "w' = w"
  using assms
proof (induction lines arbitrary: k outs)
  case (Cons line lines)
  have "snd (serve_line wr eg line w) = w"
    using Cons.prems(1) by (auto simp: serve_line_def PROTOCOL_VERSION_def split: sum.splits)
  then show ?case using Cons.IH Cons.prems
    by (auto split: if_splits prod.splits option.splits)
qed simp

theorem rejected_lines_harmless_witness:
  "snd (serve_lines demo_wire demo_engine (\<lambda>_. False) (\<lambda>_ w. w) 0 [lit ''{}'', lit ''{}''] demo_start) = demo_start"
  by (rule rejected_lines_harmless [OF _ prod.collapse [symmetric]]) (simp add: demo_wire_def)

section \<open>Framing\<close>

lemma split_on_line: "nl \<notin> set l \<Longrightarrow> split_on (\<lambda>c. c = nl) (l @ nl # s) = l # split_on (\<lambda>c. c = nl) s"
  by (induction l) auto

text \<open>The bytes of whole messages.\<close>

definition framed :: "(bool \<times> ustr) list \<Rightarrow> nat list" where
  "framed q = concat (map (\<lambda>m. as_bytes (snd m) @ [nl]) q)"

lemma framed_simps: "framed [] = []" "framed (q @ [m]) = framed q @ as_bytes (snd m) @ [nl]"
  by (simp_all add: framed_def)

lemma split_framed:
  assumes "\<forall>m \<in> set q. nl \<notin> set (snd m)" "nl \<notin> set rest"
  shows "split_on (\<lambda>c. c = nl) (framed q @ rest) = map (\<lambda>m. as_bytes (snd m)) q @ [rest]"
  using assms(1)
proof (induction q)
  case Nil
  have "split_on (\<lambda>c. c = nl) rest = [rest]" using assms(2) by (intro split_on_none) auto
  then show ?case by (simp add: framed_simps)
next
  case (Cons m q)
  have "nl \<notin> set (as_bytes (snd m))" using Cons.prems by (simp add: as_bytes_ascii)
  from split_on_line [OF this, of "framed q @ rest"] Cons show ?case by (simp add: framed_def)
qed

text \<open>What was sent into the channel: whole messages that left, the one the writer stopped at if it did, and
  the queue.\<close>

definition of_source :: "bool \<Rightarrow> (bool \<times> ustr) list \<Rightarrow> ustr list" where
  "of_source b q = map snd (filter (\<lambda>m. fst m = b) q)"

lemma of_source_simps: "of_source b [] = []" "of_source b (m # q) = (if fst m = b then [snd m] else []) @ of_source b q"
  "of_source b (q @ q') = of_source b q @ of_source b q'"
  by (simp_all add: of_source_def)

definition delivered :: "ustr list \<Rightarrow> ustr list \<Rightarrow> outgoing \<Rightarrow> (bool \<times> ustr) list \<Rightarrow> nat list \<Rightarrow> bool" where
  "delivered responses events c q rest \<longleftrightarrow> og_bytes c = framed q @ rest \<and> (if og_writing c then
       rest = [] \<and> of_source True (q @ og_queue c) @ og_responses c = responses
         \<and> of_source False (q @ og_queue c) @ og_events c = events
     else \<exists>m. prefix rest (as_bytes (snd m)) \<and> prefix (of_source True (q @ [m])) responses
         \<and> prefix (of_source False (q @ [m])) events)"

lemma delivered_new: "delivered responses events (outgoing_new responses events) [] []"
  by (simp add: delivered_def outgoing_new_def framed_simps of_source_simps)

lemma delivered_writer:
  assumes "delivered responses events c q rest"
  shows "\<exists>q rest. delivered responses events (writer a b c) q rest"
proof (cases "og_writing c \<and> og_queue c \<noteq> []")
  case False
  then show ?thesis using assms by (auto simp: writer_def)
next
  case True
  then obtain m queue where m: "og_queue c = m # queue" by (cases "og_queue c") auto
  have c: "og_bytes c = framed q" "of_source True (q @ m # queue) @ og_responses c = responses"
    "of_source False (q @ m # queue) @ og_events c = events"
    using assms True m by (simp_all add: delivered_def)
  have upto: "prefix (of_source True (q @ [m])) responses" "prefix (of_source False (q @ [m])) events"
    unfolding c(2,3) [symmetric] by (simp_all add: of_source_simps)
  obtain ok sent where w: "write_all a (as_bytes (snd m)) = (ok, sent)" by (metis surj_pair)
  have sent: "prefix sent (as_bytes (snd m))" "ok \<Longrightarrow> sent = as_bytes (snd m)"
    using w by (cases a; auto simp: take_is_prefix split: if_splits)+
  obtain ok' sent' where w': "write_all b [nl] = (ok', sent')" by (metis surj_pair)
  have sent': "if ok' then sent' = [nl] else sent' = []" using w' by (cases b) (auto split: if_splits)
  have run: "writer a b c = (if \<not> ok then c\<lparr> og_queue := queue, og_bytes := og_bytes c @ sent, og_writing := False \<rparr>
      else c\<lparr> og_queue := queue, og_bytes := og_bytes c @ sent @ sent', og_writing := ok' \<rparr>)"
    using True m w w' by (cases m) (simp add: writer_def)
  show ?thesis
  proof (cases "ok \<and> ok'")
    case True
    then show ?thesis using run sent(2) sent' c
      by (intro exI [of _ "q @ [m]"] exI [of _ "[]"]) (simp add: delivered_def framed_simps of_source_simps)
  next
    case False
    then have "og_bytes (writer a b c) = framed q @ sent" "\<not> og_writing (writer a b c)"
      using run sent' c(1) by (auto split: if_splits)
    then have "delivered responses events (writer a b c) q sent"
      unfolding delivered_def using sent(1) upto by (simp del: split_paired_Ex) blast
    then show ?thesis by blast
  qed
qed

lemma delivered_send:
  assumes "delivered responses events c q rest"
  shows "delivered responses events (send_response c) q rest" "delivered responses events (forward_event c) q rest"
proof -
  have same: "og_bytes (send_response c) = og_bytes c" "og_writing (send_response c) = og_writing c"
    "og_bytes (forward_event c) = og_bytes c" "og_writing (forward_event c) = og_writing c"
    by (simp_all add: send_response_def forward_event_def split: list.split)
  have "delivered responses events (send_response c) q rest \<and> delivered responses events (forward_event c) q rest"
  proof (cases "og_writing c")
    case True
    then show ?thesis using assms
      by (auto simp: delivered_def send_response_def forward_event_def of_source_simps split: list.split)
  next
    case False
    then show ?thesis using assms same unfolding delivered_def by (simp del: split_paired_Ex)
  qed
  then show "delivered responses events (send_response c) q rest" "delivered responses events (forward_event c) q rest"
    by blast+
qed

lemma delivered_turns: "\<exists>q rest. delivered responses events (connection turns responses events) q rest"
proof -
  have "\<exists>q rest. delivered responses events (fold take_turn turns c) q rest"
    if "\<exists>q rest. delivered responses events c q rest" for c
    using that
  proof (induction turns arbitrary: c)
    case (Cons t turns)
    obtain q rest where d: "delivered responses events c q rest" using Cons.prems by blast
    have "\<exists>q rest. delivered responses events (take_turn t c) q rest"
    proof (cases t)
      case (WriteNext x y)
      then show ?thesis using delivered_writer [OF d, of x y] by (simp only: take_turn.simps)
    qed (use delivered_send [OF d] in \<open>simp_all only: take_turn.simps, blast+\<close>)
    from Cons.IH [OF this] show ?case by (simp only: fold_simps)
  qed (simp only: fold_simps)
  from this [of "outgoing_new responses events"] show ?thesis using delivered_new unfolding connection_def by blast
qed

text \<open>The lines of a connection: no encoded message contains a newline.\<close>

definition one_line :: "wire \<Rightarrow> bool" where
  "one_line wr \<longleftrightarrow> (\<forall>env line. wi_encode wr env = Some line \<longrightarrow> nl \<notin> set line)
     \<and> (\<forall>env line. wi_encode_event wr env = Some line \<longrightarrow> nl \<notin> set line)"

lemma serve_lines_one_line:
  "one_line wr \<Longrightarrow> serve_lines wr eg gone between k lines w = (outs, w') \<Longrightarrow> \<forall>l \<in> set outs. nl \<notin> set l"
proof (induction lines arbitrary: k w outs w')
  case Nil
  then show ?case by simp
next
  case (Cons line lines)
  show ?case
  proof (cases "trim line = []")
    case True
    then show ?thesis using Cons by simp
  next
    case False
    obtain env w1 where 1: "serve_line wr eg line (between k w) = (env, w1)" by (metis surj_pair)
    obtain rest w2 where 2: "serve_lines wr eg gone between (k + 1) lines w1 = (rest, w2)" by (metis surj_pair)
    have rest: "\<forall>l \<in> set rest. nl \<notin> set l" using Cons.IH [OF Cons.prems(1) 2] .
    show ?thesis
    proof (cases "wi_encode wr env")
      case None
      then have "outs = rest" using Cons.prems(2) False 1 2 by simp
      then show ?thesis using rest by simp
    next
      case (Some line')
      then have "nl \<notin> set line'" using Cons.prems(1) unfolding one_line_def by blast
      moreover have "outs = [] \<or> outs = line' # rest" using Cons.prems(2) False 1 2 Some by (simp split: if_splits)
      ultimately show ?thesis using rest by auto
    qed
  qed
qed

lemma forward_events_one_line:
  assumes "one_line wr"
  shows "\<forall>l \<in> set (forward_events wr gone k rs). nl \<notin> set l"
proof -
  have "nl \<notin> set line" if "wi_encode_event wr env = Some line" for env line
    using assms that unfolding one_line_def by blast
  then show ?thesis by (induction wr gone k rs rule: forward_events.induct) (auto split: option.splits)
qed

text \<open>C37. Messages reach the client whole and in order. Let the request loop, the event forwarder and the writer of a
  connection take turns in any order, and let the connection break in any write, after any number of bytes.
  A client that cuts the bytes it has received at the newlines gets whole messages, of which the responses
  are the first ones the request loop produced, in order, and the events the first ones that were forwarded, in order; after them comes
  a rest without a newline, which is empty while nothing has broken and otherwise the beginning of the next
  message. While nothing has broken, all responses have arrived once they have been sent and the queue is
  empty. Relied on is that an encoded JSON message contains no newline.\<close>

theorem messages_arrive_whole:
  assumes "one_line wr" "serve_lines wr eg gone between k lines w = (responses, w')"
    and "forward_events wr gone' k' received = events"
    and "connection turns responses events = c"
  shows "\<exists>q rest. split_on (\<lambda>b. b = nl) (og_bytes c) = map (\<lambda>m. as_bytes (snd m)) q @ [rest]
    \<and> prefix (map snd (filter fst q)) responses \<and> prefix (map snd (filter (\<lambda>m. \<not> fst m) q)) events
    \<and> (if og_writing c
       then rest = [] \<and> (og_responses c = [] \<and> og_queue c = [] \<longrightarrow> map snd (filter fst q) = responses)
       else \<exists>m. prefix rest (as_bytes (snd m)) \<and> prefix (map snd (filter fst (q @ [m]))) responses
          \<and> prefix (map snd (filter (\<lambda>m. \<not> fst m) (q @ [m]))) events)"
proof -
  have lines: "\<forall>l \<in> set responses \<union> set events. nl \<notin> set l"
    using serve_lines_one_line [OF assms(1,2)] forward_events_one_line [OF assms(1), of gone' k' received] assms(3) by auto
  have src: "of_source True q = map snd (filter fst q)" "of_source False q = map snd (filter (\<lambda>m. \<not> fst m) q)" for q
    by (simp_all add: of_source_def)
  obtain q rest where d: "delivered responses events c q rest" using delivered_turns assms(4) by metis
  have pre: "prefix (of_source True q) responses \<and> prefix (of_source False q) events"
  proof (cases "og_writing c")
    case True
    then have "of_source True q @ (of_source True (og_queue c) @ og_responses c) = responses"
      "of_source False q @ (of_source False (og_queue c) @ og_events c) = events"
      using d by (simp_all add: delivered_def of_source_simps)
    then show ?thesis by (metis prefixI)
  next
    case False
    then obtain m where "prefix (of_source True (q @ [m])) responses" "prefix (of_source False (q @ [m])) events"
      using d unfolding delivered_def if_not_P [OF False] by blast
    then show ?thesis unfolding of_source_simps(3) by (metis append_prefixD)
  qed
  have q: "\<forall>m \<in> set q. nl \<notin> set (snd m)"
  proof
    fix m assume "m \<in> set q"
    then have "snd m \<in> set (of_source (fst m) q)" by (auto simp: of_source_def)
    then have "snd m \<in> set responses \<union> set events"
      using set_mono_prefix [OF conjunct1 [OF pre]] set_mono_prefix [OF conjunct2 [OF pre]] by (cases "fst m") auto
    then show "nl \<notin> set (snd m)" using lines by blast
  qed
  have "nl \<notin> set rest"
  proof (cases "og_writing c")
    case True
    then show ?thesis using d by (simp add: delivered_def)
  next
    case False
    then obtain m where m: "prefix rest (as_bytes (snd m))" "prefix (of_source True (q @ [m])) responses"
      "prefix (of_source False (q @ [m])) events" using d unfolding delivered_def if_not_P [OF False] by blast
    have "snd m \<in> set (of_source (fst m) (q @ [m]))" by (simp add: of_source_simps)
    then have "snd m \<in> set responses \<union> set events"
      using set_mono_prefix [OF m(2)] set_mono_prefix [OF m(3)] by (cases "fst m") auto
    then have "nl \<notin> set (as_bytes (snd m))" using lines by (simp add: as_bytes_ascii)
    then show ?thesis using set_mono_prefix [OF m(1)] by blast
  qed
  note split = split_framed [OF q this]
  have bytes: "og_bytes c = framed q @ rest" using d by (simp add: delivered_def)
  have "if og_writing c
       then rest = [] \<and> (og_responses c = [] \<and> og_queue c = [] \<longrightarrow> of_source True q = responses)
       else \<exists>m. prefix rest (as_bytes (snd m)) \<and> prefix (of_source True (q @ [m])) responses
          \<and> prefix (of_source False (q @ [m])) events"
  proof (cases "og_writing c")
    case True
    then show ?thesis using d by (auto simp: delivered_def)
  next
    case False
    then show ?thesis using d unfolding delivered_def if_not_P [OF False] by blast
  qed
  then show ?thesis using split pre unfolding bytes src by blast
qed

text \<open>Two replies and an event; the connection breaks after the first byte of the last message.\<close>

definition demo_turns :: "turn list" where
  "demo_turns = [SendResponse, ForwardEvent, WriteNext None None, SendResponse, WriteNext None None, WriteNext (Some 1) None]"

definition demo_event_wire :: wire where
  "demo_event_wire = demo_wire\<lparr> wi_encode := \<lambda>env. Some (lit ''reply''), wi_encode_event := \<lambda>_. Some (lit ''event'') \<rparr>"

theorem messages_arrive_whole_witness:
  "\<exists>rs w' c. serve_lines demo_event_wire demo_engine (\<lambda>_. False) (\<lambda>_ w. w) 0 [lit ''{}'', lit ''{}''] demo_start = (rs, w')
    \<and> connection demo_turns rs (forward_events demo_event_wire (\<lambda>_. False) 0 [ReceivedEvent (EvJobCreated demo_job)]) = c
    \<and> split_on (\<lambda>b. b = nl) (og_bytes c) = [lit ''reply'', lit ''event'', lit ''r'']
    \<and> (\<exists>q. prefix (map snd (filter fst q)) [lit ''reply'', lit ''reply''] \<and> length q = 2)"
proof -
  have one: "one_line demo_event_wire" by (simp add: one_line_def demo_event_wire_def lit_def)
  have trim: "trim (lit ''{}'') \<noteq> []" by (simp add: trim_eq_Nil_iff lit_def is_whitespace_def)
  have run: "serve_lines demo_event_wire demo_engine (\<lambda>_. False) (\<lambda>_ w. w) 0 [lit ''{}'', lit ''{}''] demo_start
      = ([lit ''reply'', lit ''reply''], demo_start)"
    using trim by (simp add: serve_line_def demo_event_wire_def demo_wire_def)
  have events: "forward_events demo_event_wire (\<lambda>_. False) 0 [ReceivedEvent (EvJobCreated demo_job)] = [lit ''event'']"
    by (simp add: demo_event_wire_def)
  let ?c = "connection demo_turns [lit ''reply'', lit ''reply''] [lit ''event'']"
  have bytes: "og_bytes ?c = lit ''reply'' @ [nl] @ lit ''event'' @ [nl] @ lit ''r''"
    by (simp add: connection_def demo_turns_def outgoing_new_def send_response_def forward_event_def writer_def
        as_bytes_def lit_def)
  then have cut: "split_on (\<lambda>b. b = nl) (og_bytes ?c) = [lit ''reply'', lit ''event'', lit ''r'']"
    by (simp add: lit_def)
  from messages_arrive_whole [OF one run events refl, of demo_turns] obtain q rest where
    q: "split_on (\<lambda>b. b = nl) (og_bytes ?c) = map (\<lambda>m. as_bytes (snd m)) q @ [rest]"
    "prefix (map snd (filter fst q)) [lit ''reply'', lit ''reply'']" by blast
  have "length q = 2" using arg_cong [OF q(1), of length] unfolding cut by simp
  then show ?thesis using run events cut q(2)
    by (intro exI [of _ "[lit ''reply'', lit ''reply'']"] exI [of _ demo_start] exI [of _ ?c]) auto
qed

end
