(* ===== verification/Serde.thy ===== *)
theory Serde
  imports Ai_Extraction Rust_Ieee
begin

text \<open>
  The JSON form of the domain types, as the \<open>Serialize\<close> and \<open>Deserialize\<close> derives with their attributes
  define it (\<open>engine/src/domain\<close>, \<open>engine/src/ai/findings.rs\<close>): \<open>default\<close>, \<open>skip_serializing_if\<close>,
  \<open>rename_all\<close>. Values only; their text is left to \<open>serde_json\<close>. A derived struct reads an object, in
  which unknown members are ignored and a known one may appear once, or an array of its fields in
  order. A double that is not finite is written as null, so a value is read back exactly when its
  doubles are finite. The locale \<open>serde\<close> is that contract, with the derived forms of \<open>Vec\<close> and \<open>Option\<close>.
\<close>

section \<open>What the derives generate\<close>

type_synonym members = "(ustr \<times> json) list"

fun from_str :: "json \<Rightarrow> ustr option" where
  "from_str (JStr s) = Some s"
| "from_str _ = None"

fun from_bool :: "json \<Rightarrow> bool option" where
  "from_bool (JBool b) = Some b"
| "from_bool _ = None"

fun to_f64 :: "f64 \<Rightarrow> json" where
  "to_f64 (Finite r) = JNum (Finite r)"
| "to_f64 _ = JNull"

fun from_f64 :: "json \<Rightarrow> f64 option" where
  "from_f64 (JNum x) = Some x"
| "from_f64 (JInt n) = Some (round_to binary64 (of_int n))"
| "from_f64 _ = None"

fun from_u32 :: "json \<Rightarrow> 32 word option" where
  "from_u32 (JInt n) = (if 0 \<le> n \<and> n < 2 ^ 32 then Some (word_of_int n) else None)"
| "from_u32 _ = None"

fun from_usize :: "json \<Rightarrow> nat option" where
  "from_usize (JInt n) = (if 0 \<le> n \<and> n < 2 ^ 64 then Some (nat n) else None)"
| "from_usize _ = None"

definition u32_to_json :: "32 word \<Rightarrow> json" where
  "u32_to_json n = JInt (uint n)"

definition usize_to_json :: "nat \<Rightarrow> json" where
  "usize_to_json n = JInt (int n)"

definition to_option :: "('a \<Rightarrow> json) \<Rightarrow> 'a option \<Rightarrow> json" where
  "to_option f v = (case v of None \<Rightarrow> JNull | Some x \<Rightarrow> f x)"

definition from_option :: "(json \<Rightarrow> 'a option) \<Rightarrow> json \<Rightarrow> 'a option option" where
  "from_option d j = (if j = JNull then Some None else map_option Some (d j))"

fun traverse :: "('a \<Rightarrow> 'b option) \<Rightarrow> 'a list \<Rightarrow> 'b list option" where
  "traverse d [] = Some []"
| "traverse d (x # xs) = Option.bind (d x) (\<lambda>y. map_option ((#) y) (traverse d xs))"

definition from_vec :: "(json \<Rightarrow> 'a option) \<Rightarrow> json \<Rightarrow> 'a list option" where
  "from_vec d j = (case j of JArr vs \<Rightarrow> traverse d vs | _ \<Rightarrow> None)"

text \<open>A unit variant is its name, or an object with that single member and a null.\<close>

definition from_variant :: "(ustr \<times> 'a) list \<Rightarrow> json \<Rightarrow> 'a option" where
  "from_variant names j = (case j of JStr s \<Rightarrow> map_of names s | JObj [(s, JNull)] \<Rightarrow> map_of names s | _ \<Rightarrow> None)"

text \<open>Members of an object being written: always, or unless empty.\<close>

definition member :: "string \<Rightarrow> json \<Rightarrow> members" where
  "member k v = [(lit k, v)]"

definition opt_member :: "string \<Rightarrow> ('a \<Rightarrow> json) \<Rightarrow> 'a option \<Rightarrow> members" where
  "opt_member k f v = (case v of None \<Rightarrow> [] | Some x \<Rightarrow> [(lit k, f x)])"

definition vec_member :: "string \<Rightarrow> ('a \<Rightarrow> json) \<Rightarrow> 'a list \<Rightarrow> members" where
  "vec_member k f xs = (if xs = [] then [] else [(lit k, JArr (map f xs))])"

text \<open>Fields of a struct being read: without and with a default.\<close>

definition required_field :: "(json \<Rightarrow> 'a option) \<Rightarrow> string \<Rightarrow> members \<Rightarrow> 'a option" where
  "required_field d k ms = Option.bind (map_of ms (lit k)) d"

definition defaulted :: "'a \<Rightarrow> (json \<Rightarrow> 'a option) \<Rightarrow> string \<Rightarrow> members \<Rightarrow> 'a option" where
  "defaulted x d k ms = (case map_of ms (lit k) of None \<Rightarrow> Some x | Some v \<Rightarrow> d v)"

abbreviation optional :: "(json \<Rightarrow> 'a option) \<Rightarrow> string \<Rightarrow> members \<Rightarrow> 'a option option" where
  "optional d \<equiv> defaulted None (from_option d)"

definition unique_members :: "ustr list \<Rightarrow> members \<Rightarrow> bool" where
  "unique_members known ms \<longleftrightarrow> list_all (\<lambda>k. length (filter (\<lambda>m. fst m = k) ms) \<le> 1) known"

definition object_members :: "string list \<Rightarrow> json \<Rightarrow> members option" where
  "object_members known j = (case j of
     JObj ms \<Rightarrow> if unique_members (map lit known) ms then Some ms else None | _ \<Rightarrow> None)"

definition struct_members :: "string list \<Rightarrow> json \<Rightarrow> members option" where
  "struct_members known j = (case j of
     JArr vs \<Rightarrow> if length vs \<le> length known then Some (zip (map lit known) vs) else None
   | _ \<Rightarrow> object_members known j)"

section \<open>The contract\<close>

definition absent :: "string \<Rightarrow> members \<Rightarrow> bool" where
  "absent k ms \<longleftrightarrow> map_of ms (lit k) = None"

locale serde =
  fixes to_json :: "'a \<Rightarrow> json" and from_json :: "json \<Rightarrow> 'a option" and plain :: "'a \<Rightarrow> bool"
  assumes from_to: "plain x \<Longrightarrow> from_json (to_json x) = Some x"
    and not_null: "plain x \<Longrightarrow> to_json x \<noteq> JNull"
begin

lemma vec: "list_all plain xs \<Longrightarrow> from_vec from_json (JArr (map to_json xs)) = Some xs"
proof -
  assume "list_all plain xs"
  then have "traverse from_json (map to_json xs) = Some xs" by (induction xs) (auto simp: from_to)
  then show ?thesis by (simp add: from_vec_def)
qed

lemma option: "pred_option plain v \<Longrightarrow> from_option from_json (to_option to_json v) = Some v"
  by (cases v) (simp_all add: from_option_def to_option_def from_to not_null)

lemma some: "plain x \<Longrightarrow> from_option from_json (to_json x) = Some (Some x)"
  by (simp add: from_option_def from_to not_null)

lemma optional_skip:
  "pred_option plain v \<Longrightarrow> absent k ms \<Longrightarrow> optional from_json k (opt_member k to_json v @ ms) = Some v"
  by (cases v) (simp_all add: defaulted_def opt_member_def some absent_def)

lemma vec_skip:
  "list_all plain xs \<Longrightarrow> absent k ms
    \<Longrightarrow> defaulted [] (from_vec from_json) k (vec_member k to_json xs @ ms) = Some xs"
  by (simp add: defaulted_def vec_member_def vec absent_def)

lemmas skip_last = optional_skip [where ms = "[]", simplified absent_def append_Nil2 map_of.simps simp_thms]
  vec_skip [where ms = "[]", simplified absent_def append_Nil2 map_of.simps simp_thms]

end

interpretation str: serde JStr from_str "\<lambda>_. True"
  by unfold_locales simp_all

interpretation bool: serde JBool from_bool "\<lambda>_. True"
  by unfold_locales simp_all

definition finite_f64 :: "f64 \<Rightarrow> bool" where
  "finite_f64 x \<longleftrightarrow> (\<exists>r. x = Finite r)"

interpretation double: serde to_f64 from_f64 finite_f64
  by unfold_locales (auto simp: finite_f64_def)

interpretation u32: serde u32_to_json from_u32 "\<lambda>_. True"
  using uint_bounded [where ?'a = 32] by unfold_locales (auto simp: u32_to_json_def)

interpretation usize: serde usize_to_json from_usize "\<lambda>n. n < 2 ^ 64"
proof
  fix n :: nat assume "n < 2 ^ 64"
  then have "int n < int (2 ^ 64)" by (simp only: of_nat_less_iff)
  then show "from_usize (usize_to_json n) = Some n" by (simp add: usize_to_json_def)
qed (simp add: usize_to_json_def)

text \<open>Reading the members that were written, one at a time.\<close>

lemma map_of_members:
  "map_of (member k v @ ms) (lit k') = (if k' = k then Some v else map_of ms (lit k'))"
  "k' \<noteq> k \<Longrightarrow> map_of (opt_member k f w @ ms) (lit k') = map_of ms (lit k')"
  "k' \<noteq> k \<Longrightarrow> map_of (vec_member k g xs @ ms) (lit k') = map_of ms (lit k')"
  by (auto simp: member_def opt_member_def vec_member_def lit_eq_iff split: option.splits)

lemma absent_members [simp]:
  "absent k []"
  "absent k' (member k v @ ms) \<longleftrightarrow> k' \<noteq> k \<and> absent k' ms"
  "k' \<noteq> k \<Longrightarrow> absent k' (opt_member k f w @ ms) \<longleftrightarrow> absent k' ms"
  "k' \<noteq> k \<Longrightarrow> absent k' (vec_member k g xs @ ms) \<longleftrightarrow> absent k' ms"
  by (simp_all add: absent_def map_of_members del: map_of_append)

lemmas absent_last [simp] = absent_members(2-4) [where ms = "[]", simplified append_Nil2 absent_members(1) simp_thms]

lemma field_members [simp]:
  "required_field d k' (member k v @ ms) = (if k' = k then d v else required_field d k' ms)"
  "k' \<noteq> k \<Longrightarrow> required_field d k' (opt_member k f w @ ms) = required_field d k' ms"
  "k' \<noteq> k \<Longrightarrow> required_field d k' (vec_member k g xs @ ms) = required_field d k' ms"
  "defaulted x d' k' (member k v @ ms) = (if k' = k then d' v else defaulted x d' k' ms)"
  "k' \<noteq> k \<Longrightarrow> defaulted x d' k' (opt_member k f w @ ms) = defaulted x d' k' ms"
  "k' \<noteq> k \<Longrightarrow> defaulted x d' k' (vec_member k g xs @ ms) = defaulted x d' k' ms"
  by (simp_all add: required_field_def defaulted_def map_of_members del: map_of_append)

text \<open>The members of an object, some left out, come in the order of the fields.\<close>

definition in_order :: "members \<Rightarrow> string list \<Rightarrow> bool" where
  "in_order ms known \<longleftrightarrow> subseq (map fst ms) (map lit known)"

lemma in_order_members [simp]:
  "in_order [] ks"
  "in_order ms ks \<Longrightarrow> in_order (member k v @ ms) (k # ks)"
  "in_order ms ks \<Longrightarrow> in_order (opt_member k f w @ ms) (k # ks)"
  "in_order ms ks \<Longrightarrow> in_order (vec_member k g xs @ ms) (k # ks)"
  by (auto simp: in_order_def member_def opt_member_def vec_member_def split: option.splits)

lemmas in_order_last [simp] = in_order_members(2-4) [where ms = "[]", simplified]

lemma unique_subseq:
  assumes "subseq (map fst ms) ks" "distinct ks"
  shows "unique_members known ms"
proof -
  have d: "distinct (map fst ms)" using assms by (auto simp: subseq_conv_nths distinct_nthsI)
  have "length (filter (\<lambda>m. fst m = k) ms) \<le> 1" for k
    using d by (induction ms) (force simp: filter_empty_conv)+
  then show ?thesis by (simp add: unique_members_def list_all_iff)
qed

lemma members_read:
  assumes "in_order ms every" "distinct every"
  shows "object_members known (JObj ms) = Some ms" "struct_members known (JObj ms) = Some ms"
proof -
  have "distinct (map lit every)" using assms(2) by (simp add: distinct_map inj_on_def lit_eq_iff)
  then show "object_members known (JObj ms) = Some ms" "struct_members known (JObj ms) = Some ms"
    using unique_subseq [OF assms(1) [unfolded in_order_def]] by (simp_all add: object_members_def struct_members_def)
qed

lemmas members_written = members_read [where every = known and known = known for known]

lemma field_Nil [simp]: "required_field d k [] = None" "defaulted x d' k [] = Some x"
  by (simp_all add: required_field_def defaulted_def)

lemmas field_last [simp] = field_members [where ms = "[]", simplified]

lemmas serde_simps = members_written str.optional_skip str.skip_last double.optional_skip double.skip_last
  str.from_to double.from_to lit_eq_iff option.pred_True list.pred_True

end
