(* ===== verification/Serde_Domain.thy ===== *)
theory Serde_Domain
  imports Serde
begin

text \<open>
  The JSON form of the Meeting IR, the findings and the transcript: one pair of functions per struct,
  in the order of its fields, and the interpretation of the contract of \<open>Serde\<close> on it.
\<close>

section \<open>The Meeting IR\<close>

definition participant_to_json :: "participant \<Rightarrow> json" where
  "participant_to_json p = JObj (
     member ''id'' (JStr (pt_id p)) @
     opt_member ''display_name'' JStr (pt_display_name p))"

definition participant_from_json :: "json \<Rightarrow> participant option" where
  "participant_from_json j = Option.bind (struct_members
       [''id'', ''display_name''] j) (\<lambda>ms.
     Option.bind (required_field from_str ''id'' ms) (\<lambda>x.
     Option.bind (optional from_str ''display_name'' ms) (\<lambda>y.
     Some \<lparr> pt_id = x, pt_display_name = y \<rparr>)))"

definition evidence_to_json :: "evidence \<Rightarrow> json" where
  "evidence_to_json e = JObj (
     member ''quote'' (JStr (ev_quote e)) @
     opt_member ''speaker_id'' JStr (ev_speaker_id e) @
     opt_member ''start'' to_f64 (ev_start e) @
     opt_member ''end'' to_f64 (ev_end e) @
     opt_member ''chunk_id'' JStr (ev_chunk_id e))"

definition evidence_from_json :: "json \<Rightarrow> evidence option" where
  "evidence_from_json j = Option.bind (struct_members
       [''quote'', ''speaker_id'', ''start'', ''end'', ''chunk_id''] j) (\<lambda>ms.
     Option.bind (required_field from_str ''quote'' ms) (\<lambda>x.
     Option.bind (optional from_str ''speaker_id'' ms) (\<lambda>y.
     Option.bind (optional from_f64 ''start'' ms) (\<lambda>z.
     Option.bind (optional from_f64 ''end'' ms) (\<lambda>u.
     Option.bind (optional from_str ''chunk_id'' ms) (\<lambda>v.
     Some \<lparr> ev_quote = x, ev_speaker_id = y, ev_start = z, ev_end = u, ev_chunk_id = v \<rparr>))))))"

definition evidence_plain :: "evidence \<Rightarrow> bool" where
  "evidence_plain e \<longleftrightarrow> pred_option finite_f64 (ev_start e) \<and> pred_option finite_f64 (ev_end e)"

definition topic_to_json :: "topic \<Rightarrow> json" where
  "topic_to_json t = JObj (
     member ''title'' (JStr (tp_title t)) @
     opt_member ''summary'' JStr (tp_summary t) @
     vec_member ''evidence'' evidence_to_json (tp_evidence t) @
     opt_member ''confidence'' to_f64 (tp_confidence t))"

definition topic_from_json :: "json \<Rightarrow> topic option" where
  "topic_from_json j = Option.bind (struct_members
       [''title'', ''summary'', ''evidence'', ''confidence''] j) (\<lambda>ms.
     Option.bind (required_field from_str ''title'' ms) (\<lambda>x.
     Option.bind (optional from_str ''summary'' ms) (\<lambda>y.
     Option.bind (defaulted [] (from_vec evidence_from_json) ''evidence'' ms) (\<lambda>z.
     Option.bind (optional from_f64 ''confidence'' ms) (\<lambda>u.
     Some \<lparr> tp_title = x, tp_summary = y, tp_evidence = z, tp_confidence = u \<rparr>)))))"

definition topic_plain :: "topic \<Rightarrow> bool" where
  "topic_plain t \<longleftrightarrow> list_all evidence_plain (tp_evidence t) \<and> pred_option finite_f64 (tp_confidence t)"

definition decision_to_json :: "decision \<Rightarrow> json" where
  "decision_to_json d = JObj (
     member ''decision'' (JStr (dc_decision d)) @
     opt_member ''context'' JStr (dc_context d) @
     vec_member ''evidence'' evidence_to_json (dc_evidence d) @
     opt_member ''confidence'' to_f64 (dc_confidence d))"

definition decision_from_json :: "json \<Rightarrow> decision option" where
  "decision_from_json j = Option.bind (struct_members
       [''decision'', ''context'', ''evidence'', ''confidence''] j) (\<lambda>ms.
     Option.bind (required_field from_str ''decision'' ms) (\<lambda>x.
     Option.bind (optional from_str ''context'' ms) (\<lambda>y.
     Option.bind (defaulted [] (from_vec evidence_from_json) ''evidence'' ms) (\<lambda>z.
     Option.bind (optional from_f64 ''confidence'' ms) (\<lambda>u.
     Some \<lparr> dc_decision = x, dc_context = y, dc_evidence = z, dc_confidence = u \<rparr>)))))"

definition decision_plain :: "decision \<Rightarrow> bool" where
  "decision_plain d \<longleftrightarrow> list_all evidence_plain (dc_evidence d) \<and> pred_option finite_f64 (dc_confidence d)"

definition action_statuses :: "(ustr \<times> action_status) list" where
  "action_statuses = [(lit ''open'', ActionOpen), (lit ''in_progress'', ActionInProgress),
     (lit ''done'', ActionDone), (lit ''cancelled'', ActionCancelled)]"

fun action_status_to_json :: "action_status \<Rightarrow> json" where
  "action_status_to_json ActionOpen = jstr ''open''"
| "action_status_to_json ActionInProgress = jstr ''in_progress''"
| "action_status_to_json ActionDone = jstr ''done''"
| "action_status_to_json ActionCancelled = jstr ''cancelled''"

definition action_item_to_json :: "action_item \<Rightarrow> json" where
  "action_item_to_json a = JObj (
     member ''description'' (JStr (ai_description a)) @
     opt_member ''owner'' JStr (ai_owner a) @
     opt_member ''deadline'' JStr (ai_deadline a) @
     member ''status'' (action_status_to_json (ai_status a)) @
     vec_member ''evidence'' evidence_to_json (ai_evidence a) @
     opt_member ''confidence'' to_f64 (ai_confidence a))"

definition action_item_from_json :: "json \<Rightarrow> action_item option" where
  "action_item_from_json j = Option.bind (struct_members
       [''description'', ''owner'', ''deadline'', ''status'', ''evidence'', ''confidence''] j) (\<lambda>ms.
     Option.bind (required_field from_str ''description'' ms) (\<lambda>x.
     Option.bind (optional from_str ''owner'' ms) (\<lambda>y.
     Option.bind (optional from_str ''deadline'' ms) (\<lambda>z.
     Option.bind (defaulted ActionOpen (from_variant action_statuses) ''status'' ms) (\<lambda>u.
     Option.bind (defaulted [] (from_vec evidence_from_json) ''evidence'' ms) (\<lambda>v.
     Option.bind (optional from_f64 ''confidence'' ms) (\<lambda>w.
     Some \<lparr> ai_description = x, ai_owner = y, ai_deadline = z, ai_status = u, ai_evidence = v, ai_confidence = w \<rparr>)))))))"

definition action_item_plain :: "action_item \<Rightarrow> bool" where
  "action_item_plain a \<longleftrightarrow> list_all evidence_plain (ai_evidence a) \<and> pred_option finite_f64 (ai_confidence a)"

definition open_question_to_json :: "open_question \<Rightarrow> json" where
  "open_question_to_json q = JObj (
     member ''question'' (JStr (oq_question q)) @
     opt_member ''context'' JStr (oq_context q) @
     vec_member ''evidence'' evidence_to_json (oq_evidence q) @
     opt_member ''confidence'' to_f64 (oq_confidence q))"

definition open_question_from_json :: "json \<Rightarrow> open_question option" where
  "open_question_from_json j = Option.bind (struct_members
       [''question'', ''context'', ''evidence'', ''confidence''] j) (\<lambda>ms.
     Option.bind (required_field from_str ''question'' ms) (\<lambda>x.
     Option.bind (optional from_str ''context'' ms) (\<lambda>y.
     Option.bind (defaulted [] (from_vec evidence_from_json) ''evidence'' ms) (\<lambda>z.
     Option.bind (optional from_f64 ''confidence'' ms) (\<lambda>u.
     Some \<lparr> oq_question = x, oq_context = y, oq_evidence = z, oq_confidence = u \<rparr>)))))"

definition open_question_plain :: "open_question \<Rightarrow> bool" where
  "open_question_plain q \<longleftrightarrow> list_all evidence_plain (oq_evidence q) \<and> pred_option finite_f64 (oq_confidence q)"

definition risk_to_json :: "risk \<Rightarrow> json" where
  "risk_to_json r = JObj (
     member ''description'' (JStr (rk_description r)) @
     opt_member ''severity'' JStr (rk_severity r) @
     vec_member ''evidence'' evidence_to_json (rk_evidence r) @
     opt_member ''confidence'' to_f64 (rk_confidence r))"

definition risk_from_json :: "json \<Rightarrow> risk option" where
  "risk_from_json j = Option.bind (struct_members
       [''description'', ''severity'', ''evidence'', ''confidence''] j) (\<lambda>ms.
     Option.bind (required_field from_str ''description'' ms) (\<lambda>x.
     Option.bind (optional from_str ''severity'' ms) (\<lambda>y.
     Option.bind (defaulted [] (from_vec evidence_from_json) ''evidence'' ms) (\<lambda>z.
     Option.bind (optional from_f64 ''confidence'' ms) (\<lambda>u.
     Some \<lparr> rk_description = x, rk_severity = y, rk_evidence = z, rk_confidence = u \<rparr>)))))"

definition risk_plain :: "risk \<Rightarrow> bool" where
  "risk_plain r \<longleftrightarrow> list_all evidence_plain (rk_evidence r) \<and> pred_option finite_f64 (rk_confidence r)"

definition meeting_ir_to_json :: "meeting_ir \<Rightarrow> json" where
  "meeting_ir_to_json i = JObj (
     member ''summary'' (JStr (ir_summary i)) @
     member ''participants'' (JArr (map participant_to_json (ir_participants i))) @
     member ''topics'' (JArr (map topic_to_json (ir_topics i))) @
     member ''decisions'' (JArr (map decision_to_json (ir_decisions i))) @
     member ''action_items'' (JArr (map action_item_to_json (ir_action_items i))) @
     member ''open_questions'' (JArr (map open_question_to_json (ir_open_questions i))) @
     member ''risks'' (JArr (map risk_to_json (ir_risks i))))"

definition meeting_ir_from_json :: "json \<Rightarrow> meeting_ir option" where
  "meeting_ir_from_json j = Option.bind (struct_members
       [''summary'', ''participants'', ''topics'', ''decisions'', ''action_items'', ''open_questions'', ''risks''] j) (\<lambda>ms.
     Option.bind (required_field from_str ''summary'' ms) (\<lambda>x.
     Option.bind (defaulted [] (from_vec participant_from_json) ''participants'' ms) (\<lambda>y.
     Option.bind (defaulted [] (from_vec topic_from_json) ''topics'' ms) (\<lambda>z.
     Option.bind (defaulted [] (from_vec decision_from_json) ''decisions'' ms) (\<lambda>u.
     Option.bind (defaulted [] (from_vec action_item_from_json) ''action_items'' ms) (\<lambda>v.
     Option.bind (defaulted [] (from_vec open_question_from_json) ''open_questions'' ms) (\<lambda>w.
     Option.bind (defaulted [] (from_vec risk_from_json) ''risks'' ms) (\<lambda>p.
     Some \<lparr> ir_summary = x, ir_participants = y, ir_topics = z, ir_decisions = u, ir_action_items = v, ir_open_questions = w, ir_risks = p \<rparr>))))))))"

definition meeting_ir_plain :: "meeting_ir \<Rightarrow> bool" where
  "meeting_ir_plain i \<longleftrightarrow> 
     list_all topic_plain (ir_topics i)
     \<and> list_all decision_plain (ir_decisions i)
     \<and> list_all action_item_plain (ir_action_items i)
     \<and> list_all open_question_plain (ir_open_questions i)
     \<and> list_all risk_plain (ir_risks i)"

definition chunk_findings_to_json :: "chunk_findings \<Rightarrow> json" where
  "chunk_findings_to_json f = JObj (
     member ''chunk_id'' (JStr (cf_chunk_id f)) @
     member ''topics'' (JArr (map topic_to_json (cf_topics f))) @
     member ''decisions'' (JArr (map decision_to_json (cf_decisions f))) @
     member ''action_items'' (JArr (map action_item_to_json (cf_action_items f))) @
     member ''open_questions'' (JArr (map open_question_to_json (cf_open_questions f))) @
     member ''risks'' (JArr (map risk_to_json (cf_risks f))))"

definition chunk_findings_from_json :: "json \<Rightarrow> chunk_findings option" where
  "chunk_findings_from_json j = Option.bind (struct_members
       [''chunk_id'', ''topics'', ''decisions'', ''action_items'', ''open_questions'', ''risks''] j) (\<lambda>ms.
     Option.bind (defaulted [] from_str ''chunk_id'' ms) (\<lambda>x.
     Option.bind (defaulted [] (from_vec topic_from_json) ''topics'' ms) (\<lambda>y.
     Option.bind (defaulted [] (from_vec decision_from_json) ''decisions'' ms) (\<lambda>z.
     Option.bind (defaulted [] (from_vec action_item_from_json) ''action_items'' ms) (\<lambda>u.
     Option.bind (defaulted [] (from_vec open_question_from_json) ''open_questions'' ms) (\<lambda>v.
     Option.bind (defaulted [] (from_vec risk_from_json) ''risks'' ms) (\<lambda>w.
     Some \<lparr> cf_chunk_id = x, cf_topics = y, cf_decisions = z, cf_action_items = u, cf_open_questions = v, cf_risks = w \<rparr>)))))))"

definition chunk_findings_plain :: "chunk_findings \<Rightarrow> bool" where
  "chunk_findings_plain f \<longleftrightarrow> 
     list_all topic_plain (cf_topics f)
     \<and> list_all decision_plain (cf_decisions f)
     \<and> list_all action_item_plain (cf_action_items f)
     \<and> list_all open_question_plain (cf_open_questions f)
     \<and> list_all risk_plain (cf_risks f)"

section \<open>Transcripts\<close>

definition segment_to_json :: "transcript_segment \<Rightarrow> json" where
  "segment_to_json s = JObj (
     opt_member ''speaker_id'' JStr (sg_speaker_id s) @
     member ''start'' (to_f64 (sg_start s)) @
     member ''end'' (to_f64 (sg_end s)) @
     member ''text'' (JStr (sg_text s)) @
     opt_member ''language'' JStr (sg_language s) @
     opt_member ''confidence'' to_f64 (sg_confidence s))"

definition segment_from_json :: "json \<Rightarrow> transcript_segment option" where
  "segment_from_json j = Option.bind (struct_members
       [''speaker_id'', ''start'', ''end'', ''text'', ''language'', ''confidence''] j) (\<lambda>ms.
     Option.bind (optional from_str ''speaker_id'' ms) (\<lambda>x.
     Option.bind (required_field from_f64 ''start'' ms) (\<lambda>y.
     Option.bind (required_field from_f64 ''end'' ms) (\<lambda>z.
     Option.bind (required_field from_str ''text'' ms) (\<lambda>u.
     Option.bind (optional from_str ''language'' ms) (\<lambda>v.
     Option.bind (optional from_f64 ''confidence'' ms) (\<lambda>w.
     Some \<lparr> sg_speaker_id = x, sg_start = y, sg_end = z, sg_text = u, sg_language = v, sg_confidence = w \<rparr>)))))))"

definition segment_plain :: "transcript_segment \<Rightarrow> bool" where
  "segment_plain s \<longleftrightarrow> finite_f64 (sg_start s) \<and> finite_f64 (sg_end s) \<and> pred_option finite_f64 (sg_confidence s)"

definition transcript_to_json :: "transcript \<Rightarrow> json" where
  "transcript_to_json t = JObj (
     member ''segments'' (JArr (map segment_to_json (tr_segments t))))"

definition transcript_from_json :: "json \<Rightarrow> transcript option" where
  "transcript_from_json j = Option.bind (struct_members
       [''segments''] j) (\<lambda>ms.
     Option.bind (required_field (from_vec segment_from_json) ''segments'' ms) (\<lambda>x.
     Some \<lparr> tr_segments = x \<rparr>))"

definition transcript_plain :: "transcript \<Rightarrow> bool" where
  "transcript_plain t \<longleftrightarrow> list_all segment_plain (tr_segments t)"

section \<open>Every struct is read back\<close>

interpretation participant: serde participant_to_json participant_from_json "\<lambda>_. True"
proof
  fix p :: participant
  show "participant_from_json (participant_to_json p) = Some p"
    by (simp add: participant_to_json_def participant_from_json_def
        serde_simps)
qed (simp add: participant_to_json_def)

interpretation evidence: serde evidence_to_json evidence_from_json evidence_plain
proof
  fix e :: evidence assume "evidence_plain e"
  then show "evidence_from_json (evidence_to_json e) = Some e"
    by (simp add: evidence_to_json_def evidence_from_json_def evidence_plain_def serde_simps)
qed (simp add: evidence_to_json_def)

interpretation topic: serde topic_to_json topic_from_json topic_plain
proof
  fix t :: topic assume "topic_plain t"
  then show "topic_from_json (topic_to_json t) = Some t"
    by (simp add: topic_to_json_def topic_from_json_def topic_plain_def serde_simps evidence.vec_skip)
qed (simp add: topic_to_json_def)

interpretation decision: serde decision_to_json decision_from_json decision_plain
proof
  fix d :: decision assume "decision_plain d"
  then show "decision_from_json (decision_to_json d) = Some d"
    by (simp add: decision_to_json_def decision_from_json_def decision_plain_def serde_simps evidence.vec_skip)
qed (simp add: decision_to_json_def)

interpretation action_status: serde action_status_to_json "from_variant action_statuses" "\<lambda>_. True"
proof
  show "from_variant action_statuses (action_status_to_json x) = Some x" for x
    by (cases x) (simp_all add: from_variant_def action_statuses_def jstr_def lit_eq_iff)
  show "action_status_to_json x \<noteq> JNull" for x by (cases x) (simp_all add: jstr_def)
qed

interpretation action_item: serde action_item_to_json action_item_from_json action_item_plain
proof
  fix a :: action_item assume "action_item_plain a"
  then show "action_item_from_json (action_item_to_json a) = Some a"
    by (simp add: action_item_to_json_def action_item_from_json_def action_item_plain_def serde_simps evidence.vec_skip action_status.from_to)
qed (simp add: action_item_to_json_def)

interpretation open_question: serde open_question_to_json open_question_from_json open_question_plain
proof
  fix q :: open_question assume "open_question_plain q"
  then show "open_question_from_json (open_question_to_json q) = Some q"
    by (simp add: open_question_to_json_def open_question_from_json_def open_question_plain_def serde_simps evidence.vec_skip)
qed (simp add: open_question_to_json_def)

interpretation risk: serde risk_to_json risk_from_json risk_plain
proof
  fix r :: risk assume "risk_plain r"
  then show "risk_from_json (risk_to_json r) = Some r"
    by (simp add: risk_to_json_def risk_from_json_def risk_plain_def serde_simps evidence.vec_skip)
qed (simp add: risk_to_json_def)

lemmas item_vecs = topic.vec decision.vec action_item.vec open_question.vec risk.vec

interpretation meeting_ir: serde meeting_ir_to_json meeting_ir_from_json meeting_ir_plain
proof
  fix i :: meeting_ir assume "meeting_ir_plain i"
  then show "meeting_ir_from_json (meeting_ir_to_json i) = Some i"
    by (simp add: meeting_ir_to_json_def meeting_ir_from_json_def meeting_ir_plain_def serde_simps participant.vec item_vecs)
qed (simp add: meeting_ir_to_json_def)

interpretation chunk_findings: serde chunk_findings_to_json chunk_findings_from_json chunk_findings_plain
proof
  fix f :: chunk_findings assume "chunk_findings_plain f"
  then show "chunk_findings_from_json (chunk_findings_to_json f) = Some f"
    by (simp add: chunk_findings_to_json_def chunk_findings_from_json_def chunk_findings_plain_def serde_simps item_vecs)
qed (simp add: chunk_findings_to_json_def)

interpretation segment: serde segment_to_json segment_from_json segment_plain
proof
  fix s :: transcript_segment assume "segment_plain s"
  then show "segment_from_json (segment_to_json s) = Some s"
    by (simp add: segment_to_json_def segment_from_json_def segment_plain_def serde_simps)
qed (simp add: segment_to_json_def)

interpretation transcript: serde transcript_to_json transcript_from_json transcript_plain
proof
  fix t :: transcript assume "transcript_plain t"
  then show "transcript_from_json (transcript_to_json t) = Some t"
    by (simp add: transcript_to_json_def transcript_from_json_def transcript_plain_def serde_simps segment.vec)
qed (simp add: transcript_to_json_def)

end
