(* ===== verification/Serde_Store.thy ===== *)
theory Serde_Store
  imports Serde_Domain Storage "HOL-Library.Countable"
begin

text \<open>
  The stored JSON (\<open>engine/src/storage/database.rs\<close>): the form of meetings and statuses, the codecs of the
  four kinds of contents as value form and text, and what comes back of a stored value. The text layer
  of \<open>serde_json\<close> is a parameter. Its law: what is printed parses to the same value, except that a double
  may read back as another one, since the crate is built without \<open>float_roundtrip\<close>. A \<open>DateTime<Utc>\<close> is
  written in RFC 3339 by \<open>chrono\<close>, the parameter of that name.
\<close>

section \<open>Meetings and statuses\<close>

record chrono =
  ch_print :: "timestamp \<Rightarrow> ustr"
  ch_parse :: "ustr \<Rightarrow> timestamp option"

definition timed :: "chrono \<Rightarrow> timestamp \<Rightarrow> bool" where
  "timed ch t \<longleftrightarrow> ch_parse ch (ch_print ch t) = Some t"

definition time_to_json :: "chrono \<Rightarrow> timestamp \<Rightarrow> json" where
  "time_to_json ch t = JStr (ch_print ch t)"

definition time_from_json :: "chrono \<Rightarrow> json \<Rightarrow> timestamp option" where
  "time_from_json ch j = Option.bind (from_str j) (ch_parse ch)"

definition meeting_id_to_json :: "meeting_id \<Rightarrow> json" where
  "meeting_id_to_json i = JStr (meeting_id_str i)"

definition meeting_id_from_json :: "json \<Rightarrow> meeting_id option" where
  "meeting_id_from_json j = map_option MeetingId (from_str j)"

definition meeting_to_json :: "chrono \<Rightarrow> meeting \<Rightarrow> json" where
  "meeting_to_json ch m = JObj (
     member ''id'' (meeting_id_to_json (mt_id m)) @
     member ''title'' (JStr (mt_title m)) @
     member ''created_at'' ((time_to_json ch) (mt_created_at m)) @
     opt_member ''occurred_at'' (time_to_json ch) (mt_occurred_at m) @
     member ''participants'' (JArr (map participant_to_json (mt_participants m))) @
     opt_member ''duration_seconds'' to_f64 (mt_duration_seconds m))"

definition meeting_from_json :: "chrono \<Rightarrow> json \<Rightarrow> meeting option" where
  "meeting_from_json ch j = Option.bind (struct_members
       [''id'', ''title'', ''created_at'', ''occurred_at'', ''participants'', ''duration_seconds''] j) (\<lambda>ms.
     Option.bind (required_field meeting_id_from_json ''id'' ms) (\<lambda>x.
     Option.bind (required_field from_str ''title'' ms) (\<lambda>y.
     Option.bind (required_field (time_from_json ch) ''created_at'' ms) (\<lambda>z.
     Option.bind (optional (time_from_json ch) ''occurred_at'' ms) (\<lambda>u.
     Option.bind (defaulted [] (from_vec participant_from_json) ''participants'' ms) (\<lambda>v.
     Option.bind (optional from_f64 ''duration_seconds'' ms) (\<lambda>w.
     Some \<lparr> mt_id = x, mt_title = y, mt_created_at = z, mt_occurred_at = u, mt_participants = v, mt_duration_seconds = w \<rparr>)))))))"

definition meeting_plain :: "chrono \<Rightarrow> meeting \<Rightarrow> bool" where
  "meeting_plain ch m \<longleftrightarrow> timed ch (mt_created_at m) \<and> pred_option (timed ch) (mt_occurred_at m)
     \<and> pred_option finite_f64 (mt_duration_seconds m)"

definition processing_states :: "(ustr \<times> processing_state) list" where
  "processing_states = [(lit ''processing'', Processing), (lit ''ready'', Ready), (lit ''deferred'', Deferred),
     (lit ''failed'', Failed)]"

fun processing_state_to_json :: "processing_state \<Rightarrow> json" where
  "processing_state_to_json Processing = jstr ''processing''"
| "processing_state_to_json Ready = jstr ''ready''"
| "processing_state_to_json Deferred = jstr ''deferred''"
| "processing_state_to_json Failed = jstr ''failed''"

definition failure_kinds :: "(ustr \<times> failure_kind) list" where
  "failure_kinds = [(lit ''temporary'', Temporary), (lit ''permanent'', Permanent)]"

fun failure_kind_to_json :: "failure_kind \<Rightarrow> json" where
  "failure_kind_to_json Temporary = jstr ''temporary''"
| "failure_kind_to_json Permanent = jstr ''permanent''"

definition status_to_json :: "chrono \<Rightarrow> processing_status \<Rightarrow> json" where
  "status_to_json ch s = JObj (
     member ''state'' (processing_state_to_json (ps_state s)) @
     opt_member ''failure_kind'' failure_kind_to_json (ps_failure_kind s) @
     opt_member ''error'' JStr (ps_error s) @
     member ''updated_at'' ((time_to_json ch) (ps_updated_at s)))"

definition status_from_json :: "chrono \<Rightarrow> json \<Rightarrow> processing_status option" where
  "status_from_json ch j = Option.bind (struct_members
       [''state'', ''failure_kind'', ''error'', ''updated_at''] j) (\<lambda>ms.
     Option.bind (required_field (from_variant processing_states) ''state'' ms) (\<lambda>x.
     Option.bind (optional (from_variant failure_kinds) ''failure_kind'' ms) (\<lambda>y.
     Option.bind (optional from_str ''error'' ms) (\<lambda>z.
     Option.bind (required_field (time_from_json ch) ''updated_at'' ms) (\<lambda>u.
     Some \<lparr> ps_state = x, ps_failure_kind = y, ps_error = z, ps_updated_at = u \<rparr>)))))"

definition status_plain :: "chrono \<Rightarrow> processing_status \<Rightarrow> bool" where
  "status_plain ch s \<longleftrightarrow> timed ch (ps_updated_at s)"

interpretation time: serde "time_to_json ch" "time_from_json ch" "timed ch" for ch
  by unfold_locales (simp_all add: time_to_json_def time_from_json_def timed_def)

interpretation meeting_id: serde meeting_id_to_json meeting_id_from_json "\<lambda>_. True"
  by unfold_locales (simp_all add: meeting_id_to_json_def meeting_id_from_json_def)

interpretation processing_state: serde processing_state_to_json "from_variant processing_states" "\<lambda>_. True"
proof
  show "from_variant processing_states (processing_state_to_json x) = Some x" for x
    by (cases x) (simp_all add: from_variant_def processing_states_def jstr_def lit_eq_iff)
  show "processing_state_to_json x \<noteq> JNull" for x by (cases x) (simp_all add: jstr_def)
qed

interpretation failure_kind: serde failure_kind_to_json "from_variant failure_kinds" "\<lambda>_. True"
proof
  show "from_variant failure_kinds (failure_kind_to_json x) = Some x" for x
    by (cases x) (simp_all add: from_variant_def failure_kinds_def jstr_def lit_eq_iff)
  show "failure_kind_to_json x \<noteq> JNull" for x by (cases x) (simp_all add: jstr_def)
qed

lemmas time_simps = time.from_to time.optional_skip time.skip_last meeting_id.from_to

interpretation meeting: serde "meeting_to_json ch" "meeting_from_json ch" "meeting_plain ch" for ch
proof
  fix m assume "meeting_plain ch m"
  then show "meeting_from_json ch (meeting_to_json ch m) = Some m"
    by (simp add: meeting_to_json_def meeting_from_json_def meeting_plain_def serde_simps time_simps participant.vec)
qed (simp add: meeting_to_json_def)

interpretation status: serde "status_to_json ch" "status_from_json ch" "status_plain ch" for ch
proof
  fix s assume "status_plain ch s"
  then show "status_from_json ch (status_to_json ch s) = Some s"
    by (simp add: status_to_json_def status_from_json_def status_plain_def serde_simps time_simps
        processing_state.from_to failure_kind.optional_skip)
qed (simp add: status_to_json_def)

section \<open>What a value reads back as\<close>

text \<open>\<open>\<rho>\<close> says which double the decimal text of a finite one reads back as.\<close>

fun map_f64 :: "(rat \<Rightarrow> rat) \<Rightarrow> f64 \<Rightarrow> f64" where
  "map_f64 \<rho> (Finite r) = Finite (\<rho> r)"
| "map_f64 \<rho> x = x"

primrec map_doubles :: "(rat \<Rightarrow> rat) \<Rightarrow> json \<Rightarrow> json" where
  "map_doubles \<rho> JNull = JNull"
| "map_doubles \<rho> (JBool b) = JBool b"
| "map_doubles \<rho> (JInt n) = JInt n"
| "map_doubles \<rho> (JNum x) = JNum (map_f64 \<rho> x)"
| "map_doubles \<rho> (JStr s) = JStr s"
| "map_doubles \<rho> (JArr vs) = JArr (map (map_doubles \<rho>) vs)"
| "map_doubles \<rho> (JObj ms) = JObj (map (map_prod id (map_doubles \<rho>)) ms)"

definition evidence_doubles :: "(rat \<Rightarrow> rat) \<Rightarrow> evidence \<Rightarrow> evidence" where
  "evidence_doubles \<rho> e = e\<lparr> ev_start := map_option (map_f64 \<rho>) (ev_start e),
     ev_end := map_option (map_f64 \<rho>) (ev_end e) \<rparr>"

definition topic_doubles :: "(rat \<Rightarrow> rat) \<Rightarrow> topic \<Rightarrow> topic" where
  "topic_doubles \<rho> t = t\<lparr> tp_evidence := map (evidence_doubles \<rho>) (tp_evidence t),
     tp_confidence := map_option (map_f64 \<rho>) (tp_confidence t) \<rparr>"

definition decision_doubles :: "(rat \<Rightarrow> rat) \<Rightarrow> decision \<Rightarrow> decision" where
  "decision_doubles \<rho> d = d\<lparr> dc_evidence := map (evidence_doubles \<rho>) (dc_evidence d),
     dc_confidence := map_option (map_f64 \<rho>) (dc_confidence d) \<rparr>"

definition action_item_doubles :: "(rat \<Rightarrow> rat) \<Rightarrow> action_item \<Rightarrow> action_item" where
  "action_item_doubles \<rho> a = a\<lparr> ai_evidence := map (evidence_doubles \<rho>) (ai_evidence a),
     ai_confidence := map_option (map_f64 \<rho>) (ai_confidence a) \<rparr>"

definition open_question_doubles :: "(rat \<Rightarrow> rat) \<Rightarrow> open_question \<Rightarrow> open_question" where
  "open_question_doubles \<rho> q = q\<lparr> oq_evidence := map (evidence_doubles \<rho>) (oq_evidence q),
     oq_confidence := map_option (map_f64 \<rho>) (oq_confidence q) \<rparr>"

definition risk_doubles :: "(rat \<Rightarrow> rat) \<Rightarrow> risk \<Rightarrow> risk" where
  "risk_doubles \<rho> r = r\<lparr> rk_evidence := map (evidence_doubles \<rho>) (rk_evidence r),
     rk_confidence := map_option (map_f64 \<rho>) (rk_confidence r) \<rparr>"

definition meeting_ir_doubles :: "(rat \<Rightarrow> rat) \<Rightarrow> meeting_ir \<Rightarrow> meeting_ir" where
  "meeting_ir_doubles \<rho> i = i\<lparr> ir_topics := map (topic_doubles \<rho>) (ir_topics i),
     ir_decisions := map (decision_doubles \<rho>) (ir_decisions i),
     ir_action_items := map (action_item_doubles \<rho>) (ir_action_items i),
     ir_open_questions := map (open_question_doubles \<rho>) (ir_open_questions i),
     ir_risks := map (risk_doubles \<rho>) (ir_risks i) \<rparr>"

definition segment_doubles :: "(rat \<Rightarrow> rat) \<Rightarrow> transcript_segment \<Rightarrow> transcript_segment" where
  "segment_doubles \<rho> s = s\<lparr> sg_start := map_f64 \<rho> (sg_start s), sg_end := map_f64 \<rho> (sg_end s),
     sg_confidence := map_option (map_f64 \<rho>) (sg_confidence s) \<rparr>"

definition transcript_doubles :: "(rat \<Rightarrow> rat) \<Rightarrow> transcript \<Rightarrow> transcript" where
  "transcript_doubles \<rho> t = t\<lparr> tr_segments := map (segment_doubles \<rho>) (tr_segments t) \<rparr>"

definition meeting_doubles :: "(rat \<Rightarrow> rat) \<Rightarrow> meeting \<Rightarrow> meeting" where
  "meeting_doubles \<rho> m = m\<lparr> mt_duration_seconds := map_option (map_f64 \<rho>) (mt_duration_seconds m) \<rparr>"

text \<open>The contract extended: changing the doubles of the JSON value is changing those of the value.\<close>

locale serde_doubles = serde +
  fixes doubles :: "(rat \<Rightarrow> rat) \<Rightarrow> 'a \<Rightarrow> 'a"
  assumes to_doubles: "map_doubles \<rho> (to_json x) = to_json (doubles \<rho> x)"
    and plain_doubles: "plain x \<Longrightarrow> plain (doubles \<rho> x)"
begin

lemma member_doubles:
  "map (map_prod id (map_doubles \<rho>)) (member k (to_json x)) = member k (to_json (doubles \<rho> x))"
  "map (map_prod id (map_doubles \<rho>)) (opt_member k to_json w) = opt_member k to_json (map_option (doubles \<rho>) w)"
  "map (map_prod id (map_doubles \<rho>)) (vec_member k to_json xs) = vec_member k to_json (map (doubles \<rho>) xs)"
  "map (map_prod id (map_doubles \<rho>)) (member k (JArr (map to_json xs))) = member k (JArr (map to_json (map (doubles \<rho>) xs)))"
  by (simp_all add: member_def opt_member_def vec_member_def to_doubles split: option.split)

lemma vec_plain: "list_all plain xs \<Longrightarrow> list_all plain (map (doubles \<rho>) xs)"
  by (simp add: list_all_iff plain_doubles)

lemma option_plain: "pred_option plain w \<Longrightarrow> pred_option plain (map_option (doubles \<rho>) w)"
  by (cases w) (simp_all add: plain_doubles)

lemma reread: "plain x \<Longrightarrow> from_json (map_doubles \<rho> (to_json x)) = Some (doubles \<rho> x)"
  by (simp add: to_doubles from_to plain_doubles)

end

interpretation str: serde_doubles JStr from_str "\<lambda>_. True" "\<lambda>_ s. s"
  by unfold_locales simp_all

interpretation double: serde_doubles to_f64 from_f64 finite_f64 map_f64
proof
  show "map_doubles \<rho> (to_f64 x) = to_f64 (map_f64 \<rho> x)" for \<rho> x by (cases x) simp_all
qed (auto simp: finite_f64_def)

interpretation time: serde_doubles "time_to_json ch" "time_from_json ch" "timed ch" "\<lambda>_ t. t" for ch
  by unfold_locales (simp_all add: time_to_json_def)

interpretation meeting_id: serde_doubles meeting_id_to_json meeting_id_from_json "\<lambda>_. True" "\<lambda>_ i. i"
  by unfold_locales (simp_all add: meeting_id_to_json_def)

interpretation action_status: serde_doubles action_status_to_json "from_variant action_statuses" "\<lambda>_. True" "\<lambda>_ s. s"
proof
  show "map_doubles \<rho> (action_status_to_json x) = action_status_to_json x" for \<rho> x
    by (cases x) (simp_all add: jstr_def)
qed simp

lemmas base_doubles = str.member_doubles double.member_doubles time.member_doubles meeting_id.member_doubles
  action_status.member_doubles option.map_ident list.map_ident

lemmas base_plain = double.plain_doubles double.option_plain

interpretation participant: serde_doubles participant_to_json participant_from_json "\<lambda>_. True" "\<lambda>_ p. p"
proof
  show "map_doubles \<rho> (participant_to_json p) = participant_to_json (p)" for \<rho> p
    by (simp add: participant_to_json_def base_doubles)
qed simp

interpretation evidence: serde_doubles evidence_to_json evidence_from_json evidence_plain evidence_doubles
proof
  show "map_doubles \<rho> (evidence_to_json e) = evidence_to_json (evidence_doubles \<rho> e)" for \<rho> e
    by (simp add: evidence_to_json_def evidence_doubles_def base_doubles)
  show "evidence_plain e \<Longrightarrow> evidence_plain (evidence_doubles \<rho> e)" for \<rho> e
    by (simp add: evidence_plain_def evidence_doubles_def base_plain)
qed

interpretation topic: serde_doubles topic_to_json topic_from_json topic_plain topic_doubles
proof
  show "map_doubles \<rho> (topic_to_json t) = topic_to_json (topic_doubles \<rho> t)" for \<rho> t
    by (simp add: topic_to_json_def topic_doubles_def base_doubles evidence.member_doubles)
  show "topic_plain t \<Longrightarrow> topic_plain (topic_doubles \<rho> t)" for \<rho> t
    by (simp add: topic_plain_def topic_doubles_def base_plain evidence.vec_plain)
qed

interpretation decision: serde_doubles decision_to_json decision_from_json decision_plain decision_doubles
proof
  show "map_doubles \<rho> (decision_to_json d) = decision_to_json (decision_doubles \<rho> d)" for \<rho> d
    by (simp add: decision_to_json_def decision_doubles_def base_doubles evidence.member_doubles)
  show "decision_plain d \<Longrightarrow> decision_plain (decision_doubles \<rho> d)" for \<rho> d
    by (simp add: decision_plain_def decision_doubles_def base_plain evidence.vec_plain)
qed

interpretation action_item: serde_doubles action_item_to_json action_item_from_json action_item_plain action_item_doubles
proof
  show "map_doubles \<rho> (action_item_to_json a) = action_item_to_json (action_item_doubles \<rho> a)" for \<rho> a
    by (simp add: action_item_to_json_def action_item_doubles_def base_doubles evidence.member_doubles)
  show "action_item_plain a \<Longrightarrow> action_item_plain (action_item_doubles \<rho> a)" for \<rho> a
    by (simp add: action_item_plain_def action_item_doubles_def base_plain evidence.vec_plain)
qed

interpretation open_question: serde_doubles open_question_to_json open_question_from_json open_question_plain open_question_doubles
proof
  show "map_doubles \<rho> (open_question_to_json q) = open_question_to_json (open_question_doubles \<rho> q)" for \<rho> q
    by (simp add: open_question_to_json_def open_question_doubles_def base_doubles evidence.member_doubles)
  show "open_question_plain q \<Longrightarrow> open_question_plain (open_question_doubles \<rho> q)" for \<rho> q
    by (simp add: open_question_plain_def open_question_doubles_def base_plain evidence.vec_plain)
qed

interpretation risk: serde_doubles risk_to_json risk_from_json risk_plain risk_doubles
proof
  show "map_doubles \<rho> (risk_to_json r) = risk_to_json (risk_doubles \<rho> r)" for \<rho> r
    by (simp add: risk_to_json_def risk_doubles_def base_doubles evidence.member_doubles)
  show "risk_plain r \<Longrightarrow> risk_plain (risk_doubles \<rho> r)" for \<rho> r
    by (simp add: risk_plain_def risk_doubles_def base_plain evidence.vec_plain)
qed

lemmas item_doubles = topic.member_doubles decision.member_doubles action_item.member_doubles
  open_question.member_doubles risk.member_doubles

lemmas item_plain = topic.vec_plain decision.vec_plain action_item.vec_plain open_question.vec_plain risk.vec_plain

interpretation meeting_ir: serde_doubles meeting_ir_to_json meeting_ir_from_json meeting_ir_plain meeting_ir_doubles
proof
  show "map_doubles \<rho> (meeting_ir_to_json i) = meeting_ir_to_json (meeting_ir_doubles \<rho> i)" for \<rho> i
    by (simp add: meeting_ir_to_json_def meeting_ir_doubles_def base_doubles item_doubles participant.member_doubles)
  show "meeting_ir_plain i \<Longrightarrow> meeting_ir_plain (meeting_ir_doubles \<rho> i)" for \<rho> i
    by (simp add: meeting_ir_plain_def meeting_ir_doubles_def base_plain item_plain participant.vec_plain)
qed

interpretation segment: serde_doubles segment_to_json segment_from_json segment_plain segment_doubles
proof
  show "map_doubles \<rho> (segment_to_json s) = segment_to_json (segment_doubles \<rho> s)" for \<rho> s
    by (simp add: segment_to_json_def segment_doubles_def base_doubles)
  show "segment_plain s \<Longrightarrow> segment_plain (segment_doubles \<rho> s)" for \<rho> s
    by (simp add: segment_plain_def segment_doubles_def base_plain)
qed

interpretation transcript: serde_doubles transcript_to_json transcript_from_json transcript_plain transcript_doubles
proof
  show "map_doubles \<rho> (transcript_to_json t) = transcript_to_json (transcript_doubles \<rho> t)" for \<rho> t
    by (simp add: transcript_to_json_def transcript_doubles_def base_doubles segment.member_doubles)
  show "transcript_plain t \<Longrightarrow> transcript_plain (transcript_doubles \<rho> t)" for \<rho> t
    by (simp add: transcript_plain_def transcript_doubles_def base_plain segment.vec_plain)
qed

interpretation meeting: serde_doubles "meeting_to_json ch" "meeting_from_json ch" "meeting_plain ch" meeting_doubles for ch
proof
  show "map_doubles \<rho> (meeting_to_json ch m) = meeting_to_json ch (meeting_doubles \<rho> m)" for \<rho> m
    by (simp add: meeting_to_json_def meeting_doubles_def base_doubles participant.member_doubles)
  show "meeting_plain ch m \<Longrightarrow> meeting_plain ch (meeting_doubles \<rho> m)" for \<rho> m
    by (simp add: meeting_plain_def meeting_doubles_def base_plain participant.vec_plain)
qed

section \<open>The text and the codecs\<close>

text \<open>
  \<open>serde_json::to_string\<close> and the parser under \<open>from_str\<close>; the message of a value that does not fit the
  type is the layer's too. The law holds for values without a NaN or an infinity, which no form holds.
\<close>

record json_layer =
  jt_print :: "json \<Rightarrow> ustr"
  jt_parse :: "ustr \<Rightarrow> ustr + json"
  jt_mismatch :: "json \<Rightarrow> ustr"
  jt_double :: "rat \<Rightarrow> rat"

text \<open>What is printed: integers that are an \<open>i64\<close> or a \<open>u64\<close>, finite doubles, and no more nested arrays and
  objects than the parser's recursion limit of 128 lets through.\<close>

fun printable :: "nat \<Rightarrow> json \<Rightarrow> bool" where
  "printable d (JInt n) \<longleftrightarrow> - (2 ^ 63) \<le> n \<and> n < 2 ^ 64"
| "printable d (JNum x) \<longleftrightarrow> finite_f64 x"
| "printable d (JArr vs) \<longleftrightarrow> 0 < d \<and> list_all (printable (d - 1)) vs"
| "printable d (JObj ms) \<longleftrightarrow> 0 < d \<and> list_all (\<lambda>(k, v). printable (d - 1) v) ms"
| "printable d _ \<longleftrightarrow> True"

definition text_law :: "json_layer \<Rightarrow> bool" where
  "text_law tx \<longleftrightarrow> (\<forall>v. printable 127 v \<longrightarrow> jt_parse tx (jt_print tx v) = Inr (map_doubles (jt_double tx) v))"

definition chrono_law :: "chrono \<Rightarrow> bool" where
  "chrono_law ch \<longleftrightarrow> (\<forall>t. timed ch t)"

definition from_text :: "json_layer \<Rightarrow> (json \<Rightarrow> 'a option) \<Rightarrow> ustr \<Rightarrow> ustr + 'a" where
  "from_text tx d s = (case jt_parse tx s of Inl e \<Rightarrow> Inl e
     | Inr v \<Rightarrow> (case d v of Some x \<Rightarrow> Inr x | None \<Rightarrow> Inl (jt_mismatch tx v)))"

definition json_codec :: "json_layer \<Rightarrow> ('a \<Rightarrow> json) \<Rightarrow> (json \<Rightarrow> 'a option) \<Rightarrow> 'a codec" where
  "json_codec tx f d = \<lparr> enc = (\<lambda>x. Inr (jt_print tx (f x))), dec = from_text tx d \<rparr>"

definition serde_store :: "json_layer \<Rightarrow> chrono \<Rightarrow> store_json" where
  "serde_store tx ch = \<lparr> sj_meeting = json_codec tx (meeting_to_json ch) (meeting_from_json ch),
     sj_transcript = json_codec tx transcript_to_json transcript_from_json,
     sj_ir = json_codec tx meeting_ir_to_json meeting_ir_from_json,
     sj_status = json_codec tx (status_to_json ch) (status_from_json ch) \<rparr>"

lemma reread_json_codec:
  assumes "text_law tx" "printable 127 (f x)" "d (map_doubles (jt_double tx) (f x)) = Some y"
  shows "reread (json_codec tx f d) x = Inr (Some y)"
  using assms by (simp add: reread_def json_codec_def read_row_def from_text_def text_law_def)

text \<open>Every form is printable: what is not a finite double is written as null.\<close>

lemma printable_f64 [simp]: "printable d (to_f64 x)"
  by (cases x) (simp_all add: finite_f64_def)

lemma printable_members [simp]:
  "list_all (\<lambda>(k, v). printable d v) (member k v) \<longleftrightarrow> printable d v"
  "(\<And>x. w = Some x \<Longrightarrow> printable d (f x)) \<Longrightarrow> list_all (\<lambda>(k, v). printable d v) (opt_member k f w)"
  "0 < d \<Longrightarrow> (\<And>x. x \<in> set xs \<Longrightarrow> printable (d - 1) (g x)) \<Longrightarrow> list_all (\<lambda>(k, v). printable d v) (vec_member k g xs)"
  by (auto simp: member_def opt_member_def vec_member_def list_all_iff split: option.splits)

lemma printable_array [simp]: "(\<And>x. x \<in> set xs \<Longrightarrow> printable d (g x)) \<Longrightarrow> list_all (printable d) (map g xs)"
  by (simp add: list_all_iff)

lemma printable_forms [simp]:
  "printable d (time_to_json ch t)" "printable d (meeting_id_to_json i)" "printable d (processing_state_to_json ps)"
  "printable d (failure_kind_to_json fk)" "printable d (action_status_to_json as)"
  "0 < d \<Longrightarrow> printable d (participant_to_json p)" "0 < d \<Longrightarrow> printable d (evidence_to_json e)"
  "0 < d \<Longrightarrow> printable d (segment_to_json s)"
  by (simp_all add: time_to_json_def meeting_id_to_json_def participant_to_json_def evidence_to_json_def segment_to_json_def)
    (cases ps; cases fk; cases as; simp add: jstr_def)+

lemma printable_items [simp]:
  "2 < d \<Longrightarrow> printable d (topic_to_json t)" "2 < d \<Longrightarrow> printable d (decision_to_json dc)"
  "2 < d \<Longrightarrow> printable d (action_item_to_json a)" "2 < d \<Longrightarrow> printable d (open_question_to_json q)"
  "2 < d \<Longrightarrow> printable d (risk_to_json r)"
  by (simp_all add: topic_to_json_def decision_to_json_def action_item_to_json_def open_question_to_json_def risk_to_json_def)

lemma printable_contents [simp]:
  "2 < d \<Longrightarrow> printable d (meeting_to_json ch m)" "2 < d \<Longrightarrow> printable d (transcript_to_json t)"
  "4 < d \<Longrightarrow> printable d (meeting_ir_to_json i)" "0 < d \<Longrightarrow> printable d (status_to_json ch s)"
  by (simp_all add: meeting_to_json_def transcript_to_json_def meeting_ir_to_json_def status_to_json_def)

lemma status_doubles: "map_doubles \<rho> (status_to_json ch s) = status_to_json ch s"
proof -
  have e: "map_doubles \<rho> (processing_state_to_json x) = processing_state_to_json x"
    "map_doubles \<rho> (failure_kind_to_json y) = failure_kind_to_json y" for x y
    by (cases x; cases y; simp add: jstr_def)+
  have "map (map_prod id (map_doubles \<rho>)) (opt_member k failure_kind_to_json w) = opt_member k failure_kind_to_json w" for k w
    by (simp add: opt_member_def e split: option.split)
  moreover have "map (map_prod id (map_doubles \<rho>)) (member k (processing_state_to_json x)) = member k (processing_state_to_json x)" for k x
    by (simp add: member_def e)
  ultimately show ?thesis by (simp add: status_to_json_def base_doubles)
qed

text \<open>The two laws the stored rows rest on hold of the derived forms.\<close>

lemma status_codec_ok: "text_law tx \<Longrightarrow> chrono_law ch \<Longrightarrow> codec_ok (sj_status (serde_store tx ch))"
  by (simp add: codec_ok_def serde_store_def json_codec_def from_text_def text_law_def status_doubles
      status.from_to status_plain_def chrono_law_def)

lemma optional_f64: "\<exists>w'. optional from_f64 k (opt_member k to_f64 w) = Some w'"
  by (cases w; cases "the w") (auto simp: defaulted_def opt_member_def from_option_def)

lemma meeting_law_serde:
  assumes "text_law tx" "chrono_law ch"
  shows "meeting_law (serde_store tx ch)"
proof -
  have again: "\<exists>m'. meeting_from_json ch (meeting_to_json ch m) = Some m' \<and> mt_id m' = mt_id m \<and> mt_title m' = mt_title m" for m
  proof -
    obtain w where "optional from_f64 ''duration_seconds'' (opt_member ''duration_seconds'' to_f64 (mt_duration_seconds m)) = Some w"
      using optional_f64 by blast
    then show ?thesis using assms(2)
      by (cases "mt_occurred_at m") (simp_all add: meeting_to_json_def meeting_from_json_def chrono_law_def
          serde_simps time_simps participant.vec)
  qed
  have "\<exists>m'. dec (sj_meeting (serde_store tx ch)) (jt_print tx (meeting_to_json ch m)) = Inr m'
      \<and> mt_id m' = mt_id m \<and> mt_title m' = mt_title m" for m
    using again [of "meeting_doubles (jt_double tx) m"] assms(1)
    by (auto simp: serde_store_def json_codec_def from_text_def text_law_def meeting.to_doubles meeting_doubles_def)
  then show ?thesis by (auto simp: meeting_law_def) (auto simp: serde_store_def json_codec_def)
qed

text \<open>C34. Storing keeps everything but the last digits of a double: with the derived JSON forms, over a text
  layer that keeps values up to their doubles, each kind of content reads back as itself with every
  double replaced by what its decimal text reads back as, and a status, which holds none, as itself.\<close>

theorem stored_values_read_back:
  assumes "text_law tx" "chrono_law ch"
    and "pred_option finite_f64 (mt_duration_seconds m)" "transcript_plain t" "meeting_ir_plain ir"
  shows "reread (sj_meeting (serde_store tx ch)) m = Inr (Some (meeting_doubles (jt_double tx) m))
    \<and> reread (sj_transcript (serde_store tx ch)) t = Inr (Some (transcript_doubles (jt_double tx) t))
    \<and> reread (sj_ir (serde_store tx ch)) ir = Inr (Some (meeting_ir_doubles (jt_double tx) ir))
    \<and> reread (sj_status (serde_store tx ch)) s = Inr (Some s)"
proof -
  have "meeting_plain ch m"
    using assms(2,3) by (cases "mt_occurred_at m") (simp_all add: meeting_plain_def chrono_law_def)
  moreover have "status_plain ch s" using assms(2) by (simp add: status_plain_def chrono_law_def)
  ultimately show ?thesis using assms
    by (simp add: serde_store_def reread_json_codec meeting.reread transcript.reread meeting_ir.reread
        status_doubles status.from_to)
qed

text \<open>A text layer and a clock format that satisfy the laws: both are numberings.\<close>

instance f64 :: countable by countable_datatype

instance json :: countable by countable_datatype

definition demo_layer :: json_layer where
  "demo_layer = \<lparr> jt_print = (\<lambda>v. [to_nat v]), jt_parse = (\<lambda>s. Inr (from_nat (hd s))), jt_mismatch = (\<lambda>_. []),
     jt_double = id \<rparr>"

definition demo_chrono :: chrono where
  "demo_chrono = \<lparr> ch_print = (\<lambda>t. [to_nat t]), ch_parse = (\<lambda>s. Some (from_nat (hd s))) \<rparr>"

lemma map_f64_id: "map_f64 id x = x" "map_f64 (\<lambda>r. r) x = x"
  by (cases x; simp)+

lemma map_doubles_id: "map_doubles id v = v"
  by (induction v) (auto simp: map_f64_id intro: map_idI)

lemma demo_laws: "text_law demo_layer" "chrono_law demo_chrono"
  by (simp_all add: text_law_def demo_layer_def map_doubles_id chrono_law_def timed_def demo_chrono_def)

theorem stored_values_read_back_witness:
  "reread (sj_transcript (serde_store demo_layer demo_chrono))
      \<lparr> tr_segments = [\<lparr> sg_speaker_id = Some (lit ''S1''), sg_start = Finite 0, sg_end = Finite 2,
         sg_text = lit ''hi'', sg_language = None, sg_confidence = None \<rparr>] \<rparr>
     = Inr (Some \<lparr> tr_segments = [\<lparr> sg_speaker_id = Some (lit ''S1''), sg_start = Finite 0, sg_end = Finite 2,
         sg_text = lit ''hi'', sg_language = None, sg_confidence = None \<rparr>] \<rparr>)"
proof -
  let ?t = "\<lparr> tr_segments = [\<lparr> sg_speaker_id = Some (lit ''S1''), sg_start = Finite 0, sg_end = Finite 2,
         sg_text = lit ''hi'', sg_language = None, sg_confidence = None \<rparr>] \<rparr>"
  have "pred_option finite_f64 (mt_duration_seconds demo_meeting)" "transcript_plain ?t" "meeting_ir_plain meeting_ir_default"
    by (simp_all add: demo_meeting_def meeting_new_def transcript_plain_def segment_plain_def finite_f64_def
        meeting_ir_plain_def meeting_ir_default_def)
  from stored_values_read_back [OF demo_laws this] show ?thesis
    by (simp add: transcript_doubles_def segment_doubles_def demo_layer_def)
qed

end
