(* ===== verification/Wire_Codec.thy ===== *)
theory Wire_Codec
  imports Serde_Store Ipc_Protocol
begin

text \<open>
  The JSON form of requests and responses (\<open>engine/src/ipc/protocol.rs\<close>, with \<open>pipeline/jobs.rs\<close> and
  \<open>domain/knowledge.rs\<close>): newtypes are transparent, requests and responses are adjacently tagged and
  flattened into their envelopes, the input of a job carries its tag among its fields.
\<close>

section \<open>Structs\<close>

definition job_id_to_json :: "job_id \<Rightarrow> json" where
  "job_id_to_json i = JStr (job_id_str i)"

definition job_id_from_json :: "json \<Rightarrow> job_id option" where
  "job_id_from_json j = map_option JobId (from_str j)"

definition request_id_to_json :: "request_id \<Rightarrow> json" where
  "request_id_to_json i = JStr (request_id_str i)"

definition request_id_from_json :: "json \<Rightarrow> request_id option" where
  "request_id_from_json j = map_option RequestId (from_str j)"

definition job_kind_to_json :: "job_kind \<Rightarrow> json" where
  "job_kind_to_json x = JStr (job_kind_token x)"

definition job_kind_from_json :: "json \<Rightarrow> job_kind option" where
  "job_kind_from_json = from_variant (map (\<lambda>x. (job_kind_token x, x)) job_kinds)"

definition job_status_to_json :: "job_status \<Rightarrow> json" where
  "job_status_to_json x = JStr (job_status_token x)"

definition job_status_from_json :: "json \<Rightarrow> job_status option" where
  "job_status_from_json = from_variant (map (\<lambda>x. (job_status_token x, x)) job_statuses)"

definition job_stage_to_json :: "job_stage \<Rightarrow> json" where
  "job_stage_to_json x = JStr (job_stage_token x)"

definition job_stage_from_json :: "json \<Rightarrow> job_stage option" where
  "job_stage_from_json = from_variant (map (\<lambda>x. (job_stage_token x, x)) job_stages)"

definition job_to_json :: "job \<Rightarrow> json" where
  "job_to_json j = JObj (
     member ''id'' (job_id_to_json (jb_id j)) @
     member ''kind'' (job_kind_to_json (jb_kind j)) @
     member ''status'' (job_status_to_json (jb_status j)) @
     member ''stage'' (job_stage_to_json (jb_stage j)) @
     opt_member ''meeting_id'' meeting_id_to_json (jb_meeting_id j) @
     opt_member ''error'' JStr (jb_error j) @
     member ''attempts'' (u32_to_json (jb_attempts j)))"

definition job_from_json :: "json \<Rightarrow> job option" where
  "job_from_json j = Option.bind (struct_members
       [''id'', ''kind'', ''status'', ''stage'', ''meeting_id'', ''error'', ''attempts''] j) (\<lambda>ms.
     Option.bind (required_field job_id_from_json ''id'' ms) (\<lambda>x.
     Option.bind (defaulted Process job_kind_from_json ''kind'' ms) (\<lambda>y.
     Option.bind (required_field job_status_from_json ''status'' ms) (\<lambda>z.
     Option.bind (required_field job_stage_from_json ''stage'' ms) (\<lambda>u.
     Option.bind (optional meeting_id_from_json ''meeting_id'' ms) (\<lambda>v.
     Option.bind (optional from_str ''error'' ms) (\<lambda>w.
     Option.bind (defaulted 0 from_u32 ''attempts'' ms) (\<lambda>p.
     Some \<lparr> jb_id = x, jb_kind = y, jb_status = z, jb_stage = u, jb_meeting_id = v, jb_error = w, jb_attempts = p \<rparr>))))))))"

definition health_info_to_json :: "health_info \<Rightarrow> json" where
  "health_info_to_json h = JObj (
     member ''protocol_version'' (u32_to_json (hi_protocol_version h)) @
     member ''engine_ok'' (JBool (hi_engine_ok h)) @
     member ''llm_ok'' (JBool (hi_llm_ok h)) @
     member ''model'' (JStr (hi_model h)) @
     member ''asr_provider'' (JStr (hi_asr_provider h)))"

definition health_info_from_json :: "json \<Rightarrow> health_info option" where
  "health_info_from_json j = Option.bind (struct_members
       [''protocol_version'', ''engine_ok'', ''llm_ok'', ''model'', ''asr_provider''] j) (\<lambda>ms.
     Option.bind (required_field from_u32 ''protocol_version'' ms) (\<lambda>x.
     Option.bind (required_field from_bool ''engine_ok'' ms) (\<lambda>y.
     Option.bind (required_field from_bool ''llm_ok'' ms) (\<lambda>z.
     Option.bind (required_field from_str ''model'' ms) (\<lambda>u.
     Option.bind (required_field from_str ''asr_provider'' ms) (\<lambda>v.
     Some \<lparr> hi_protocol_version = x, hi_engine_ok = y, hi_llm_ok = z, hi_model = u, hi_asr_provider = v \<rparr>))))))"

definition search_hit_to_json :: "search_hit \<Rightarrow> json" where
  "search_hit_to_json h = JObj (
     member ''path'' (JStr (sh_path h)) @
     member ''title'' (JStr (sh_title h)) @
     member ''start_line'' (usize_to_json (sh_start_line h)) @
     member ''end_line'' (usize_to_json (sh_end_line h)) @
     member ''snippet'' (JStr (sh_snippet h)))"

definition search_hit_from_json :: "json \<Rightarrow> search_hit option" where
  "search_hit_from_json j = Option.bind (struct_members
       [''path'', ''title'', ''start_line'', ''end_line'', ''snippet''] j) (\<lambda>ms.
     Option.bind (required_field from_str ''path'' ms) (\<lambda>x.
     Option.bind (required_field from_str ''title'' ms) (\<lambda>y.
     Option.bind (required_field from_usize ''start_line'' ms) (\<lambda>z.
     Option.bind (required_field from_usize ''end_line'' ms) (\<lambda>u.
     Option.bind (required_field from_str ''snippet'' ms) (\<lambda>v.
     Some \<lparr> sh_path = x, sh_title = y, sh_start_line = z, sh_end_line = u, sh_snippet = v \<rparr>))))))"

definition search_hit_plain :: "search_hit \<Rightarrow> bool" where
  "search_hit_plain h \<longleftrightarrow> sh_start_line h < 2 ^ 64 \<and> sh_end_line h < 2 ^ 64"

definition citation_to_json :: "citation \<Rightarrow> json" where
  "citation_to_json c = JObj (
     member ''path'' (JStr (ct_path c)) @
     member ''start_line'' (usize_to_json (ct_start_line c)) @
     member ''end_line'' (usize_to_json (ct_end_line c)) @
     member ''snippet'' (JStr (ct_snippet c)))"

definition citation_from_json :: "json \<Rightarrow> citation option" where
  "citation_from_json j = Option.bind (struct_members
       [''path'', ''start_line'', ''end_line'', ''snippet''] j) (\<lambda>ms.
     Option.bind (required_field from_str ''path'' ms) (\<lambda>x.
     Option.bind (required_field from_usize ''start_line'' ms) (\<lambda>y.
     Option.bind (required_field from_usize ''end_line'' ms) (\<lambda>z.
     Option.bind (required_field from_str ''snippet'' ms) (\<lambda>u.
     Some \<lparr> ct_path = x, ct_start_line = y, ct_end_line = z, ct_snippet = u \<rparr>)))))"

definition citation_plain :: "citation \<Rightarrow> bool" where
  "citation_plain c \<longleftrightarrow> ct_start_line c < 2 ^ 64 \<and> ct_end_line c < 2 ^ 64"

definition ask_answer_to_json :: "ask_answer \<Rightarrow> json" where
  "ask_answer_to_json a = JObj (
     member ''text'' (JStr (an_text a)) @
     member ''files_read'' (JArr (map JStr (an_files_read a))) @
     member ''citations'' (JArr (map citation_to_json (an_citations a))))"

definition ask_answer_from_json :: "json \<Rightarrow> ask_answer option" where
  "ask_answer_from_json j = Option.bind (struct_members
       [''text'', ''files_read'', ''citations''] j) (\<lambda>ms.
     Option.bind (required_field from_str ''text'' ms) (\<lambda>x.
     Option.bind (required_field (from_vec from_str) ''files_read'' ms) (\<lambda>y.
     Option.bind (required_field (from_vec citation_from_json) ''citations'' ms) (\<lambda>z.
     Some \<lparr> an_text = x, an_files_read = y, an_citations = z \<rparr>))))"

definition ask_answer_plain :: "ask_answer \<Rightarrow> bool" where
  "ask_answer_plain a \<longleftrightarrow> list_all citation_plain (an_citations a)"

definition meeting_summary_to_json :: "chrono \<Rightarrow> meeting_summary \<Rightarrow> json" where
  "meeting_summary_to_json ch s = JObj (
     member ''meeting'' ((meeting_to_json ch) (ms_meeting s)) @
     opt_member ''status'' (status_to_json ch) (ms_status s))"

definition meeting_summary_from_json :: "chrono \<Rightarrow> json \<Rightarrow> meeting_summary option" where
  "meeting_summary_from_json ch j = Option.bind (struct_members
       [''meeting'', ''status''] j) (\<lambda>ms.
     Option.bind (required_field (meeting_from_json ch) ''meeting'' ms) (\<lambda>x.
     Option.bind (optional (status_from_json ch) ''status'' ms) (\<lambda>y.
     Some \<lparr> ms_meeting = x, ms_status = y \<rparr>)))"

definition meeting_summary_plain :: "chrono \<Rightarrow> meeting_summary \<Rightarrow> bool" where
  "meeting_summary_plain ch s \<longleftrightarrow> meeting_plain ch (ms_meeting s) \<and> pred_option (status_plain ch) (ms_status s)"

definition meeting_summary_doubles :: "(rat \<Rightarrow> rat) \<Rightarrow> meeting_summary \<Rightarrow> meeting_summary" where
  "meeting_summary_doubles \<rho> s = s\<lparr> ms_meeting := meeting_doubles \<rho> (ms_meeting s) \<rparr>"

section \<open>Every struct is read back\<close>

interpretation job_id: serde_doubles job_id_to_json job_id_from_json "\<lambda>_. True" "\<lambda>_ i. i"
  by unfold_locales (simp_all add: job_id_to_json_def job_id_from_json_def)

interpretation request_id: serde_doubles request_id_to_json request_id_from_json "\<lambda>_. True" "\<lambda>_ i. i"
  by unfold_locales (simp_all add: request_id_to_json_def request_id_from_json_def)

interpretation job_kind: serde_doubles job_kind_to_json job_kind_from_json "\<lambda>_. True" "\<lambda>_ x. x"
proof
  show "job_kind_from_json (job_kind_to_json x) = Some x" for x
    by (cases x) (simp_all add: job_kind_to_json_def job_kind_from_json_def from_variant_def job_kinds_def lit_eq_iff)
qed (simp_all add: job_kind_to_json_def)

interpretation job_status: serde_doubles job_status_to_json job_status_from_json "\<lambda>_. True" "\<lambda>_ x. x"
proof
  show "job_status_from_json (job_status_to_json x) = Some x" for x
    by (cases x) (simp_all add: job_status_to_json_def job_status_from_json_def from_variant_def job_statuses_def lit_eq_iff)
qed (simp_all add: job_status_to_json_def)

interpretation job_stage: serde_doubles job_stage_to_json job_stage_from_json "\<lambda>_. True" "\<lambda>_ x. x"
proof
  show "job_stage_from_json (job_stage_to_json x) = Some x" for x
    by (cases x) (simp_all add: job_stage_to_json_def job_stage_from_json_def from_variant_def job_stages_def lit_eq_iff)
qed (simp_all add: job_stage_to_json_def)

interpretation u32: serde_doubles u32_to_json from_u32 "\<lambda>_. True" "\<lambda>_ n. n"
  by unfold_locales (simp_all add: u32_to_json_def)

interpretation usize: serde_doubles usize_to_json from_usize "\<lambda>n. n < 2 ^ 64" "\<lambda>_ n. n"
  by unfold_locales (simp_all add: usize_to_json_def)

interpretation bool: serde_doubles JBool from_bool "\<lambda>_. True" "\<lambda>_ b. b"
  by unfold_locales simp_all

interpretation status: serde_doubles "status_to_json ch" "status_from_json ch" "status_plain ch" "\<lambda>_ s. s" for ch
  by unfold_locales (simp_all add: status_doubles)

lemmas wire_simps = u32.from_to usize.from_to bool.from_to job_id.from_to request_id.from_to meeting_id.from_to
  meeting_id.optional_skip meeting_id.skip_last str.vec usize.optional_skip usize.skip_last

lemmas wire_doubles = base_doubles u32.member_doubles usize.member_doubles bool.member_doubles job_id.member_doubles
  request_id.member_doubles job_kind.member_doubles job_status.member_doubles job_stage.member_doubles status.member_doubles

interpretation job: serde job_to_json job_from_json "\<lambda>_. True"
proof
  fix j :: job
  show "job_from_json (job_to_json j) = Some j"
    by (simp add: job_to_json_def job_from_json_def serde_simps wire_simps job_kind.from_to job_status.from_to job_stage.from_to)
qed (simp add: job_to_json_def)

interpretation health_info: serde health_info_to_json health_info_from_json "\<lambda>_. True"
proof
  fix h :: health_info
  show "health_info_from_json (health_info_to_json h) = Some h"
    by (simp add: health_info_to_json_def health_info_from_json_def serde_simps wire_simps)
qed (simp add: health_info_to_json_def)

interpretation search_hit: serde search_hit_to_json search_hit_from_json search_hit_plain
proof
  fix h :: search_hit assume "search_hit_plain h"
  then show "search_hit_from_json (search_hit_to_json h) = Some h"
    by (simp add: search_hit_to_json_def search_hit_from_json_def search_hit_plain_def serde_simps wire_simps)
qed (simp add: search_hit_to_json_def)

interpretation citation: serde citation_to_json citation_from_json citation_plain
proof
  fix c :: citation assume "citation_plain c"
  then show "citation_from_json (citation_to_json c) = Some c"
    by (simp add: citation_to_json_def citation_from_json_def citation_plain_def serde_simps wire_simps)
qed (simp add: citation_to_json_def)

interpretation ask_answer: serde ask_answer_to_json ask_answer_from_json ask_answer_plain
proof
  fix a :: ask_answer assume "ask_answer_plain a"
  then show "ask_answer_from_json (ask_answer_to_json a) = Some a"
    by (simp add: ask_answer_to_json_def ask_answer_from_json_def ask_answer_plain_def serde_simps wire_simps citation.vec)
qed (simp add: ask_answer_to_json_def)

interpretation meeting_summary: serde "meeting_summary_to_json ch" "meeting_summary_from_json ch" "meeting_summary_plain ch" for ch
proof
  fix s :: meeting_summary assume "meeting_summary_plain ch s"
  then show "meeting_summary_from_json ch (meeting_summary_to_json ch s) = Some s"
    by (simp add: meeting_summary_to_json_def meeting_summary_from_json_def meeting_summary_plain_def serde_simps wire_simps meeting.from_to status.optional_skip status.skip_last)
qed (simp add: meeting_summary_to_json_def)

interpretation job: serde_doubles job_to_json job_from_json "\<lambda>_. True" "\<lambda>_ j. j"
  by unfold_locales (simp_all add: job_to_json_def wire_doubles)

interpretation health_info: serde_doubles health_info_to_json health_info_from_json "\<lambda>_. True" "\<lambda>_ h. h"
  by unfold_locales (simp_all add: health_info_to_json_def wire_doubles)

interpretation search_hit: serde_doubles search_hit_to_json search_hit_from_json search_hit_plain "\<lambda>_ h. h"
  by unfold_locales (simp_all add: search_hit_to_json_def wire_doubles)

interpretation citation: serde_doubles citation_to_json citation_from_json citation_plain "\<lambda>_ c. c"
  by unfold_locales (simp_all add: citation_to_json_def wire_doubles)

interpretation ask_answer: serde_doubles ask_answer_to_json ask_answer_from_json ask_answer_plain "\<lambda>_ a. a"
  by unfold_locales (simp_all add: ask_answer_to_json_def wire_doubles citation.member_doubles)

interpretation meeting_summary: serde_doubles "meeting_summary_to_json ch" "meeting_summary_from_json ch"
    "meeting_summary_plain ch" meeting_summary_doubles for ch
  by unfold_locales (simp_all add: meeting_summary_to_json_def meeting_summary_plain_def meeting_summary_doubles_def
      wire_doubles meeting.member_doubles meeting.plain_doubles)

section \<open>The input of a job\<close>

text \<open>The tag is read as a variant's name or, from buffered content, its index.\<close>

definition from_tag :: "(ustr \<times> 'a) list \<Rightarrow> json \<Rightarrow> 'a option" where
  "from_tag names j = (case j of JStr s \<Rightarrow> map_of names s
     | JInt n \<Rightarrow> if 0 \<le> n \<and> nat n < length names then Some (snd (names ! nat n)) else None | _ \<Rightarrow> None)"

fun process_input_to_json :: "process_input \<Rightarrow> json" where
  "process_input_to_json (InputOfTranscript title t) = JObj (member ''kind'' (jstr ''transcript'') @
     member ''title'' (to_option JStr title) @ member ''transcript'' (transcript_to_json t))"
| "process_input_to_json (InputOfAudio title p) = JObj (member ''kind'' (jstr ''audio'') @
     member ''title'' (to_option JStr title) @ member ''path'' (JStr p))"

definition process_input_from_json :: "json \<Rightarrow> process_input option" where
  "process_input_from_json j = Option.bind (object_members [''kind''] j) (\<lambda>ms.
     Option.bind (required_field (from_tag [(lit ''transcript'', True), (lit ''audio'', False)]) ''kind'' ms) (\<lambda>is_transcript.
     if is_transcript
     then Option.bind (object_members [''title'', ''transcript''] j) (\<lambda>ms.
       Option.bind (optional from_str ''title'' ms) (\<lambda>title.
       Option.bind (required_field transcript_from_json ''transcript'' ms) (\<lambda>t. Some (InputOfTranscript title t))))
     else Option.bind (object_members [''title'', ''path''] j) (\<lambda>ms.
       Option.bind (optional from_str ''title'' ms) (\<lambda>title.
       Option.bind (required_field from_str ''path'' ms) (\<lambda>p. Some (InputOfAudio title p))))))"

fun process_input_plain :: "process_input \<Rightarrow> bool" where
  "process_input_plain (InputOfTranscript title t) = transcript_plain t"
| "process_input_plain (InputOfAudio title p) = True"

fun process_input_doubles :: "(rat \<Rightarrow> rat) \<Rightarrow> process_input \<Rightarrow> process_input" where
  "process_input_doubles \<rho> (InputOfTranscript title t) = InputOfTranscript title (transcript_doubles \<rho> t)"
| "process_input_doubles \<rho> (InputOfAudio title p) = InputOfAudio title p"

section \<open>Requests\<close>

text \<open>\<open>tag = "type", content = "params"\<close>: a unit variant has no content, and none or null is read for it.\<close>

definition tagged :: "string \<Rightarrow> string \<Rightarrow> members \<Rightarrow> members" where
  "tagged t c ms = member ''type'' (jstr t) @ member c (JObj ms)"

fun request_members :: "request \<Rightarrow> members" where
  "request_members RqHealth = member ''type'' (jstr ''Health'')"
| "request_members (RqProcessMeeting input) = tagged ''ProcessMeeting'' ''params'' (member ''input'' (process_input_to_json input))"
| "request_members (RqGetJob i) = tagged ''GetJob'' ''params'' (member ''job_id'' (job_id_to_json i))"
| "request_members (RqCancelJob i) = tagged ''CancelJob'' ''params'' (member ''job_id'' (job_id_to_json i))"
| "request_members (RqGetMeeting m) = tagged ''GetMeeting'' ''params'' (member ''meeting_id'' (meeting_id_to_json m))"
| "request_members (RqGetTranscript m) = tagged ''GetTranscript'' ''params'' (member ''meeting_id'' (meeting_id_to_json m))"
| "request_members (RqGetMom m) = tagged ''GetMom'' ''params'' (member ''meeting_id'' (meeting_id_to_json m))"
| "request_members (RqSearch q v n) = tagged ''Search'' ''params''
     (member ''query'' (JStr q) @ member ''vault_path'' (JStr v) @ opt_member ''limit'' usize_to_json n)"
| "request_members (RqAsk q v) = tagged ''Ask'' ''params'' (member ''question'' (JStr q) @ member ''vault_path'' (JStr v))"
| "request_members RqListMeetings = member ''type'' (jstr ''ListMeetings'')"
| "request_members (RqReprocessMeeting m) = tagged ''ReprocessMeeting'' ''params'' (member ''meeting_id'' (meeting_id_to_json m))"

text \<open>The fields of a variant, read from its content.\<close>

definition variant_fields :: "string \<Rightarrow> string list \<Rightarrow> (members \<Rightarrow> 'a option) \<Rightarrow> members \<Rightarrow> 'a option" where
  "variant_fields c known f ms = Option.bind (map_of ms (lit c)) (\<lambda>v. Option.bind (object_members known v) f)"

definition no_content :: "string \<Rightarrow> 'a \<Rightarrow> members \<Rightarrow> 'a option" where
  "no_content c x ms = (case map_of ms (lit c) of None \<Rightarrow> Some x | Some v \<Rightarrow> if v = JNull then Some x else None)"

definition with_id :: "string \<Rightarrow> (json \<Rightarrow> 'a option) \<Rightarrow> ('a \<Rightarrow> 'b) \<Rightarrow> members \<Rightarrow> 'b option" where
  "with_id k d f = variant_fields ''params'' [k] (\<lambda>ms. map_option f (required_field d k ms))"

definition request_variants :: "(ustr \<times> (members \<Rightarrow> request option)) list" where
  "request_variants = [
     (lit ''Health'', no_content ''params'' RqHealth),
     (lit ''ProcessMeeting'', with_id ''input'' process_input_from_json RqProcessMeeting),
     (lit ''GetJob'', with_id ''job_id'' job_id_from_json RqGetJob),
     (lit ''CancelJob'', with_id ''job_id'' job_id_from_json RqCancelJob),
     (lit ''GetMeeting'', with_id ''meeting_id'' meeting_id_from_json RqGetMeeting),
     (lit ''GetTranscript'', with_id ''meeting_id'' meeting_id_from_json RqGetTranscript),
     (lit ''GetMom'', with_id ''meeting_id'' meeting_id_from_json RqGetMom),
     (lit ''Search'', variant_fields ''params'' [''query'', ''vault_path'', ''limit''] (\<lambda>ms.
        Option.bind (required_field from_str ''query'' ms) (\<lambda>q.
        Option.bind (required_field from_str ''vault_path'' ms) (\<lambda>v.
        Option.bind (optional from_usize ''limit'' ms) (\<lambda>n. Some (RqSearch q v n)))))),
     (lit ''Ask'', variant_fields ''params'' [''question'', ''vault_path''] (\<lambda>ms.
        Option.bind (required_field from_str ''question'' ms) (\<lambda>q.
        Option.bind (required_field from_str ''vault_path'' ms) (\<lambda>v. Some (RqAsk q v))))),
     (lit ''ListMeetings'', no_content ''params'' RqListMeetings),
     (lit ''ReprocessMeeting'', with_id ''meeting_id'' meeting_id_from_json RqReprocessMeeting)]"

definition request_envelope_to_json :: "request_envelope \<Rightarrow> json" where
  "request_envelope_to_json q = JObj (member ''protocol_version'' (u32_to_json (qe_protocol_version q)) @
     member ''request_id'' (request_id_to_json (qe_request_id q)) @ request_members (qe_request q))"

definition request_envelope_from_json :: "json \<Rightarrow> request_envelope option" where
  "request_envelope_from_json j = Option.bind (object_members [''protocol_version'', ''request_id'', ''type'', ''params''] j) (\<lambda>ms.
     Option.bind (required_field from_u32 ''protocol_version'' ms) (\<lambda>v.
     Option.bind (required_field request_id_from_json ''request_id'' ms) (\<lambda>i.
     Option.bind (required_field (from_variant request_variants) ''type'' ms) (\<lambda>fields.
     Option.bind (fields ms) (\<lambda>rq.
     Some \<lparr> qe_protocol_version = v, qe_request_id = i, qe_request = rq \<rparr>)))))"

fun request_plain :: "request \<Rightarrow> bool" where
  "request_plain (RqProcessMeeting input) = process_input_plain input"
| "request_plain (RqSearch q v n) = pred_option (\<lambda>n. n < 2 ^ 64) n"
| "request_plain _ = True"

fun request_doubles :: "(rat \<Rightarrow> rat) \<Rightarrow> request \<Rightarrow> request" where
  "request_doubles \<rho> (RqProcessMeeting input) = RqProcessMeeting (process_input_doubles \<rho> input)"
| "request_doubles \<rho> rq = rq"

lemma from_variant_str: "from_variant names (JStr s) = map_of names s"
  by (simp add: from_variant_def)

lemma required_variant: "required_field d k ms = Option.bind (map_of ms (lit k)) d"
  by (simp add: required_field_def)

interpretation process_input: serde_doubles process_input_to_json process_input_from_json process_input_plain
  process_input_doubles
proof
  fix x :: process_input and \<rho> :: "rat \<Rightarrow> rat"
  show "process_input_plain x \<Longrightarrow> process_input_from_json (process_input_to_json x) = Some x"
    by (cases x) (simp_all add: process_input_from_json_def serde_simps from_tag_def jstr_def str.option transcript.from_to
        members_read [where every = "[''kind'', ''title'', ''transcript'']"] members_read [where every = "[''kind'', ''title'', ''path'']"])
  show "process_input_to_json x \<noteq> JNull" by (cases x) simp_all
  show "map_doubles \<rho> (process_input_to_json x) = process_input_to_json (process_input_doubles \<rho> x)"
    by (cases x) (simp_all add: wire_doubles transcript.to_doubles member_def jstr_def to_option_def split: option.split)
  show "process_input_plain x \<Longrightarrow> process_input_plain (process_input_doubles \<rho> x)"
    by (cases x) (simp_all add: transcript.plain_doubles)
qed

definition request_envelope_plain :: "request_envelope \<Rightarrow> bool" where
  "request_envelope_plain q \<longleftrightarrow> request_plain (qe_request q)"

definition request_envelope_doubles :: "(rat \<Rightarrow> rat) \<Rightarrow> request_envelope \<Rightarrow> request_envelope" where
  "request_envelope_doubles \<rho> q = q\<lparr> qe_request := request_doubles \<rho> (qe_request q) \<rparr>"

lemma map_of_last: "map_of (member k v) (lit k') = (if k' = k then Some v else None)"
  by (simp add: member_def lit_eq_iff)

lemma object_member_doubles:
  "map (map_prod id (map_doubles \<rho>)) (member k (JObj ms)) = member k (JObj (map (map_prod id (map_doubles \<rho>)) ms))"
  by (simp add: member_def)

lemmas tagged_simps = tagged_def jstr_def from_variant_str lit_eq_iff map_of_members map_of_last

interpretation request_envelope: serde_doubles request_envelope_to_json request_envelope_from_json
  request_envelope_plain request_envelope_doubles
proof
  fix q :: request_envelope and \<rho> :: "rat \<Rightarrow> rat"
  show "request_envelope_plain q \<Longrightarrow> request_envelope_from_json (request_envelope_to_json q) = Some q"
    by (cases q; cases "qe_request q") (simp_all add: request_envelope_plain_def request_envelope_to_json_def
      request_envelope_from_json_def tagged_simps serde_simps wire_simps request_variants_def no_content_def
      with_id_def variant_fields_def required_variant process_input.from_to del: map_of_append)
  show "map_doubles \<rho> (request_envelope_to_json q) = request_envelope_to_json (request_envelope_doubles \<rho> q)"
    by (cases "qe_request q") (simp_all add: request_envelope_to_json_def request_envelope_doubles_def
      wire_doubles process_input.member_doubles object_member_doubles tagged_def jstr_def)
  show "request_envelope_plain q \<Longrightarrow> request_envelope_plain (request_envelope_doubles \<rho> q)"
    by (cases "qe_request q") (simp_all add: request_envelope_plain_def request_envelope_doubles_def process_input.plain_doubles)
qed (simp add: request_envelope_to_json_def)

section \<open>Responses\<close>

definition newtype :: "string \<Rightarrow> json \<Rightarrow> members" where
  "newtype t v = member ''type'' (jstr t) @ member ''data'' v"

fun response_members :: "chrono \<Rightarrow> response \<Rightarrow> members" where
  "response_members ch (RpHealth h) = newtype ''Health'' (health_info_to_json h)"
| "response_members ch (RpJobAccepted i) = tagged ''JobAccepted'' ''data'' (member ''job_id'' (job_id_to_json i))"
| "response_members ch (RpJob j) = newtype ''Job'' (job_to_json j)"
| "response_members ch (RpMeeting m) = newtype ''Meeting'' (meeting_to_json ch m)"
| "response_members ch (RpTranscript t) = newtype ''Transcript'' (transcript_to_json t)"
| "response_members ch (RpMom s) = tagged ''Mom'' ''data'' (member ''markdown'' (JStr s))"
| "response_members ch (RpSearchResults hs) = newtype ''SearchResults'' (JArr (map search_hit_to_json hs))"
| "response_members ch (RpAnswer a) = newtype ''Answer'' (ask_answer_to_json a)"
| "response_members ch (RpMeetingList ms) = newtype ''MeetingList'' (JArr (map (meeting_summary_to_json ch) ms))"
| "response_members ch (RpError e) = tagged ''Error'' ''data'' (member ''message'' (JStr e))"

definition from_newtype :: "(json \<Rightarrow> 'a option) \<Rightarrow> ('a \<Rightarrow> 'b) \<Rightarrow> members \<Rightarrow> 'b option" where
  "from_newtype d f ms = map_option f (required_field d ''data'' ms)"

definition with_data :: "string \<Rightarrow> (json \<Rightarrow> 'a option) \<Rightarrow> ('a \<Rightarrow> 'b) \<Rightarrow> members \<Rightarrow> 'b option" where
  "with_data k d f = variant_fields ''data'' [k] (\<lambda>ms. map_option f (required_field d k ms))"

definition response_variants :: "chrono \<Rightarrow> (ustr \<times> (members \<Rightarrow> response option)) list" where
  "response_variants ch = [
     (lit ''Health'', from_newtype health_info_from_json RpHealth),
     (lit ''JobAccepted'', with_data ''job_id'' job_id_from_json RpJobAccepted),
     (lit ''Job'', from_newtype job_from_json RpJob),
     (lit ''Meeting'', from_newtype (meeting_from_json ch) RpMeeting),
     (lit ''Transcript'', from_newtype transcript_from_json RpTranscript),
     (lit ''Mom'', with_data ''markdown'' from_str RpMom),
     (lit ''SearchResults'', from_newtype (from_vec search_hit_from_json) RpSearchResults),
     (lit ''Answer'', from_newtype ask_answer_from_json RpAnswer),
     (lit ''MeetingList'', from_newtype (from_vec (meeting_summary_from_json ch)) RpMeetingList),
     (lit ''Error'', with_data ''message'' from_str RpError)]"

definition response_envelope_to_json :: "chrono \<Rightarrow> response_envelope \<Rightarrow> json" where
  "response_envelope_to_json ch p = JObj (member ''protocol_version'' (u32_to_json (pe_protocol_version p)) @
     member ''request_id'' (request_id_to_json (pe_request_id p)) @ response_members ch (pe_response p))"

definition response_envelope_from_json :: "chrono \<Rightarrow> json \<Rightarrow> response_envelope option" where
  "response_envelope_from_json ch j = Option.bind (object_members [''protocol_version'', ''request_id'', ''type'', ''data''] j) (\<lambda>ms.
     Option.bind (required_field from_u32 ''protocol_version'' ms) (\<lambda>v.
     Option.bind (required_field request_id_from_json ''request_id'' ms) (\<lambda>i.
     Option.bind (required_field (from_variant (response_variants ch)) ''type'' ms) (\<lambda>fields.
     Option.bind (fields ms) (\<lambda>rp.
     Some \<lparr> pe_protocol_version = v, pe_request_id = i, pe_response = rp \<rparr>)))))"

fun response_plain :: "chrono \<Rightarrow> response \<Rightarrow> bool" where
  "response_plain ch (RpMeeting m) = meeting_plain ch m"
| "response_plain ch (RpTranscript t) = transcript_plain t"
| "response_plain ch (RpSearchResults hs) = list_all search_hit_plain hs"
| "response_plain ch (RpAnswer a) = ask_answer_plain a"
| "response_plain ch (RpMeetingList ms) = list_all (meeting_summary_plain ch) ms"
| "response_plain ch _ = True"

fun response_doubles :: "(rat \<Rightarrow> rat) \<Rightarrow> response \<Rightarrow> response" where
  "response_doubles \<rho> (RpMeeting m) = RpMeeting (meeting_doubles \<rho> m)"
| "response_doubles \<rho> (RpTranscript t) = RpTranscript (transcript_doubles \<rho> t)"
| "response_doubles \<rho> (RpMeetingList ms) = RpMeetingList (map (meeting_summary_doubles \<rho>) ms)"
| "response_doubles \<rho> rp = rp"

definition response_envelope_plain :: "chrono \<Rightarrow> response_envelope \<Rightarrow> bool" where
  "response_envelope_plain ch p \<longleftrightarrow> response_plain ch (pe_response p)"

definition response_envelope_doubles :: "(rat \<Rightarrow> rat) \<Rightarrow> response_envelope \<Rightarrow> response_envelope" where
  "response_envelope_doubles \<rho> p = p\<lparr> pe_response := response_doubles \<rho> (pe_response p) \<rparr>"

lemmas payload_doubles = health_info.member_doubles job.member_doubles meeting.member_doubles transcript.member_doubles
  search_hit.member_doubles ask_answer.member_doubles meeting_summary.member_doubles

interpretation response_envelope: serde_doubles "response_envelope_to_json ch" "response_envelope_from_json ch"
  "response_envelope_plain ch" response_envelope_doubles for ch
proof
  fix p :: response_envelope and \<rho> :: "rat \<Rightarrow> rat"
  show "response_envelope_plain ch p \<Longrightarrow> response_envelope_from_json ch (response_envelope_to_json ch p) = Some p"
    by (cases p; cases "pe_response p") (simp_all add: response_envelope_plain_def response_envelope_to_json_def
      response_envelope_from_json_def newtype_def tagged_simps serde_simps wire_simps response_variants_def from_newtype_def
      with_data_def variant_fields_def required_variant health_info.from_to job.from_to meeting.from_to transcript.from_to
      search_hit.vec ask_answer.from_to meeting_summary.vec del: map_of_append)
  show "map_doubles \<rho> (response_envelope_to_json ch p) = response_envelope_to_json ch (response_envelope_doubles \<rho> p)"
    by (cases "pe_response p") (simp_all add: response_envelope_to_json_def response_envelope_doubles_def
      wire_doubles payload_doubles object_member_doubles newtype_def tagged_def jstr_def)
  show "response_envelope_plain ch p \<Longrightarrow> response_envelope_plain ch (response_envelope_doubles \<rho> p)"
    by (cases "pe_response p") (simp_all add: response_envelope_plain_def response_envelope_doubles_def
      meeting.plain_doubles transcript.plain_doubles meeting_summary.vec_plain)
qed (simp add: response_envelope_to_json_def)

section \<open>Every message is printable\<close>

lemma printable_u32 [simp]: "printable d (u32_to_json n)" for n :: "32 word"
proof -
  have "- (2 ^ 63) \<le> uint n" by (rule order_trans [OF _ uint_ge_0]) simp
  moreover have "uint n < 2 ^ 64" using uint_bounded [of n] by simp
  ultimately show ?thesis by (simp only: u32_to_json_def printable.simps)
qed

lemma printable_usize [simp]: "k < 2 ^ 64 \<Longrightarrow> printable d (usize_to_json k)"
  using of_nat_less_iff [of k "2 ^ 64", where ?'a = int] by (simp add: usize_to_json_def)

lemma printable_wire_basics [simp]:
  "printable d (job_id_to_json i)" "printable d (request_id_to_json r)" "printable d (job_kind_to_json jk)"
  "printable d (job_status_to_json jst)" "printable d (job_stage_to_json jsg)"
  by (simp_all add: job_id_to_json_def request_id_to_json_def job_kind_to_json_def job_status_to_json_def job_stage_to_json_def)

lemma printable_payloads [simp]:
  "0 < d \<Longrightarrow> printable d (job_to_json j)" "0 < d \<Longrightarrow> printable d (health_info_to_json h)"
  "0 < d \<Longrightarrow> search_hit_plain sh \<Longrightarrow> printable d (search_hit_to_json sh)"
  "0 < d \<Longrightarrow> citation_plain c \<Longrightarrow> printable d (citation_to_json c)"
  by (simp_all add: job_to_json_def health_info_to_json_def search_hit_to_json_def citation_to_json_def
      search_hit_plain_def citation_plain_def)

lemma printable_lists [simp]:
  "0 < d \<Longrightarrow> list_all search_hit_plain hs \<Longrightarrow> list_all (printable d) (map search_hit_to_json hs)"
  "0 < d \<Longrightarrow> list_all citation_plain cs \<Longrightarrow> list_all (printable d) (map citation_to_json cs)"
   by (induction hs, simp_all) (induction cs, simp_all)

lemma printable_limit [simp]:
  "pred_option (\<lambda>n. n < 2 ^ 64) n \<Longrightarrow> list_all (\<lambda>(k, v). printable d v) (opt_member k usize_to_json n)"
  by (rule printable_members) (auto intro: printable_usize)

lemma printable_nested [simp]:
  "2 < d \<Longrightarrow> ask_answer_plain a \<Longrightarrow> printable d (ask_answer_to_json a)"
  "3 < d \<Longrightarrow> printable d (meeting_summary_to_json ch ms)" "3 < d \<Longrightarrow> printable d (process_input_to_json x)"
  by (simp_all add: ask_answer_to_json_def ask_answer_plain_def meeting_summary_to_json_def)
    (cases x; simp add: jstr_def to_option_def split: option.split)

lemma printable_request: "request_envelope_plain q \<Longrightarrow> printable 127 (request_envelope_to_json q)"
  by (cases "qe_request q")
    (simp_all add: request_envelope_to_json_def request_envelope_plain_def tagged_def jstr_def)

lemma printable_response: "response_envelope_plain ch p \<Longrightarrow> printable 127 (response_envelope_to_json ch p)"
  by (cases "pe_response p")
    (simp_all add: response_envelope_to_json_def response_envelope_plain_def newtype_def tagged_def jstr_def)

lemma from_text_printed:
  "text_law tx \<Longrightarrow> printable 127 v \<Longrightarrow> d (map_doubles (jt_double tx) v) = Some x \<Longrightarrow> from_text tx d (jt_print tx v) = Inr x"
  by (simp add: from_text_def text_law_def)

end
