(* ===== verification/Ipc_Wire.thy ===== *)
theory Ipc_Wire
  imports Ipc_Server Wire_Codec
begin

text \<open>
  The server over the derived JSON forms: what a client writes is what the engine is asked, and what the
  engine answers is what the client reads.
\<close>

definition serde_wire :: "json_layer \<Rightarrow> chrono \<Rightarrow> (event_envelope \<Rightarrow> ustr) \<Rightarrow> wire" where
  "serde_wire tx ch event_text = \<lparr> wi_decode = from_text tx request_envelope_from_json,
     wi_encode = (\<lambda>p. Some (jt_print tx (response_envelope_to_json ch p))),
     wi_encode_event = (\<lambda>e. Some (event_text e)) \<rparr>"

text \<open>The line a client writes for a request.\<close>

definition request_line :: "json_layer \<Rightarrow> request_id \<Rightarrow> request \<Rightarrow> ustr" where
  "request_line tx i rq = jt_print tx (request_envelope_to_json
     \<lparr> qe_protocol_version = PROTOCOL_VERSION, qe_request_id = i, qe_request = rq \<rparr>)"

lemma request_line_read:
  assumes "text_law tx" "request_plain rq"
  shows "from_text tx request_envelope_from_json (request_line tx i rq) = Inr
    \<lparr> qe_protocol_version = PROTOCOL_VERSION, qe_request_id = i, qe_request = request_doubles (jt_double tx) rq \<rparr>"
  unfolding request_line_def
  by (rule from_text_printed [OF assms(1) printable_request], simp add: request_envelope_plain_def assms(2),
      subst request_envelope.reread)
    (simp_all add: request_envelope_plain_def request_envelope_doubles_def assms(2))

text \<open>C35. A conversation loses nothing: a request a client writes in the derived form reaches the engine as it is,
  and the client reads from the reply the engine's own response with the request's id - up to the last
  digits of the doubles on each way.\<close>

theorem conversation_faithful:
  assumes "text_law tx" "request_plain rq" "dispatch eg (request_doubles (jt_double tx) rq) w = (rp, w')"
    and "response_plain ch rp"
  shows "serve_line (serde_wire tx ch event_text) eg (request_line tx i rq) w = (reply i rp, w')
    \<and> (\<exists>line. wi_encode (serde_wire tx ch event_text) (reply i rp) = Some line
        \<and> from_text tx (response_envelope_from_json ch) line = Inr (reply i (response_doubles (jt_double tx) rp)))"
proof -
  have "serve_line (serde_wire tx ch event_text) eg (request_line tx i rq) w = (reply i rp, w')"
    using assms(3) by (simp add: serve_line_def serde_wire_def request_line_read [OF assms(1,2)])
  moreover have "from_text tx (response_envelope_from_json ch) (jt_print tx (response_envelope_to_json ch (reply i rp)))
      = Inr (reply i (response_doubles (jt_double tx) rp))"
    by (rule from_text_printed [OF assms(1) printable_response],
        simp add: response_envelope_plain_def reply_def assms(4), subst response_envelope.reread)
      (simp_all add: response_envelope_plain_def response_envelope_doubles_def reply_def assms(4))
  ultimately show ?thesis by (simp add: serde_wire_def)
qed

theorem conversation_faithful_witness:
  "serve_line (serde_wire demo_layer demo_chrono (\<lambda>_. [])) demo_engine (request_line demo_layer (RequestId (lit ''r1''))
      (RqGetJob (JobId (lit ''j7'')))) demo_start
     = (reply (RequestId (lit ''r1'')) (RpError (lit ''unknown job: '' @ lit ''j7'')), demo_start)"
proof -
  have d: "dispatch demo_engine (request_doubles (jt_double demo_layer) (RqGetJob (JobId (lit ''j7'')))) demo_start
      = (RpError (lit ''unknown job: '' @ lit ''j7''), demo_start)"
    by (simp add: get_job_def unknown_job_def demo_start_def registry_with_store_def registry_get_def)
  show ?thesis
    using conversation_faithful [OF demo_laws(1) _ d, where ch = demo_chrono and event_text = "\<lambda>_. []"] by simp
qed

end
