(* ===== verification/Schema_Replies.thy ===== *)
theory Schema_Replies
  imports Serde_Store Schema Ai_Synthesis
begin

text \<open>
  The schemas of \<open>engine/src/ai/schema.rs\<close> against the types the replies are decoded into. \<open>conforms\<close> is the
  meaning JSON Schema gives to the keywords the engine uses; \<open>exact_members\<close> adds what a grammar built from a
  schema enforces, that no member is repeated or undeclared. What does both is decoded;
  an undeclared member can make a conforming reply unreadable.
\<close>

section \<open>The schema language\<close>

fun has_type :: "json \<Rightarrow> json \<Rightarrow> bool" where
  "has_type (JStr t) v = (case v of
     JNull \<Rightarrow> t = lit ''null'' | JBool _ \<Rightarrow> t = lit ''boolean'' | JInt _ \<Rightarrow> t \<in> {lit ''number'', lit ''integer''}
   | JNum _ \<Rightarrow> t = lit ''number'' | JStr _ \<Rightarrow> t = lit ''string'' | JArr _ \<Rightarrow> t = lit ''array'' | JObj _ \<Rightarrow> t = lit ''object'')"
| "has_type (JArr ts) v = list_ex (\<lambda>t. has_type t v) ts"
| "has_type _ v = True"

definition keyword :: "json \<Rightarrow> string \<Rightarrow> (json \<Rightarrow> bool) \<Rightarrow> bool" where
  "keyword schema k P = (case jget schema (lit k) of None \<Rightarrow> True | Some x \<Rightarrow> P x)"

definition one_of :: "json \<Rightarrow> json \<Rightarrow> bool" where
  "one_of allowed v = (case allowed of JArr vs \<Rightarrow> v \<in> set vs | _ \<Rightarrow> True)"

definition has_members :: "json \<Rightarrow> members \<Rightarrow> bool" where
  "has_members names ms = (case names of
     JArr ks \<Rightarrow> list_all (\<lambda>k. case k of JStr s \<Rightarrow> map_of ms s \<noteq> None | _ \<Rightarrow> True) ks | _ \<Rightarrow> True)"

definition property_schema :: "json \<Rightarrow> ustr \<Rightarrow> json" where
  "property_schema schema k = (case Option.bind (jget schema (lit ''properties'')) (\<lambda>ps. jget ps k) of
     Some s \<Rightarrow> s | None \<Rightarrow> JBool True)"

definition items_schema :: "json \<Rightarrow> json" where
  "items_schema schema = (case jget schema (lit ''items'') of Some s \<Rightarrow> s | None \<Rightarrow> JBool True)"

fun conforms :: "json \<Rightarrow> json \<Rightarrow> bool" where
  "conforms schema v \<longleftrightarrow> keyword schema ''type'' (\<lambda>t. has_type t v) \<and> keyword schema ''enum'' (\<lambda>e. one_of e v)
     \<and> (case v of
          JObj ms \<Rightarrow> keyword schema ''required'' (\<lambda>r. has_members r ms)
            \<and> list_all (\<lambda>(k, x). conforms (property_schema schema k) x) ms
        | JArr vs \<Rightarrow> list_all (conforms (items_schema schema)) vs
        | _ \<Rightarrow> True)"

fun exact_members :: "json \<Rightarrow> json \<Rightarrow> bool" where
  "exact_members schema v \<longleftrightarrow> (case v of
     JObj ms \<Rightarrow> distinct (map fst ms)
       \<and> list_all (\<lambda>(k, x). Option.bind (jget schema (lit ''properties'')) (\<lambda>ps. jget ps k) \<noteq> None
            \<and> exact_members (property_schema schema k) x) ms
   | JArr vs \<Rightarrow> list_all (exact_members (items_schema schema)) vs
   | _ \<Rightarrow> True)"

declare conforms.simps [simp del] exact_members.simps [simp del]

section \<open>Decoding what conforms\<close>

definition good :: "json \<Rightarrow> json \<Rightarrow> bool" where
  "good schema v \<longleftrightarrow> conforms schema v \<and> exact_members schema v"

definition decodes :: "(json \<Rightarrow> 'a option) \<Rightarrow> json \<Rightarrow> bool" where
  "decodes d schema \<longleftrightarrow> (\<forall>v. good schema v \<longrightarrow> d v \<noteq> None)"

definition object_schema :: "(ustr \<times> json) list \<Rightarrow> json list \<Rightarrow> json" where
  "object_schema props req = JObj [(lit ''type'', jstr ''object''), (lit ''properties'', JObj props),
     (lit ''required'', JArr req)]"

definition reply_fields :: "(ustr \<times> json) list \<Rightarrow> json list \<Rightarrow> members \<Rightarrow> bool" where
  "reply_fields props req ms \<longleftrightarrow> (\<forall>k. JStr k \<in> set req \<longrightarrow> map_of ms k \<noteq> None)
     \<and> (\<forall>k x. map_of ms k = Some x \<longrightarrow> (\<exists>s. map_of props k = Some s \<and> good s x))"

lemma good_type: "good schema v \<Longrightarrow> jget schema (lit ''type'') = Some t \<Longrightarrow> has_type t v"
  by (simp add: good_def conforms.simps [of schema v] keyword_def)

lemma good_object:
  assumes "good (object_schema props req) v"
  shows "\<exists>ms. v = JObj ms \<and> distinct (map fst ms) \<and> reply_fields props req ms"
proof -
  have c: "conforms (object_schema props req) v" "exact_members (object_schema props req) v"
    using assms by (simp_all add: good_def)
  have "has_type (jstr ''object'') v" using assms by (rule good_type) (simp add: object_schema_def)
  then obtain ms where v: "v = JObj ms" by (cases v) (simp_all add: jstr_def lit_eq_iff)
  have ps: "property_schema (object_schema props req) k = (case map_of props k of Some s \<Rightarrow> s | None \<Rightarrow> JBool True)" for k
    by (simp add: property_schema_def object_schema_def lit_eq_iff)
  have kw: "jget (object_schema props req) (lit ''properties'') = Some (JObj props)"
    "jget (object_schema props req) (lit ''required'') = Some (JArr req)"
    by (simp_all add: object_schema_def lit_eq_iff)
  have d: "distinct (map fst ms)"
    and cl: "\<forall>(k, x) \<in> set ms. map_of props k \<noteq> None \<and> exact_members (property_schema (object_schema props req) k) x"
    using c(2) [unfolded v exact_members.simps [of "object_schema props req"]] by (simp_all add: kw list_all_iff)
  have co: "\<forall>(k, x) \<in> set ms. conforms (property_schema (object_schema props req) k) x"
    and r: "\<forall>k \<in> set req. case k of JStr s \<Rightarrow> \<exists>y. map_of ms s = Some y | _ \<Rightarrow> True"
    using c(1) [unfolded v conforms.simps [of "object_schema props req"]]
    by (simp_all add: keyword_def kw list_all_iff has_members_def)
  have "reply_fields props req ms"
    unfolding reply_fields_def
  proof (intro conjI allI impI)
    fix k assume "JStr k \<in> set req"
    then show "map_of ms k \<noteq> None" using r by fastforce
  next
    fix k x assume "map_of ms k = Some x"
    then have "(k, x) \<in> set ms" by (rule map_of_SomeD)
    then show "\<exists>s. map_of props k = Some s \<and> good s x" using cl co by (force simp: ps good_def)
  qed
  then show ?thesis using v d by blast
qed

lemma members_distinct:
  assumes "distinct (map fst ms)"
  shows "struct_members known (JObj ms) = Some ms"
proof -
  have "unique_members ks ms" for ks by (rule unique_subseq [OF _ assms]) simp
  then show ?thesis by (simp add: struct_members_def object_members_def)
qed

lemma decodes_object:
  assumes "\<And>ms. reply_fields props req ms \<Longrightarrow> f ms \<noteq> None"
  shows "decodes (\<lambda>j. Option.bind (struct_members known j) f) (object_schema props req)"
  unfolding decodes_def using good_object assms by (fastforce simp: members_distinct)

lemma bind_some: "m \<noteq> None \<Longrightarrow> (\<And>x. f x \<noteq> None) \<Longrightarrow> Option.bind m f \<noteq> None"
  by (cases m) auto

lemma reply_value:
  assumes "reply_fields props req ms" "map_of ms (lit k) = Some x"
    and "\<And>s. map_of props (lit k) = Some s \<Longrightarrow> decodes d s"
  shows "d x \<noteq> None"
  using assms unfolding reply_fields_def decodes_def by blast

lemma reply_required:
  "reply_fields props req ms \<Longrightarrow> jstr k \<in> set req \<Longrightarrow> (\<And>s. map_of props (lit k) = Some s \<Longrightarrow> decodes d s)
    \<Longrightarrow> required_field d k ms \<noteq> None"
  using reply_value [of props req ms k _ d] unfolding required_field_def jstr_def
  by (cases "map_of ms (lit k)") (auto simp: reply_fields_def)

lemma reply_defaulted:
  "reply_fields props req ms \<Longrightarrow> (\<And>s. map_of props (lit k) = Some s \<Longrightarrow> decodes d s)
    \<Longrightarrow> defaulted z d k ms \<noteq> None"
  using reply_value [of props req ms k _ d] unfolding defaulted_def
  by (cases "map_of ms (lit k)") simp_all

lemma decodes_option: "decodes d s \<Longrightarrow> decodes (from_option d) s"
  by (simp add: decodes_def from_option_def)

lemma decodes_string: "decodes from_str (jtype ''string'')"
  unfolding decodes_def
proof (intro allI impI)
  fix v assume "good (jtype ''string'') v"
  then have "has_type (jstr ''string'') v" by (rule good_type) (simp add: jtype_def)
  then show "from_str v \<noteq> None" by (cases v) (simp_all add: jstr_def lit_eq_iff)
qed

lemma decodes_number: "decodes from_f64 (jtype ''number'')"
  unfolding decodes_def
proof (intro allI impI)
  fix v assume "good (jtype ''number'') v"
  then have "has_type (jstr ''number'') v" by (rule good_type) (simp add: jtype_def)
  then show "from_f64 v \<noteq> None" by (cases v) (simp_all add: jstr_def lit_eq_iff)
qed

lemma decodes_nullable_string:
  "decodes (from_option from_str) (JObj [(lit ''type'', JArr [jstr ''string'', jstr ''null''])])"
  unfolding decodes_def
proof (intro allI impI)
  fix v assume "good (JObj [(lit ''type'', JArr [jstr ''string'', jstr ''null''])]) v"
  then have "has_type (JArr [jstr ''string'', jstr ''null'']) v" by (rule good_type) simp
  then show "from_option from_str v \<noteq> None" by (cases v) (simp_all add: jstr_def lit_eq_iff from_option_def)
qed

lemma traverse_some: "(\<And>x. x \<in> set xs \<Longrightarrow> d x \<noteq> None) \<Longrightarrow> traverse d xs \<noteq> None"
  by (induction xs) (fastforce split: bind_splits)+

lemma decodes_array:
  assumes "decodes d item"
  shows "decodes (from_vec d) (array_of item)"
  unfolding decodes_def
proof (intro allI impI)
  fix v assume g: "good (array_of item) v"
  then have "has_type (jstr ''array'') v" by (rule good_type) (simp add: array_of_def)
  then obtain vs where v: "v = JArr vs" by (cases v) (simp_all add: jstr_def lit_eq_iff)
  have "items_schema (array_of item) = item" by (simp add: items_schema_def array_of_def lit_eq_iff)
  then have "\<forall>x \<in> set vs. good item x" using g
    by (simp add: v good_def conforms.simps [of "array_of item" "JArr vs"] exact_members.simps [of "array_of item" "JArr vs"] list_all_iff)
  then show "from_vec d v \<noteq> None" using assms traverse_some [of vs d] by (simp add: v from_vec_def decodes_def)
qed

section \<open>The engine's schemas\<close>

lemma decodes_status:
  "decodes (from_variant action_statuses) (JObj [(lit ''type'', jstr ''string''),
     (lit ''enum'', JArr [jstr ''open'', jstr ''in_progress'', jstr ''done'', jstr ''cancelled''])])"
  unfolding decodes_def
proof (intro allI impI)
  let ?s = "JObj [(lit ''type'', jstr ''string''),
     (lit ''enum'', JArr [jstr ''open'', jstr ''in_progress'', jstr ''done'', jstr ''cancelled''])]"
  fix v assume "good ?s v"
  then have "v \<in> set [jstr ''open'', jstr ''in_progress'', jstr ''done'', jstr ''cancelled'']"
    by (simp add: good_def conforms.simps [of ?s v] keyword_def one_of_def lit_eq_iff)
  then show "from_variant action_statuses v \<noteq> None"
    by (auto simp: from_variant_def action_statuses_def jstr_def lit_eq_iff)
qed

lemmas schema_defs = participant_schema_def topic_schema_def decision_schema_def action_item_schema_def
  open_question_schema_def risk_schema_def evidence_schema_def

lemmas object_schemas = schema_defs [folded object_schema_def]

lemmas reply_rules = decodes_object bind_some reply_required reply_defaulted

lemma decodes_evidence: "decodes evidence_from_json evidence_schema"
  unfolding object_schemas evidence_from_json_def
  by (intro reply_rules)
    (auto simp: lit_eq_iff decodes_string decodes_number decodes_option split: if_splits)

lemma decodes_evidence_array: "decodes (from_vec evidence_from_json) evidence_array"
  using decodes_array [OF decodes_evidence] by (simp add: evidence_array_def array_of_def)

lemmas decodes_basic = decodes_string decodes_number decodes_option decodes_nullable_string decodes_status
  decodes_evidence_array lit_eq_iff

lemma decodes_items:
  "decodes topic_from_json topic_schema \<and> decodes decision_from_json decision_schema
   \<and> decodes action_item_from_json action_item_schema \<and> decodes open_question_from_json open_question_schema
   \<and> decodes risk_from_json risk_schema \<and> decodes participant_from_json participant_schema"
  unfolding object_schemas topic_from_json_def decision_from_json_def action_item_from_json_def
    open_question_from_json_def risk_from_json_def participant_from_json_def
  by (intro conjI reply_rules) (auto simp: decodes_basic split: if_splits)

lemma decodes_findings: "decodes chunk_findings_from_json findings_schema"
  unfolding findings_schema_def object_schema_def [symmetric] chunk_findings_from_json_def
  by (intro reply_rules)
    (auto simp: decodes_array decodes_items lit_eq_iff split: if_splits)

lemma decodes_ir: "decodes meeting_ir_from_json ir_schema"
  unfolding ir_schema_def object_schema_def [symmetric] meeting_ir_from_json_def
  by (intro reply_rules)
    (auto simp: decodes_array decodes_items decodes_string lit_eq_iff split: if_splits)

text \<open>C22. The schemas and the types agree: whatever prose a reply wraps it in, a value that conforms to the schema
  sent with the request and has no other members is accepted, in the extraction as in the synthesis, so
  that a runtime that enforces the schema never triggers the repair attempt.\<close>

theorem schema_replies_accepted:
  assumes "jt_parse tx (strip_to_json_object raw) = Inr v"
  shows "(good findings_schema v \<longrightarrow> (\<exists>f. parse_findings u (from_text tx chunk_findings_from_json) raw chunk = Inr f))
    \<and> (good ir_schema v \<longrightarrow> (\<exists>ir. parse_ir (from_text tx meeting_ir_from_json) raw = Inr ir))"
  using assms decodes_findings decodes_ir
  by (auto simp: parse_findings_def parse_ir_def from_text_def decodes_def split: option.splits)

definition empty_reply :: json where
  "empty_reply = JObj [(lit ''topics'', JArr []), (lit ''decisions'', JArr []), (lit ''action_items'', JArr []),
     (lit ''open_questions'', JArr []), (lit ''risks'', JArr [])]"

theorem schema_replies_accepted_witness:
  "good findings_schema empty_reply
   \<and> (\<forall>chunk. \<exists>f. parse_findings ascii_unicode (from_text (demo_layer\<lparr> jt_parse := \<lambda>_. Inr empty_reply \<rparr>) chunk_findings_from_json)
        (lit ''Here you are: {...}'') chunk = Inr f)"
proof -
  have g: "good findings_schema empty_reply"
    by (simp add: good_def empty_reply_def findings_schema_def array_of_def conforms.simps exact_members.simps
        keyword_def lit_eq_iff jstr_def has_members_def property_schema_def)
  have "jt_parse (demo_layer\<lparr> jt_parse := \<lambda>_. Inr empty_reply \<rparr>) (strip_to_json_object (lit ''Here you are: {...}'')) = Inr empty_reply"
    by simp
  from schema_replies_accepted [OF this] g show ?thesis by blast
qed

text \<open>Without a grammar a conforming reply may have members the schema does not mention, and of any type: a
  confidence in words conforms and is not decoded.\<close>

definition worded_confidence :: json where
  "worded_confidence = JObj [(lit ''topics'', JArr [JObj [(lit ''title'', jstr ''Scope''), (lit ''confidence'', jstr ''high'')]]),
     (lit ''decisions'', JArr []), (lit ''action_items'', JArr []), (lit ''open_questions'', JArr []), (lit ''risks'', JArr [])]"

lemma conforming_reply_rejected:
  "conforms findings_schema worded_confidence" "chunk_findings_from_json worded_confidence = None"
   apply (simp add: worded_confidence_def findings_schema_def array_of_def topic_schema_def conforms.simps keyword_def
      lit_eq_iff jstr_def has_members_def property_schema_def items_schema_def jtype_def)
  apply (simp add: worded_confidence_def chunk_findings_from_json_def struct_members_def object_members_def
      unique_members_def topic_from_json_def required_field_def defaulted_def from_vec_def from_option_def
      lit_eq_iff jstr_def)
  done

end
