(* ===== verification/Spec2Isabelle.thy ===== *)
theory Spec2Isabelle
  imports Orchestrator_Events Engine_Wiring Engine_Interleaved Ipc_Wire Schema_Replies
begin

text \<open>
  Verification of the Notely engine, the Rust program under \<open>engine/src\<close>: a local service that turns
  meeting transcripts and recordings into structured minutes and answers questions from a vault of notes.

  The parts and how they interact. The desktop app sends one JSON request per line to the IPC server
  (\<open>ipc/server.rs\<close>), which hands it to the engine (\<open>lib.rs\<close>). The engine answers reads from the store,
  searches and asks through the vault index, and registers a job and spawns a task for work that
  takes long. A task runs the pipeline (\<open>pipeline/orchestrator.rs\<close>): media and speech recognition for
  recordings, then transcript preparation, the two-pass analysis by a language model, validation and
  rendering, each stage saving what it made. Progress goes out as events. At startup the engine first
  repairs what a dead process left: captures stuck in processing and jobs that never ended.

  Theories and code, bottom up:
  \<^item> \<open>Prelude\<close>, \<open>Rust_Str\<close>, \<open>Rust_Float\<close>, \<open>Rust_Ieee\<close>, \<open>Rust_Path\<close>: what the source uses of Rust's
    standard library - the error monad with state (\<open>bindE\<close>, \<open>okE\<close>, \<open>errE\<close>), stable sorting, strings as
    lists of Unicode scalar values with their UTF-8 length, floats, paths.
  \<^item> \<open>Domain\<close>: \<open>domain/*.rs\<close>. \<open>Preprocess\<close>: \<open>preprocess/*.rs\<close>.
  \<^item> \<open>Llm\<close>, \<open>Schema\<close>, \<open>Ai_Extraction\<close>, \<open>Ai_Synthesis\<close>, \<open>Ai_Analyze\<close>: \<open>llm/provider.rs\<close>, \<open>ai/*.rs\<close>.
    \<open>Renderer\<close>: \<open>renderer/*.rs\<close>.
  \<^item> \<open>Serde\<close>, \<open>Serde_Domain\<close>, \<open>Serde_Store\<close>, \<open>Wire_Codec\<close>: the JSON form of the domain types, of the stored
    contents and of the messages, as the \<open>serde\<close> attributes on the declarations prescribe it.
    \<open>Schema_Replies\<close>: that these forms accept what the schemas sent to the model allow.
  \<^item> \<open>Llm_Cache\<close>, \<open>Llm_Providers\<close>: \<open>llm/cache.rs\<close>, \<open>llm/ollama.rs\<close>, \<open>llm/mlx.rs\<close>, \<open>llm/model.rs\<close>.
  \<^item> \<open>Storage\<close>: \<open>storage/*\<close>. \<open>Jobs\<close>: \<open>pipeline/jobs.rs\<close>, \<open>pipeline/job_store.rs\<close>. \<open>Media_Asr\<close>: \<open>media/*\<close>,
    \<open>asr/*\<close>. \<open>Ipc_Events\<close>: \<open>ipc/events.rs\<close>.
  \<^item> \<open>Orchestrator\<close>: \<open>pipeline/orchestrator.rs\<close>. \<open>Interleave\<close>, \<open>Pipeline_Thread\<close>: the same pipeline cut into the
    steps between which other jobs may run, with its event schedule in \<open>Orchestrator_Events\<close> and its effect
    on store and registry in \<open>Orchestrator_Observed\<close> and \<open>Orchestrator_Store\<close>.
  \<^item> \<open>Search_Chunker\<close>, \<open>Search_Index\<close>, \<open>Search_Vectors\<close>, \<open>Search_Retrieve\<close>, \<open>Search_Qa\<close>: \<open>search/*.rs\<close>, with
    the synchronisation proved in \<open>Search_Sync\<close> and the embedding pass in \<open>Search_Embed\<close>.
  \<^item> \<open>Config\<close>: \<open>config.rs\<close>. \<open>Ipc_Protocol\<close>: \<open>ipc/protocol.rs\<close>. \<open>Ipc_Server\<close>: \<open>ipc/server.rs\<close>, over the
    derived message forms in \<open>Ipc_Wire\<close>.
  \<^item> \<open>Engine\<close>: \<open>lib.rs\<close>, with \<open>Engine_Jobs\<close>, \<open>Engine_Recovery\<close>, \<open>Engine_Drain\<close> and \<open>Engine_Queries\<close> on what its
    requests, tasks and restarts do, \<open>Engine_Interleaved\<close> on its jobs running at the same time, and
    \<open>Engine_Wiring\<close> on \<open>Engine::new\<close>.

  State. Each component's state is a record or a table: the database is the list of its rows, the registry
  the map of its jobs beside the mirrored table, the index its three tables. The pipeline's \<open>world\<close>
  collects database, registry, events and the state of the external services; the engine's
  \<open>engine_world\<close> adds the index, the flag of the embedding pass and the list of spawned tasks. Operations
  are functions from state to result and state; failing ones return a sum whose left side is the error
  type of the source. Everything the program does not decide itself - whether a statement or call fails,
  the clock, random ids, the reply of a model - is read from an environment indexed by a counter that
  every use advances, so that a theorem holds for every sequence of such events.

  What the lemmas show. Preparation and chunking partition their input and respect their budgets.
  Findings and minutes are traceable to the transcript: quotes, chunk ids, owners and deadlines are
  supported or dropped. The store refines a map with one entry per key, each write atomic. A job saves
  its source before any model is asked, leaves every other meeting alone, sends a prefix of its event
  schedule and one terminal event, and ends in a terminal state. The engine never leaves a job without
  a task or a thread that will end it, in any interleaving; its background work comes to rest, and then
  the durable queue is empty; it retries at most three times after crashes and marks interrupted captures
  as retryable. The index is fresh after a synchronisation and truthful after a failed one; search results quote the notes
  as they are; asking always answers. The cache is invisible. Each request has exactly one reply, and
  messages reach the client whole. What is stored or sent reads back as itself, up to the last digits of
  a double, and a reply of the model that keeps to the schema is never rejected.

  Interfaces. The contracts between components are locales, each interpreted on the model: the order
  laws of the comparators (\<open>Prelude\<close>), evidence-carrying items (\<open>Ai_Extraction\<close>, \<open>Ai_Synthesis\<close>),
  an extracting analyser (\<open>Ai_Analyze\<close>), the keyed tables of the store (\<open>Storage\<close>), what a step
  of a job may do (\<open>Pipeline_Thread\<close>, \<open>Orchestrator_Store\<close>), what a listener hears (\<open>Orchestrator_Events\<close>), and a type with its JSON form, extended by what becomes of its
  doubles (\<open>Serde\<close>, \<open>Serde_Store\<close>).

  Termination and bounds. Loops are structural or carry a measure (the cleaning of replies, the digits of
  a number, the bit length of a rational); no definition uses fuel. Retry counters and request
  options are 32-bit words, sizes and line numbers natural numbers, since the source's \<open>usize\<close> arithmetic on them
  only adds within the length of a text. A double that is only compared is its rational value; where the
  search computes with floats, results are rounded as IEEE 754 prescribes.

  Granularity. A job is a thread: a call to the store, to a service or to the registry, or an event sent, is
  one step, and between any two steps other jobs make theirs, requests are served, the embedding pass runs
  or the process dies. A served request and an embedding pass are single steps. Run alone a thread is the
  pipeline function of \<open>Orchestrator\<close> (\<open>alone_jobs\<close>), and the schedules that run one task after the other,
  which \<open>Engine_Jobs\<close> and \<open>Engine_Drain\<close> treat, are among the interleavings (\<open>background_runs_task\<close>). The
  recovery theorems hold from any database and job table, so they cover a crash in the middle of a task. What
  a job stores is stated for the meetings the others leave alone while it runs (\<open>kept\<close>), a
  hypothesis that holds when ids are distinct and no two jobs work on one meeting. The engine does not keep
  clients from retrying a meeting twice at the same time, and of such a meeting nothing is claimed.

  Not modelled, and why: sockets, the accept loop, logging, process start and shutdown (\<open>main.rs\<close>, parts of
  \<open>lib.rs\<close> and \<open>ipc/server.rs\<close>) are input and output; opening database files and HTTP clients at startup
  is taken to succeed, except for the cache and the job table, without which the engine runs; SQLite, FTS5, FFmpeg, the
  HTTP servers, the JSON text format, the hash function and the Unicode tables are not under \<open>engine/src\<close>
  and are parameters with the laws used of them as hypotheses (the law of JSON text lets a double read
  back as another one, since the crate does not ask for exact parsing; a time stamp is text of \<open>chrono\<close>);
  the text of an event is a parameter too, which the engine only writes; \<open>renderer/html.rs\<close> and \<open>asr/whisper.rs\<close> are
  placeholders in the source that return errors. The Flutter app and its native hosts are other programs.
\<close>

end
